(* ===== verification/Prelude.thy ===== *)
theory Prelude
  imports Complex_Main "HOL-Library.List_Lexorder" "HOL-Library.Char_ord"
    "HOL-Library.Product_Lexorder"
begin

text \<open>
  Shared vocabulary of the development: the Python values, exceptions and text helpers that
  several CogDoc modules use, the state file a durable store keeps on disk, and the generic
  lemmas the component theories rely on.

  A Python string is a \<^typ>\<open>string\<close>: one \<^typ>\<open>char\<close> per code point, so the model covers the code
  points below 256; the order on strings is code-point order, which is Python's order and the
  byte order SQLite and PostgreSQL ("C" collation) use for UTF-8 text.  A finite float is a real
  number: rounding is not modelled, the non-finite values are.  A Python exception is a value of
  type \<open>exn\<close> on the left of a sum.
\<close>

section \<open>Collections of facts\<close>

named_theorems json_simps \<open>reading and writing fields of JSON objects\<close>
named_theorems row_simps \<open>what the update statements of the job and outbox tables do to a row\<close>

section \<open>Exceptions\<close>

text \<open>
  One constructor per exception class the modelled code raises; a message is kept where the code
  uses the same class for several reasons.
\<close>

datatype exn =
    ValueError string
  | KeyError string
  | TypeError string
  | AttributeError string
  | RuntimeError string
  | OSError
  | UnicodeError
  | TimeoutError string
  | JSONDecodeError
  | AssertionError
  | OverflowError
  | StaleGenerationError
  | KBStateCorruptError string
  | EpochCorruptError string
  | KBReadUnavailable
  | MutationJournalError string
  | PurgeQueueCorruptError string
  | StorageError string
  | TransientStorageError
  | IntegrityError
  | StaleJobLease
  | JobConflict string
  | StaleOutboxLease
  | OutboxConflict string
  | TenantQuotaExceeded string int int int
  | TenantMutationInProgress
  | TenantQuotaReservationLost
  | KBExistsError
  | DistributedStateError string
  | MutationBusy real
  | StaleMutationFence string
  | SourceGenerationConflict
  | ObjectNotFound
  | ObjectIntegrityError
  | IndexGenerationError string
  | IndexConflict string
  | StaleIndexFence string
  | IndexIntegrityError
  | DistributedKBDeletionError string
  | HandlerError string
  | MigrationError string
  | MigrationConflict string
  | VersionRegistryError string

type_synonym 'a res = "exn + 'a"

definition is_ok :: "'a res \<Rightarrow> bool" where
  "is_ok r = (case r of Inl _ \<Rightarrow> False | Inr _ \<Rightarrow> True)"

lemma is_ok_simps [simp]: "is_ok (Inr x)" "\<not> is_ok (Inl e)"
  by (simp_all add: is_ok_def)

text \<open>Sequencing of fallible steps: the first exception wins.\<close>

definition bindR :: "'a res \<Rightarrow> ('a \<Rightarrow> 'b res) \<Rightarrow> 'b res" where
  "bindR r f = (case r of Inl e \<Rightarrow> Inl e | Inr x \<Rightarrow> f x)"

lemma bindR_simps [simp]: "bindR (Inl e) f = Inl e" "bindR (Inr x) f = f x"
  by (simp_all add: bindR_def)

lemma bindR_Inr [simp]: "bindR r f = Inr y \<longleftrightarrow> (\<exists>x. r = Inr x \<and> f x = Inr y)"
  by (cases r) auto

lemma bindR_Inl: "bindR r f = Inl e \<longleftrightarrow> r = Inl e \<or> (\<exists>x. r = Inr x \<and> f x = Inl e)"
  by (cases r) auto

text \<open>A check that raises: the \<open>if bad: raise e\<close> guard of the source.\<close>

definition guardR :: "bool \<Rightarrow> exn \<Rightarrow> unit res" where
  "guardR ok e = (if ok then Inr () else Inl e)"

lemma guardR_simps [simp]:
  "guardR True e = Inr ()" "guardR False e = Inl e"
  "guardR b e = Inr u \<longleftrightarrow> b" "guardR b e = Inl e' \<longleftrightarrow> \<not> b \<and> e' = e"
  by (auto simp: guardR_def)

section \<open>Numbers and text\<close>

datatype pyfloat = Fin real | PosInf | NegInf | NaN

fun isfinite :: "pyfloat \<Rightarrow> bool" where
  "isfinite (Fin _) = True"
| "isfinite _ = False"

fun fin_val :: "pyfloat \<Rightarrow> real" where
  "fin_val (Fin r) = r"
| "fin_val _ = 0"

definition ord_char :: "char \<Rightarrow> nat" where
  "ord_char c = of_char c"

text \<open>\<open>str.isspace\<close> on the code points below 256, which is what \<open>str.strip\<close> removes.\<close>

definition py_space :: "char \<Rightarrow> bool" where
  "py_space c =
     (let n = ord_char c
      in (9 \<le> n \<and> n \<le> 13) \<or> (28 \<le> n \<and> n \<le> 32) \<or> n = 133 \<or> n = 160)"

definition py_strip :: "string \<Rightarrow> string" where
  "py_strip s = rev (dropWhile py_space (rev (dropWhile py_space s)))"

definition utf8_len :: "string \<Rightarrow> nat" where
  "utf8_len s = sum_list (map (\<lambda>c. if ord_char c < 128 then 1 else 2) s)"

text \<open>\<open>s.split(c)\<close> for a one-character separator\<close>

fun split_on :: "char \<Rightarrow> string \<Rightarrow> string list" where
  "split_on c [] = [[]]"
| "split_on c (x # xs) = (if x = c then [] # split_on c xs
     else case split_on c xs of [] \<Rightarrow> [[x]] | p # ps \<Rightarrow> (x # p) # ps)"

text \<open>\<open>str(n)\<close> for an integer.\<close>

fun show_nat :: "nat \<Rightarrow> string" where
  "show_nat n = (if n < 10 then [char_of (48 + n)]
                 else show_nat (n div 10) @ [char_of (48 + n mod 10)])"

declare show_nat.simps [simp del]

definition show_int :: "int \<Rightarrow> string" where
  "show_int i = (if i < 0 then CHR ''-'' # show_nat (nat (- i)) else show_nat (nat i))"

end
