(* ===== verification/PyJson.thy ===== *)
theory PyJson
  imports Prelude
begin

text \<open>
  JSON values as the code sees them after \<open>json.load\<close>, the text \<open>json.dumps\<close> writes for them,
  Python's equality on them, and dictionary operations on JSON objects.

  A JSON text is represented by the tree it parses to: with fixed separators and sorted keys
  \<open>json.dumps\<close> is injective on trees, so comparing texts is comparing trees and \<open>json.loads\<close> is
  the identity.  The text itself is only needed for its length and as input of a hash.
\<close>

section \<open>Values\<close>

datatype json =
    JNull
  | JBool bool
  | JInt int
  | JFloat pyfloat
  | JStr string
  | JArr "json list"
  | JObj "(string \<times> json) list"
  | JOpaque \<comment> \<open>a Python object the json module cannot serialise\<close>

type_synonym jdict = "(string \<times> json) list"

text \<open>A dictionary: lookup, assignment (in place, or appended) and removal of a key.\<close>

definition jget :: "jdict \<Rightarrow> string \<Rightarrow> json option" where
  "jget d k = map_of d k"

fun jset :: "string \<Rightarrow> 'v \<Rightarrow> (string \<times> 'v) list \<Rightarrow> (string \<times> 'v) list" where
  "jset k v [] = [(k, v)]"
| "jset k v ((k', v') # d) = (if k' = k then (k, v) # d else (k', v') # jset k v d)"

definition jpop :: "string \<Rightarrow> (string \<times> 'v) list \<Rightarrow> (string \<times> 'v) list" where
  "jpop k d = filter (\<lambda>(k', v). k' \<noteq> k) d"

text \<open>\<open>gen.get(k)\<close> on a value that is expected to be an object, with \<open>None\<close> as the default.\<close>

definition jfield :: "json \<Rightarrow> string \<Rightarrow> json" where
  "jfield j k = (case j of JObj d \<Rightarrow> (case map_of d k of None \<Rightarrow> JNull | Some v \<Rightarrow> v) | _ \<Rightarrow> JNull)"

definition jput :: "string \<Rightarrow> json \<Rightarrow> json \<Rightarrow> json" where
  "jput k v j = (case j of JObj d \<Rightarrow> JObj (jset k v d) | _ \<Rightarrow> j)"

definition jdrop :: "string \<Rightarrow> json \<Rightarrow> json" where
  "jdrop k j = (case j of JObj d \<Rightarrow> JObj (jpop k d) | _ \<Rightarrow> j)"

definition jhas :: "json \<Rightarrow> string \<Rightarrow> bool" where
  "jhas j k = (case j of JObj d \<Rightarrow> k \<in> set (map fst d) | _ \<Rightarrow> False)"

fun is_obj :: "json \<Rightarrow> bool" where
  "is_obj (JObj _) = True"
| "is_obj _ = False"

fun is_nonempty_str :: "json \<Rightarrow> bool" where
  "is_nonempty_str (JStr s) = (s \<noteq> [])"
| "is_nonempty_str _ = False"

text \<open>\<open>isinstance(v, int) and not isinstance(v, bool) and v >= 0\<close>\<close>

fun is_nat_int :: "json \<Rightarrow> bool" where
  "is_nat_int (JInt i) = (0 \<le> i)"
| "is_nat_int _ = False"

text \<open>a finite non-negative int or float that is not a bool\<close>

fun is_nonneg_num :: "json \<Rightarrow> bool" where
  "is_nonneg_num (JInt i) = (0 \<le> i)"
| "is_nonneg_num (JFloat (Fin r)) = (0 \<le> r)"
| "is_nonneg_num _ = False"

fun num_val :: "json \<Rightarrow> real" where
  "num_val (JInt i) = of_int i"
| "num_val (JFloat x) = fin_val x"
| "num_val _ = 0"

text \<open>Lists and objects are unhashable: testing them for membership in a set or as a key of a
  dictionary raises \<open>TypeError\<close>.\<close>

fun hashable :: "json \<Rightarrow> bool" where
  "hashable (JArr _) = False"
| "hashable (JObj _) = False"
| "hashable _ = True"

text \<open>Python truth value.\<close>

fun truthy :: "json \<Rightarrow> bool" where
  "truthy JNull = False"
| "truthy (JBool b) = b"
| "truthy (JInt i) = (i \<noteq> 0)"
| "truthy (JFloat x) = (x \<noteq> Fin 0)"
| "truthy (JStr s) = (s \<noteq> [])"
| "truthy (JArr xs) = (xs \<noteq> [])"
| "truthy (JObj d) = (d \<noteq> [])"
| "truthy JOpaque = True"

section \<open>Equality, canonical form and text\<close>

text \<open>Numeric value under Python's cross-type equality: \<open>True == 1 == 1.0\<close>.\<close>

fun py_num :: "json \<Rightarrow> real option" where
  "py_num (JBool b) = Some (if b then 1 else 0)"
| "py_num (JInt i) = Some (of_int i)"
| "py_num (JFloat (Fin r)) = Some r"
| "py_num _ = None"

fun py_eq :: "json \<Rightarrow> json \<Rightarrow> bool" and py_eq_list :: "json list \<Rightarrow> json list \<Rightarrow> bool"
  and py_sub :: "jdict \<Rightarrow> jdict \<Rightarrow> bool" where
  "py_eq JNull JNull = True"
| "py_eq (JStr s) (JStr t) = (s = t)"
| "py_eq (JArr xs) (JArr ys) = py_eq_list xs ys"
| "py_eq (JObj d) (JObj e) = (length d = length e \<and> py_sub d e)"
| "py_eq JOpaque JOpaque = True"
| "py_eq a b =
     (a = JFloat PosInf \<and> b = JFloat PosInf \<or> a = JFloat NegInf \<and> b = JFloat NegInf \<or>
      py_num a \<noteq> None \<and> py_num a = py_num b)"
| "py_eq_list [] [] = True"
| "py_eq_list (x # xs) (y # ys) = (py_eq x y \<and> py_eq_list xs ys)"
| "py_eq_list _ _ = False"
| "py_sub [] e = True"
| "py_sub ((k, v) # d) e =
     ((case map_of e k of None \<Rightarrow> False | Some w \<Rightarrow> py_eq v w) \<and> py_sub d e)"

text \<open>\<open>sort_keys=True\<close>, at every level.\<close>

fun json_canon :: "json \<Rightarrow> json" and canon_members :: "jdict \<Rightarrow> jdict"
  and canon_list :: "json list \<Rightarrow> json list" where
  "json_canon (JArr xs) = JArr (canon_list xs)"
| "json_canon (JObj d) = JObj (sort_key fst (canon_members d))"
| "json_canon j = j"
| "canon_members [] = []"
| "canon_members ((k, v) # d) = (k, json_canon v) # canon_members d"
| "canon_list [] = []"
| "canon_list (x # xs) = json_canon x # canon_list xs"

definition hex_digit :: "nat \<Rightarrow> char" where
  "hex_digit n = char_of (if n < 10 then 48 + n else 87 + n)"

text \<open>String escapes of \<open>json.dumps(ensure_ascii=False)\<close>.\<close>

definition esc_char :: "char \<Rightarrow> string" where
  "esc_char c =
     (let n = ord_char c in
      if n = 34 then [char_of (92::nat), c]
      else if n = 92 then [c, c]
      else if n = 10 then [char_of (92::nat), CHR ''n'']
      else if n = 13 then [char_of (92::nat), CHR ''r'']
      else if n = 9 then [char_of (92::nat), CHR ''t'']
      else if n = 12 then [char_of (92::nat), CHR ''f'']
      else if n = 8 then [char_of (92::nat), CHR ''b'']
      else if n < 32 then [char_of (92::nat), CHR ''u'', CHR ''0'', CHR ''0'',
                           hex_digit (n div 16), hex_digit (n mod 16)]
      else [c])"

definition quote_str :: "string \<Rightarrow> string" where
  "quote_str s = char_of (34::nat) # concat (map esc_char s) @ [char_of (34::nat)]"

fun join_with :: "string \<Rightarrow> string list \<Rightarrow> string" where
  "join_with sep [] = []"
| "join_with sep [x] = x"
| "join_with sep (x # xs) = x @ sep @ join_with sep xs"

text \<open>
  \<open>json.dumps(v, ensure_ascii=False, sort_keys=True, separators=(",", ":"), allow_nan=False)\<close>;
  \<open>None\<close> where it raises.  The parameter \<open>frepr\<close> is \<open>float.__repr__\<close>, the shortest text that
  reads back as the float.
\<close>

fun json_text :: "(real \<Rightarrow> string) \<Rightarrow> json \<Rightarrow> string option"
  and text_list :: "(real \<Rightarrow> string) \<Rightarrow> json list \<Rightarrow> string list option"
  and text_members :: "(real \<Rightarrow> string) \<Rightarrow> jdict \<Rightarrow> string list option" where
  "json_text f JNull = Some ''null''"
| "json_text f (JBool b) = Some (if b then ''true'' else ''false'')"
| "json_text f (JInt i) = Some (show_int i)"
| "json_text f (JFloat (Fin r)) = Some (f r)"
| "json_text f (JFloat _) = None"
| "json_text f (JStr s) = Some (quote_str s)"
| "json_text f (JArr xs) =
     map_option (\<lambda>ts. ''['' @ join_with '','' ts @ '']'') (text_list f xs)"
| "json_text f (JObj d) =
     map_option (\<lambda>ts. ''{'' @ join_with '','' ts @ ''}'') (text_members f d)"
| "json_text f JOpaque = None"
| "text_list f [] = Some []"
| "text_list f (x # xs) =
     (case json_text f x of None \<Rightarrow> None
      | Some t \<Rightarrow> map_option (\<lambda>ts. t # ts) (text_list f xs))"
| "text_members f [] = Some []"
| "text_members f ((k, v) # d) =
     (case json_text f v of None \<Rightarrow> None
      | Some t \<Rightarrow> map_option (\<lambda>ts. (quote_str k @ '':'' @ t) # ts) (text_members f d))"

definition json_dumps :: "(real \<Rightarrow> string) \<Rightarrow> json \<Rightarrow> string option" where
  "json_dumps f j = json_text f (json_canon j)"

section \<open>Lemmas on dictionaries and objects\<close>

lemma map_of_jset [json_simps]: "map_of (jset k v d) = (map_of d)(k \<mapsto> v)"
  by (induction k v d rule: jset.induct) auto

lemma map_of_jpop [json_simps]: "map_of (jpop k d) = (map_of d)(k := None)"
  by (induction d) (auto simp: jpop_def)

lemma keys_jset: "set (map fst (jset k v d)) = insert k (set (map fst d))"
  by (induction k v d rule: jset.induct) auto

lemma distinct_jset: "distinct (map fst d) \<Longrightarrow> distinct (map fst (jset k v d))"
proof (induction k v d rule: jset.induct)
  case (2 k v k' v' d)
  then show ?case using keys_jset [of k v d] by auto
qed simp

lemma keys_jpop: "set (map fst (jpop k d)) = set (map fst d) - {k}"
  by (induction d) (auto simp: jpop_def)

lemma distinct_jpop: "distinct (map fst d) \<Longrightarrow> distinct (map fst (jpop k d))"
  by (induction d) (auto simp: jpop_def)

lemma set_jset:
  "distinct (map fst d) \<Longrightarrow> set (jset k v d) = insert (k, v) {p \<in> set d. fst p \<noteq> k}"
proof (induction k v d rule: jset.induct)
  case (2 k v k' v' d)
  then show ?case by (auto simp: image_iff)
qed simp

lemma set_jpop: "set (jpop k d) = {p \<in> set d. fst p \<noteq> k}"
  by (auto simp: jpop_def)

lemma jfield_jput [json_simps]:
  "jfield (jput k v (JObj d)) k' = (if k' = k then v else jfield (JObj d) k')"
  by (simp add: jfield_def jput_def map_of_jset)

lemma jfield_jdrop [json_simps]:
  "jfield (jdrop k (JObj d)) k' = (if k' = k then JNull else jfield (JObj d) k')"
  by (simp add: jfield_def jdrop_def map_of_jpop)

lemma jhas_jput [json_simps]: "jhas (jput k v (JObj d)) k' \<longleftrightarrow> k' = k \<or> jhas (JObj d) k'"
  using keys_jset [of k v d] by (auto simp: jhas_def jput_def)

lemma jhas_jdrop [json_simps]: "jhas (jdrop k (JObj d)) k' \<longleftrightarrow> k' \<noteq> k \<and> jhas (JObj d) k'"
  using keys_jpop [of k d] by (auto simp: jhas_def jdrop_def)

lemma is_obj_jput [simp]: "is_obj (jput k v j) = is_obj j"
  by (cases j) (auto simp: jput_def)

lemma is_obj_jdrop [simp]: "is_obj (jdrop k j) = is_obj j"
  by (cases j) (auto simp: jdrop_def)

text \<open>The same facts for a value known to be an object.\<close>

lemma is_objE: assumes "is_obj j" obtains d where "j = JObj d"
  using assms by (cases j) auto

lemma jfield_put [json_simps]:
  "is_obj j \<Longrightarrow> jfield (jput k v j) k' = (if k' = k then v else jfield j k')"
  by (erule is_objE) (simp add: jfield_jput)

lemma jfield_drop [json_simps]:
  "is_obj j \<Longrightarrow> jfield (jdrop k j) k' = (if k' = k then JNull else jfield j k')"
  by (erule is_objE) (simp add: jfield_jdrop)

lemma jhas_put [json_simps]: "is_obj j \<Longrightarrow> jhas (jput k v j) k' \<longleftrightarrow> k' = k \<or> jhas j k'"
  by (erule is_objE) (simp add: jhas_jput)

lemma jhas_drop [json_simps]: "is_obj j \<Longrightarrow> jhas (jdrop k j) k' \<longleftrightarrow> k' \<noteq> k \<and> jhas j k'"
  by (erule is_objE) (simp add: jhas_jdrop)

end
