(* ===== verification/Durable.thy ===== *)
theory Durable
  imports PyJson
begin

text \<open>
  Crash-durable files (\<open>service/durable_io.py\<close>) and the shape shared by the file-backed stores:
  one JSON document, one \<open>.degraded\<close> marker beside it, and the faults the operating system may
  inject into an operation.
\<close>

section \<open>Atomic replacement of a JSON file\<close>

text \<open>
  What reading a state file gives: no file, text that is not JSON, bytes that are not UTF-8, an
  \<open>OSError\<close>, or a document.
\<close>

datatype fcontent = NoFile | BadJson | BadUtf8 | IOFail | Doc json

record dir_entry =
  target :: fcontent
  temporary :: fcontent

text \<open>The steps of \<open>atomic_write_json\<close> in program order.\<close>

datatype wstep = MakeDirs | OpenTemp | DumpTemp | FsyncTemp | ReplaceTarget | FsyncDir

definition write_steps :: "wstep list" where
  "write_steps = [MakeDirs, OpenTemp, DumpTemp, FsyncTemp, ReplaceTarget, FsyncDir]"

fun write_step :: "json \<Rightarrow> wstep \<Rightarrow> dir_entry \<Rightarrow> dir_entry" where
  "write_step data OpenTemp d = d\<lparr>temporary := BadJson\<rparr>"
| "write_step data DumpTemp d = d\<lparr>temporary := Doc data\<rparr>"
| "write_step data ReplaceTarget d = d\<lparr>target := temporary d, temporary := NoFile\<rparr>"
| "write_step data _ d = d"

text \<open>Run the steps until the one that raises \<open>OSError\<close>, if any.\<close>

fun run_write :: "wstep option \<Rightarrow> json \<Rightarrow> wstep list \<Rightarrow> dir_entry \<Rightarrow> unit res \<times> dir_entry" where
  "run_write fault data [] d = (Inr (), d)"
| "run_write fault data (s # ss) d =
     (if fault = Some s then (Inl OSError, d)
      else run_write fault data ss (write_step data s d))"

text \<open>The \<open>finally\<close> clause removes the temporary file whether or not a step raised.\<close>

definition atomic_write_json :: "wstep option \<Rightarrow> json \<Rightarrow> dir_entry \<Rightarrow> unit res \<times> dir_entry" where
  "atomic_write_json fault data d =
     (case run_write fault data write_steps d of (r, d') \<Rightarrow> (r, d'\<lparr>temporary := NoFile\<rparr>))"

text \<open>A process that dies after \<open>n\<close> steps runs no \<open>finally\<close> clause.\<close>

definition crash_write :: "nat \<Rightarrow> json \<Rightarrow> dir_entry \<Rightarrow> dir_entry" where
  "crash_write n data d = fold (write_step data) (take n write_steps) d"

lemma crash_write_target:
  "target (crash_write n data d) = (if n \<le> 4 then target d else Doc data)"
proof -
  have "n = 0 \<or> n = 1 \<or> n = 2 \<or> n = 3 \<or> n = 4 \<or> n = 5 \<or> 6 \<le> n" by auto
  then show ?thesis
    by (elim disjE) (simp_all add: crash_write_def write_steps_def take_Cons')
qed

section \<open>Stores kept in one file\<close>

text \<open>The faults of one operation: where writing the document fails, whether the corrupt file
  could be renamed, and whether the \<open>.degraded\<close> marker could be written.\<close>

record io =
  w_fault :: "wstep option"
  replace_ok :: bool
  marker_ok :: bool

definition good_io :: io where
  "good_io = \<lparr>w_fault = None, replace_ok = True, marker_ok = True\<rparr>"

definition save_file :: "io \<Rightarrow> json \<Rightarrow> fcontent \<Rightarrow> unit res \<times> fcontent" where
  "save_file i data c =
     (case atomic_write_json (w_fault i) data \<lparr>target = c, temporary = NoFile\<rparr> of
        (r, d) \<Rightarrow> (r, target d))"

lemma save_file_eq:
  "save_file i data c =
     (case w_fault i of
        None \<Rightarrow> (Inr (), Doc data)
      | Some FsyncDir \<Rightarrow> (Inl OSError, Doc data)
      | Some _ \<Rightarrow> (Inl OSError, c))"
  by (auto simp: save_file_def atomic_write_json_def write_steps_def split: option.splits wstep.splits)

lemma save_file_cases:
  assumes "save_file i data c = (r, c')"
  obtains (ok) "r = Inr ()" "c' = Doc data"
  | (failed) "r = Inl OSError" "c' = c"
  | (unsynced) "r = Inl OSError" "c' = Doc data"
  using assms by (auto simp: save_file_eq split: option.splits wstep.splits)

lemma save_file_ok: "save_file i data c = (Inr u, c') \<Longrightarrow> c' = Doc data"
  by (auto elim: save_file_cases)

lemma save_file_good [simp]: "save_file good_io data c = (Inr (), Doc data)"
  by (simp add: save_file_eq good_io_def)

record durable =
  content :: fcontent
  degraded :: bool

text \<open>
  \<open>_quarantine_corrupt\<close> of the epoch store and the purge queue: rename the file away, then write
  the marker; an \<open>OSError\<close> of either is swallowed.
\<close>

definition quarantine_corrupt :: "io \<Rightarrow> durable \<Rightarrow> durable" where
  "quarantine_corrupt i s =
     s\<lparr>content := (if replace_ok i then NoFile else content s),
       degraded := (degraded s \<or> marker_ok i)\<rparr>"

text \<open>The knowledge-base control files: the global epoch and lifecycle stores, and one
  \<open>state.json\<close> per knowledge base.\<close>

record world =
  epochs :: durable
  lifecycle :: durable
  states :: "string \<Rightarrow> fcontent"

text \<open>C35. \<open>atomic_write_json\<close> is atomic: a process that dies after any number of its steps leaves
  the target file either as it was or with the complete new document, and a call that returns
  normally leaves the new document and no temporary file.\<close>

theorem atomic_write_json_atomic:
  "(target (crash_write n data d) = target d \<or> target (crash_write n data d) = Doc data) \<and>
   (atomic_write_json None data d = (Inr (), \<lparr>target = Doc data, temporary = NoFile\<rparr>)) \<and>
   (\<exists>r t. atomic_write_json fault data d = (r, \<lparr>target = t, temporary = NoFile\<rparr>) \<and>
      (t = target d \<or> t = Doc data) \<and> (r = Inr () \<longleftrightarrow> fault = None))"
proof (intro conjI)
  show "target (crash_write n data d) = target d \<or> target (crash_write n data d) = Doc data"
    by (simp add: crash_write_target)
  show "atomic_write_json None data d = (Inr (), \<lparr>target = Doc data, temporary = NoFile\<rparr>)"
    by (simp add: atomic_write_json_def write_steps_def)
  show "\<exists>r t. atomic_write_json fault data d = (r, \<lparr>target = t, temporary = NoFile\<rparr>) \<and>
      (t = target d \<or> t = Doc data) \<and> (r = Inr () \<longleftrightarrow> fault = None)"
  proof (cases fault)
    case None
    then show ?thesis by (cases d) (simp add: atomic_write_json_def write_steps_def)
  next
    case (Some f)
    then show ?thesis
      by (cases f; cases d) (simp_all add: atomic_write_json_def write_steps_def)
  qed
qed

end
