(* ===== verification/Epoch.thy ===== *)
theory Epoch
  imports Durable
begin

text \<open>
  The epoch store (\<open>service/kb_epoch.py\<close>): one counter per knowledge base, kept outside the
  knowledge base's own directory so that deleting it does not reset the counter.
  \<open>epoch_authority\<close> is the interface \<open>bind_shared_epoch_store\<close> asks of a store: \<open>current\<close> and
  \<open>bump\<close>, with what the generation state machine relies on.
\<close>

section \<open>The file-backed store\<close>

definition valid_epochs :: "jdict \<Rightarrow> bool" where
  "valid_epochs d = list_all (\<lambda>(k, v). is_nat_int v) d"

text \<open>\<open>EpochStore._load\<close>: a missing file is the empty table, a damaged one is quarantined.\<close>

definition epoch_load :: "io \<Rightarrow> durable \<Rightarrow> jdict res \<times> durable" where
  "epoch_load i s =
     (if degraded s then (Inl (EpochCorruptError ''degraded''), s)
      else case content s of
        NoFile \<Rightarrow> (Inr [], s)
      | BadJson \<Rightarrow> (Inl (EpochCorruptError ''corrupt''), quarantine_corrupt i s)
      | BadUtf8 \<Rightarrow> (Inl UnicodeError, s)
      | IOFail \<Rightarrow> (Inl OSError, s)
      | Doc (JObj d) \<Rightarrow>
          (if valid_epochs d then (Inr d, s)
           else (Inl (EpochCorruptError ''entries''), quarantine_corrupt i s))
      | Doc _ \<Rightarrow> (Inl (EpochCorruptError ''not a dict''), quarantine_corrupt i s))"

definition epoch_of :: "jdict \<Rightarrow> string \<Rightarrow> int" where
  "epoch_of d kb = (case map_of d kb of Some (JInt n) \<Rightarrow> n | _ \<Rightarrow> 0)"

text \<open>\<open>EpochStore.current\<close>\<close>

definition epoch_current :: "string \<Rightarrow> io \<Rightarrow> durable \<Rightarrow> int res \<times> durable" where
  "epoch_current kb i s =
     (case epoch_load i s of (Inl e, s') \<Rightarrow> (Inl e, s') | (Inr d, s') \<Rightarrow> (Inr (epoch_of d kb), s'))"

text \<open>\<open>EpochStore.bump\<close>\<close>

definition epoch_bump :: "string \<Rightarrow> io \<Rightarrow> durable \<Rightarrow> int res \<times> durable" where
  "epoch_bump kb i s =
     (case epoch_load i s of
        (Inl e, s') \<Rightarrow> (Inl e, s')
      | (Inr d, s') \<Rightarrow>
          (let nxt = epoch_of d kb + 1 in
           case save_file i (JObj (jset kb (JInt nxt) d)) (content s') of
             (Inl e, c) \<Rightarrow> (Inl e, s'\<lparr>content := c\<rparr>)
           | (Inr _, c) \<Rightarrow> (Inr nxt, s'\<lparr>content := c\<rparr>)))"

section \<open>Lemmas\<close>

lemma valid_epochs_jset: "valid_epochs d \<Longrightarrow> 0 \<le> n \<Longrightarrow> valid_epochs (jset k (JInt n) d)"
  by (induction k "JInt n" d rule: jset.induct) (auto simp: valid_epochs_def)

lemma valid_epochs_nonneg: "valid_epochs d \<Longrightarrow> 0 \<le> epoch_of d kb"
proof (induction d)
  case (Cons p d)
  then show ?case
    by (cases p, cases "snd p") (auto simp: epoch_of_def valid_epochs_def)
qed (simp add: epoch_of_def)

lemma epoch_of_jset [simp]: "epoch_of (jset kb (JInt n) d) kb' = (if kb' = kb then n else epoch_of d kb')"
  by (simp add: epoch_of_def map_of_jset)

lemma epoch_load_Inr:
  assumes "epoch_load i s = (Inr d, s')"
  shows "s' = s \<and> valid_epochs d \<and> \<not> degraded s \<and> (content s = NoFile \<and> d = [] \<or> content s = Doc (JObj d))"
  using assms
  by (auto simp: epoch_load_def valid_epochs_def split: if_splits fcontent.splits json.splits)

lemma epoch_load_io: "epoch_load i s = (Inr d, s') \<Longrightarrow> epoch_load j s = (Inr d, s)"
  by (auto simp: epoch_load_def split: if_splits fcontent.splits json.splits)

lemma epoch_load_stored:
  "valid_epochs d \<Longrightarrow> content s = Doc (JObj d) \<Longrightarrow> \<not> degraded s \<Longrightarrow> epoch_load i s = (Inr d, s)"
  by (simp add: epoch_load_def)

lemma epoch_current_Inr:
  assumes "epoch_current kb i s = (Inr n, s')"
  obtains d where "epoch_load i s = (Inr d, s)" "s' = s" "n = epoch_of d kb"
  using assms
  by (auto simp: epoch_current_def split: prod.splits sum.splits dest: epoch_load_Inr)

text \<open>What a bump does to the table the file holds: nothing, or exactly one increment.\<close>

lemma epoch_bump_effect:
  assumes l: "epoch_load i s = (Inr d, s)" and b: "epoch_bump kb i s = (r, s')"
  shows "(\<exists>d'. epoch_load j s' = (Inr d', s') \<and>
           (d' = d \<or> d' = jset kb (JInt (epoch_of d kb + 1)) d) \<and>
           (\<forall>n. r = Inr n \<longrightarrow> n = epoch_of d kb + 1 \<and> d' = jset kb (JInt n) d))"
proof -
  let ?nd = "jset kb (JInt (epoch_of d kb + 1)) d"
  from l have v: "valid_epochs d" and nd: "\<not> degraded s" by (auto dest: epoch_load_Inr)
  have vn: "valid_epochs ?nd"
    using v valid_epochs_nonneg [OF v, of kb] by (intro valid_epochs_jset) auto
  obtain r0 c where sv: "save_file i (JObj ?nd) (content s) = (r0, c)" by fastforce
  from sv show ?thesis
  proof (cases rule: save_file_cases)
    case ok
    with b l sv nd vn show ?thesis
      by (auto simp: epoch_bump_def Let_def intro!: exI [of _ ?nd] epoch_load_stored)
  next
    case failed
    with b l sv have "r = Inl OSError" "s' = s" by (auto simp: epoch_bump_def Let_def)
    with epoch_load_io [OF l, of j] show ?thesis by auto
  next
    case unsynced
    with b l sv nd vn show ?thesis
      by (auto simp: epoch_bump_def Let_def intro!: exI [of _ ?nd] epoch_load_stored)
  qed
qed

section \<open>The interface of an epoch authority\<close>

locale epoch_authority =
  fixes current :: "string \<Rightarrow> 'i \<Rightarrow> 's \<Rightarrow> int res \<times> 's"
    and bump :: "string \<Rightarrow> 'i \<Rightarrow> 's \<Rightarrow> int res \<times> 's"
  assumes current_pure: "current kb i s = (Inr n, s') \<Longrightarrow> s' = s"
    and current_stable: "current kb i s = (Inr n, s') \<Longrightarrow> current kb j s = (Inr n, s)"
    and bump_step: "current kb i s = (Inr n, s) \<Longrightarrow> bump kb i s = (r, s') \<Longrightarrow>
      \<exists>m. current kb j s' = (Inr m, s') \<and> (m = n \<or> m = n + 1) \<and> (\<forall>k. r = Inr k \<longrightarrow> k = n + 1 \<and> m = k)"
    and bump_other: "current kb' i s = (Inr n, s) \<Longrightarrow> bump kb i s = (r, s') \<Longrightarrow> kb' \<noteq> kb \<Longrightarrow>
      current kb' j s' = (Inr n, s')"
begin

lemma bump_monotone:
  "current kb' i s = (Inr n, s) \<Longrightarrow> bump kb i s = (r, s') \<Longrightarrow> \<exists>m. current kb' j s' = (Inr m, s') \<and> n \<le> m"
proof (cases "kb' = kb")
  case True
  assume "current kb' i s = (Inr n, s)" "bump kb i s = (r, s')"
  with True bump_step [of kb i s n r s' j] show ?thesis by auto
next
  case False
  assume "current kb' i s = (Inr n, s)" "bump kb i s = (r, s')"
  with False bump_other [of kb' i s n kb r s' j] show ?thesis by auto
qed

lemma bump_strict:
  assumes "current kb i s = (Inr n, s)" and "bump kb i s = (Inr k, s')"
  shows "k = n + 1 \<and> current kb j s' = (Inr (n + 1), s')"
  using bump_step [OF assms, of j] by auto

text \<open>A run of bumps of any knowledge bases, with any faults: no counter ever decreases.\<close>

fun bumps :: "(string \<times> 'i) list \<Rightarrow> 's \<Rightarrow> 's" where
  "bumps [] s = s"
| "bumps ((kb, i) # ops) s = bumps ops (snd (bump kb i s))"

lemma bumps_monotone:
  "current kb i s = (Inr n, s) \<Longrightarrow> \<exists>m. current kb j (bumps ops s) = (Inr m, bumps ops s) \<and> n \<le> m"
proof (induction ops arbitrary: s n)
  case Nil
  then show ?case using current_stable [OF Nil] by auto
next
  case (Cons op ops)
  obtain kb' i' where op: "op = (kb', i')" by (cases op)
  obtain r s1 where b: "bump kb' i' s = (r, s1)" by fastforce
  from current_stable [OF Cons.prems] have "current kb i' s = (Inr n, s)" .
  from bump_monotone [OF this b] obtain m where "current kb i s1 = (Inr m, s1)" "n \<le> m" by blast
  with Cons.IH [of s1 m] op b show ?case by force
qed

end

lemma epoch_current_nonneg: "epoch_current kb i s = (Inr n, s') \<Longrightarrow> 0 \<le> n"
  by (erule epoch_current_Inr) (auto dest!: epoch_load_Inr intro: valid_epochs_nonneg)

interpretation file_epochs: epoch_authority epoch_current epoch_bump
proof unfold_locales
  show "epoch_current kb i s = (Inr n, s') \<Longrightarrow> s' = s" for kb i s n s'
    by (erule epoch_current_Inr)
  show "epoch_current kb i s = (Inr n, s') \<Longrightarrow> epoch_current kb j s = (Inr n, s)" for kb i s n s' j
    by (erule epoch_current_Inr) (simp add: epoch_current_def epoch_load_io)
  show "\<exists>m. epoch_current kb j s' = (Inr m, s') \<and> (m = n \<or> m = n + 1) \<and> (\<forall>k. r = Inr k \<longrightarrow> k = n + 1 \<and> m = k)"
    if c: "epoch_current kb i s = (Inr n, s)" and b: "epoch_bump kb i s = (r, s')" for kb i s n r s' j
  proof -
    from c obtain d where l: "epoch_load i s = (Inr d, s)" and n: "n = epoch_of d kb"
      by (auto elim: epoch_current_Inr)
    from epoch_bump_effect [OF l b, of j] obtain d' where "epoch_load j s' = (Inr d', s')"
      "d' = d \<or> d' = jset kb (JInt (n + 1)) d" "\<forall>k. r = Inr k \<longrightarrow> k = n + 1 \<and> d' = jset kb (JInt k) d"
      unfolding n by blast
    then show ?thesis by (intro exI [of _ "epoch_of d' kb"]) (auto simp: epoch_current_def n)
  qed
  show "epoch_current kb' j s' = (Inr n, s')"
    if c: "epoch_current kb' i s = (Inr n, s)" and b: "epoch_bump kb i s = (r, s')" and "kb' \<noteq> kb"
    for kb' i s n kb r s' j
  proof -
    from c obtain d where l: "epoch_load i s = (Inr d, s)" and n: "n = epoch_of d kb'"
      by (auto elim: epoch_current_Inr)
    from epoch_bump_effect [OF l b, of j] \<open>kb' \<noteq> kb\<close> show ?thesis
      by (auto simp: epoch_current_def n)
  qed
qed

section \<open>Properties\<close>

text \<open>Epochs never go backwards: from a store whose counter of a knowledge base can be read,
  any sequence of bumps of any knowledge bases, whatever write faults happen, leaves the counter
  readable and at least as large; a bump that returns has moved it by exactly one.\<close>

theorem epoch_bumps_monotone:
  assumes "epoch_current kb i s = (Inr n, s)"
  shows "(\<exists>m. epoch_current kb j (file_epochs.bumps ops s) = (Inr m, file_epochs.bumps ops s) \<and> n \<le> m)
    \<and> (\<forall>k s'. epoch_bump kb i s = (Inr k, s') \<longrightarrow> k = n + 1 \<and> epoch_current kb j s' = (Inr (n + 1), s'))"
  using file_epochs.bumps_monotone [OF assms] file_epochs.bump_strict [OF assms] by blast

theorem epoch_bumps_monotone_witness:
  "\<exists>m. epoch_current ''kb'' good_io
      (file_epochs.bumps [(''kb'', good_io), (''other'', good_io)] \<lparr>content = NoFile, degraded = False\<rparr>)
     = (Inr m, file_epochs.bumps [(''kb'', good_io), (''other'', good_io)] \<lparr>content = NoFile, degraded = False\<rparr>)
     \<and> 0 \<le> m"
proof -
  have "epoch_current ''kb'' good_io \<lparr>content = NoFile, degraded = False\<rparr>
      = (Inr 0, \<lparr>content = NoFile, degraded = False\<rparr>)"
    by (simp add: epoch_current_def epoch_load_def epoch_of_def)
  from epoch_bumps_monotone [OF this, of good_io "[(''kb'', good_io), (''other'', good_io)]"]
  show ?thesis by blast
qed

text \<open>What happens to a damaged epoch file (text that is not JSON, or JSON of the wrong shape):
  the read that finds it raises; afterwards every read raises \<open>EpochCorruptError\<close> exactly when the
  degraded marker could be written, and when it could not but the file was renamed away, the next
  read returns epoch 0 for every knowledge base, so the counter has been reset.\<close>

theorem epoch_damage_outcome:
  assumes "\<not> degraded s" and "content s = BadJson \<or> (\<exists>j. content s = Doc j \<and> \<not> is_obj j)"
    and "epoch_current kb i s = (r, s')"
  shows "\<not> is_ok r
    \<and> (marker_ok i \<longrightarrow> epoch_current kb' i' s' = (Inl (EpochCorruptError ''degraded''), s'))
    \<and> (\<not> marker_ok i \<and> replace_ok i \<longrightarrow> epoch_current kb' i' s' = (Inr 0, s'))"
proof -
  from assms have s': "s' = quarantine_corrupt i s" and r: "\<not> is_ok r"
    by (auto simp: epoch_current_def epoch_load_def split: json.splits)
  from r assms(1) show ?thesis
    by (simp add: s' quarantine_corrupt_def epoch_current_def epoch_load_def epoch_of_def)
qed

theorem epoch_damage_outcome_witness:
  "let i = good_io\<lparr>marker_ok := False\<rparr>; s = \<lparr>content = BadJson, degraded = False\<rparr>;
       s' = snd (epoch_current ''kb'' i s)
   in epoch_current ''kb'' good_io s' = (Inr 0, s')"
proof -
  let ?i = "good_io\<lparr>marker_ok := False\<rparr>" and ?s = "\<lparr>content = BadJson, degraded = False\<rparr>"
  have "\<not> degraded ?s" and "content ?s = BadJson \<or> (\<exists>j. content ?s = Doc j \<and> \<not> is_obj j)" by simp_all
  from epoch_damage_outcome [OF this prod.collapse [symmetric], of "''kb''" ?i "''kb''" good_io]
  show ?thesis by (simp add: good_io_def)
qed

end
