(* ===== verification/KB_State.thy ===== *)
theory KB_State
  imports Epoch
begin

text \<open>
  The generation state machine (\<open>service/kb_state.py\<close>): one \<open>state.json\<close> per knowledge base holds
  its index generations and the pointer to the active one.  A generation is the JSON object the
  code stores; every operation loads the file, changes the loaded data and writes it back, so an
  operation is a pure function on the data (\<open>..._data\<close>) wrapped by \<open>kb_commit\<close>.
\<close>

section \<open>Data\<close>

definition GENERATION_BUILDING :: string where "GENERATION_BUILDING = ''building''"
definition GENERATION_READY :: string where "GENERATION_READY = ''ready''"
definition GENERATION_FAILED :: string where "GENERATION_FAILED = ''failed''"
definition GENERATION_SUPERSEDED :: string where "GENERATION_SUPERSEDED = ''superseded''"

lemmas generation_marks = GENERATION_BUILDING_def GENERATION_READY_def GENERATION_FAILED_def
  GENERATION_SUPERSEDED_def

definition DEFAULT_INFLIGHT_LEASE_SECONDS :: real where
  "DEFAULT_INFLIGHT_LEASE_SECONDS = 3600"

definition valid_status :: "json \<Rightarrow> bool" where
  "valid_status s = (s \<in> JStr ` {GENERATION_BUILDING, GENERATION_READY, GENERATION_FAILED, GENERATION_SUPERSEDED})"

text \<open>What \<open>_load\<close> returns: the active pointer and the generations in dictionary order.\<close>

record kbdata =
  active_generation :: "string option"
  generations :: jdict

abbreviation gstatus :: "json \<Rightarrow> json" where
  "gstatus gen \<equiv> jfield gen ''status''"

fun is_obj_list :: "json \<Rightarrow> bool" where
  "is_obj_list (JArr xs) = list_all is_obj xs"
| "is_obj_list _ = False"

text \<open>The last test of \<open>_valid_generation\<close>, on \<open>expected_count\<close>.\<close>

definition valid_expected :: "json \<Rightarrow> json \<Rightarrow> bool" where
  "valid_expected status n =
     (if status = JStr GENERATION_BUILDING then n = JNull
      else (n = JNull \<and> status = JStr GENERATION_FAILED) \<or> is_nat_int n)"

text \<open>\<open>_valid_generation\<close>\<close>

definition valid_generation :: "string \<Rightarrow> json \<Rightarrow> bool res" where
  "valid_generation gid gen =
     (if \<not> is_obj gen then Inr False
      else if jhas gen ''chunk_identity_version'' \<and> \<not> is_nonempty_str (jfield gen ''chunk_identity_version'')
      then Inr False
      else if jfield gen ''id'' \<noteq> JStr gid then Inr False
      else if \<not> hashable (gstatus gen) then Inl (TypeError ''unhashable type'')
      else Inr (valid_status (gstatus gen)
        \<and> is_nonempty_str (jfield gen ''embedding_model'')
        \<and> is_nonempty_str (jfield gen ''index_build_version'')
        \<and> is_nat_int (jfield gen ''base_epoch'')
        \<and> is_nonneg_num (jfield gen ''created_at'')
        \<and> is_obj_list (jfield gen ''documents'')
        \<and> valid_expected (gstatus gen) (jfield gen ''expected_count'')))"

section \<open>Loading and saving\<close>

text \<open>The loop of \<open>_load\<close> over the stored generations.\<close>

fun load_gens :: "bool \<Rightarrow> jdict \<Rightarrow> jdict res" where
  "load_gens strict [] = Inr []"
| "load_gens strict ((gid, gen) # gs) =
     bindR (valid_generation gid gen) (\<lambda>ok.
       if ok then bindR (load_gens strict gs) (\<lambda>r. Inr ((gid, gen) # r))
       else if strict then Inl (KBStateCorruptError ''KB generation entry is invalid'')
       else load_gens strict gs)"

text \<open>The object \<open>_load\<close> reads, with the errors of the strict and the lenient mode.\<close>

definition load_raw :: "bool \<Rightarrow> fcontent \<Rightarrow> jdict res" where
  "load_raw strict c =
     (case c of
        NoFile \<Rightarrow> Inr []
      | Doc (JObj raw) \<Rightarrow> Inr raw
      | Doc _ \<Rightarrow> if strict then Inl (KBStateCorruptError ''KB generation state is not an object'') else Inr []
      | BadJson \<Rightarrow> if strict then Inl (KBStateCorruptError ''KB generation state is unreadable'') else Inr []
      | BadUtf8 \<Rightarrow> if strict then Inl (KBStateCorruptError ''KB generation state is unreadable'') else Inr []
      | IOFail \<Rightarrow> if strict then Inl (KBStateCorruptError ''KB generation state is unreadable'') else Inl OSError)"

text \<open>The check of the active pointer: it must name a ready generation.\<close>

definition load_active :: "bool \<Rightarrow> json \<Rightarrow> jdict \<Rightarrow> string option res" where
  "load_active strict active gens =
     (if \<not> hashable active then Inl (TypeError ''unhashable type'')
      else case active of
        JStr a \<Rightarrow>
          (case map_of gens a of
             Some gen \<Rightarrow>
               (if gstatus gen = JStr GENERATION_READY then Inr (Some a)
                else if strict then Inl (KBStateCorruptError ''KB active generation pointer is invalid'')
                else Inr None)
           | None \<Rightarrow> if strict then Inl (KBStateCorruptError ''KB active generation pointer is invalid'')
                     else Inr None)
      | JNull \<Rightarrow> Inr None
      | _ \<Rightarrow> if strict then Inl (KBStateCorruptError ''KB active generation pointer is invalid'')
             else Inr None)"

definition load_generations :: "bool \<Rightarrow> jdict \<Rightarrow> jdict res" where
  "load_generations strict raw =
     (case jfield (JObj raw) ''generations'' of
        JObj gs \<Rightarrow> load_gens strict gs
      | JNull \<Rightarrow> Inr []
      | _ \<Rightarrow> if strict then Inl (KBStateCorruptError ''KB generations state is invalid'') else Inr [])"

text \<open>\<open>KBState._load\<close>\<close>

definition kb_load :: "bool \<Rightarrow> fcontent \<Rightarrow> kbdata res" where
  "kb_load strict c =
     bindR (load_raw strict c) (\<lambda>raw.
     bindR (load_generations strict raw) (\<lambda>gens.
     bindR (load_active strict (jfield (JObj raw) ''active_generation'') gens) (\<lambda>a.
       Inr \<lparr>active_generation = a, generations = gens\<rparr>)))"

text \<open>The document \<open>_save\<close> writes.\<close>

definition kb_doc :: "string \<Rightarrow> kbdata \<Rightarrow> json" where
  "kb_doc kb d =
     JObj [(''kb_id'', JStr kb),
           (''active_generation'', case active_generation d of None \<Rightarrow> JNull | Some a \<Rightarrow> JStr a),
           (''generations'', JObj (generations d))]"

definition kb_save :: "string \<Rightarrow> io \<Rightarrow> kbdata \<Rightarrow> world \<Rightarrow> unit res \<times> world" where
  "kb_save kb i d w =
     (case save_file i (kb_doc kb d) (states w kb) of
        (r, c) \<Rightarrow> (r, w\<lparr>states := (states w)(kb := c)\<rparr>))"

text \<open>Load, apply a change that may raise, save, return the change's result.\<close>

definition kb_commit :: "string \<Rightarrow> (kbdata \<Rightarrow> ('r \<times> kbdata) res) \<Rightarrow> io \<Rightarrow> world \<Rightarrow> 'r res \<times> world" where
  "kb_commit kb f i w =
     (case bindR (kb_load False (states w kb)) f of
        Inl e \<Rightarrow> (Inl e, w)
      | Inr (r, d) \<Rightarrow> (case kb_save kb i d w of (Inl e, w') \<Rightarrow> (Inl e, w') | (Inr _, w') \<Rightarrow> (Inr r, w')))"

definition find_gen :: "string \<Rightarrow> kbdata \<Rightarrow> json res" where
  "find_gen gid d = (case map_of (generations d) gid of None \<Rightarrow> Inl (KeyError gid) | Some gen \<Rightarrow> Inr gen)"

definition put_gen :: "string \<Rightarrow> json \<Rightarrow> kbdata \<Rightarrow> kbdata" where
  "put_gen gid gen d = d\<lparr>generations := jset gid gen (generations d)\<rparr>"

section \<open>Operations\<close>

text \<open>\<open>begin_generation\<close>; the fresh identifier and the clock reading are arguments.\<close>

definition new_generation :: "string \<Rightarrow> string \<Rightarrow> string \<Rightarrow> string option \<Rightarrow> int \<Rightarrow> real \<Rightarrow> json" where
  "new_generation gid em ibv civ ep now =
     JObj ([(''id'', JStr gid), (''status'', JStr GENERATION_BUILDING), (''embedding_model'', JStr em),
            (''index_build_version'', JStr ibv), (''base_epoch'', JInt ep), (''expected_count'', JNull),
            (''documents'', JArr []), (''created_at'', JFloat (Fin now))]
           @ (case civ of None \<Rightarrow> [] | Some v \<Rightarrow> [(''chunk_identity_version'', JStr v)]))"

definition begin_generation ::
  "string \<Rightarrow> string \<Rightarrow> string \<Rightarrow> string option \<Rightarrow> string \<Rightarrow> real \<Rightarrow> io \<Rightarrow> world \<Rightarrow> string res \<times> world" where
  "begin_generation kb em ibv civ gid now i w =
     (if em = [] then (Inl (ValueError ''embedding_model must be a non-empty string''), w)
      else if ibv = [] then (Inl (ValueError ''index_build_version must be a non-empty string''), w)
      else if civ = Some [] then (Inl (ValueError ''chunk_identity_version must be a non-empty string''), w)
      else case kb_load False (states w kb) of
        Inl e \<Rightarrow> (Inl e, w)
      | Inr _ \<Rightarrow>
          (case epoch_current kb i (epochs w) of
             (Inl e, es) \<Rightarrow> (Inl e, w\<lparr>epochs := es\<rparr>)
           | (Inr ep, es) \<Rightarrow>
               kb_commit kb (\<lambda>d. Inr (gid, put_gen gid (new_generation gid em ibv civ ep now) d)) i
                 (w\<lparr>epochs := es\<rparr>)))"

text \<open>\<open>mark_ready\<close>: only building to ready.\<close>

definition mark_ready_data :: "string \<Rightarrow> json \<Rightarrow> json \<Rightarrow> kbdata \<Rightarrow> (unit \<times> kbdata) res" where
  "mark_ready_data gid n docs d =
     bindR (find_gen gid d) (\<lambda>gen.
     bindR (guardR (gstatus gen = JStr GENERATION_BUILDING) (ValueError ''only building->ready allowed'')) (\<lambda>_.
     bindR (guardR (is_nat_int n) (ValueError ''expected_count must be non-negative'')) (\<lambda>_.
     bindR (guardR (is_obj_list docs) (ValueError ''documents must be a list of objects'')) (\<lambda>_.
       Inr ((), put_gen gid (jput ''documents'' docs (jput ''expected_count'' n
                  (jput ''status'' (JStr GENERATION_READY) gen))) d)))))"

definition mark_ready :: "string \<Rightarrow> string \<Rightarrow> json \<Rightarrow> json \<Rightarrow> io \<Rightarrow> world \<Rightarrow> unit res \<times> world" where
  "mark_ready kb gid n docs = kb_commit kb (mark_ready_data gid n docs)"

text \<open>\<open>mark_failed\<close>: building or ready to failed, never the active generation.\<close>

definition mark_failed_data :: "string \<Rightarrow> kbdata \<Rightarrow> (unit \<times> kbdata) res" where
  "mark_failed_data gid d =
     bindR (find_gen gid d) (\<lambda>gen.
     bindR (guardR (active_generation d \<noteq> Some gid) (ValueError ''cannot fail the active generation'')) (\<lambda>_.
     bindR (guardR (gstatus gen \<in> {JStr GENERATION_BUILDING, JStr GENERATION_READY})
             (ValueError ''only building|ready->failed allowed'')) (\<lambda>_.
       Inr ((), put_gen gid (jput ''status'' (JStr GENERATION_FAILED) gen) d))))"

definition mark_failed :: "string \<Rightarrow> string \<Rightarrow> io \<Rightarrow> world \<Rightarrow> unit res \<times> world" where
  "mark_failed kb gid = kb_commit kb (mark_failed_data gid)"

text \<open>Superseding a generation, with or without retention for a later rollback.\<close>

definition supersede :: "bool \<Rightarrow> json \<Rightarrow> json" where
  "supersede protect gen =
     (let g = jput ''status'' (JStr GENERATION_SUPERSEDED) gen
      in if protect then jput ''gc_protected'' (JBool True) g else jdrop ''gc_protected'' g)"

definition switch_guard :: "string \<Rightarrow> kbdata \<Rightarrow> json res" where
  "switch_guard gid d =
     bindR (find_gen gid d) (\<lambda>gen.
     bindR (guardR (gstatus gen = JStr GENERATION_READY)
             (ValueError ''only a ready generation can be activated'')) (\<lambda>_. Inr gen))"

text \<open>\<open>switch_active\<close> after the epoch has been read as \<open>ep\<close>.\<close>

definition switch_active_data :: "string \<Rightarrow> bool \<Rightarrow> int \<Rightarrow> kbdata \<Rightarrow> (string option \<times> kbdata) res" where
  "switch_active_data gid retain ep d =
     bindR (switch_guard gid d) (\<lambda>gen.
     bindR (guardR (jfield gen ''base_epoch'' = JInt ep) StaleGenerationError) (\<lambda>_.
       let previous = active_generation d;
           d1 = (case previous of
                   None \<Rightarrow> d
                 | Some p \<Rightarrow> if p = gid then d
                     else (case map_of (generations d) p of
                             None \<Rightarrow> d
                           | Some old \<Rightarrow> put_gen p (supersede retain old) d))
       in Inr (if previous = Some gid then None else previous, d1\<lparr>active_generation := Some gid\<rparr>)))"

definition switch_active :: "string \<Rightarrow> string \<Rightarrow> bool \<Rightarrow> io \<Rightarrow> world \<Rightarrow> string option res \<times> world" where
  "switch_active kb gid retain i w =
     (case bindR (kb_load False (states w kb)) (switch_guard gid) of
        Inl e \<Rightarrow> (Inl e, w)
      | Inr _ \<Rightarrow>
          (case epoch_current kb i (epochs w) of
             (Inl e, es) \<Rightarrow> (Inl e, w\<lparr>epochs := es\<rparr>)
           | (Inr ep, es) \<Rightarrow> kb_commit kb (switch_active_data gid retain ep) i (w\<lparr>epochs := es\<rparr>)))"

text \<open>\<open>rollback_active\<close>: reactivate a superseded generation.\<close>

definition rollback_active_data :: "string \<Rightarrow> string option \<Rightarrow> bool \<Rightarrow> kbdata \<Rightarrow> (string \<times> kbdata) res" where
  "rollback_active_data gid expected protect d =
     bindR (find_gen gid d) (\<lambda>tgt.
     bindR (guardR (gstatus tgt = JStr GENERATION_SUPERSEDED)
             (ValueError ''only a superseded generation can be rolled back'')) (\<lambda>_.
     case active_generation d of
       None \<Rightarrow> Inl (ValueError ''cannot roll back without an active generation'')
     | Some cur \<Rightarrow>
         bindR (guardR (expected = None \<or> expected = Some cur) StaleGenerationError) (\<lambda>_.
         case map_of (generations d) cur of
           None \<Rightarrow> Inl (ValueError ''active generation state is invalid'')
         | Some c \<Rightarrow>
             bindR (guardR (gstatus c = JStr GENERATION_READY)
                     (ValueError ''active generation state is invalid'')) (\<lambda>_.
             Inr (cur, (put_gen gid (jdrop ''gc_protected'' (jput ''status'' (JStr GENERATION_READY) tgt))
                         (put_gen cur (supersede protect c) d))\<lparr>active_generation := Some gid\<rparr>)))))"

definition rollback_active ::
  "string \<Rightarrow> string \<Rightarrow> string option \<Rightarrow> bool \<Rightarrow> io \<Rightarrow> world \<Rightarrow> string res \<times> world" where
  "rollback_active kb gid expected protect = kb_commit kb (rollback_active_data gid expected protect)"

text \<open>\<open>release_generation_retention\<close>\<close>

definition release_data :: "string \<Rightarrow> kbdata \<Rightarrow> (unit \<times> kbdata) res" where
  "release_data gid d =
     bindR (find_gen gid d) (\<lambda>gen.
     bindR (guardR (gstatus gen = JStr GENERATION_SUPERSEDED)
             (ValueError ''only a superseded generation can release retention'')) (\<lambda>_.
       Inr ((), put_gen gid (jdrop ''gc_protected'' gen) d)))"

definition release_generation_retention :: "string \<Rightarrow> string \<Rightarrow> io \<Rightarrow> world \<Rightarrow> unit res \<times> world" where
  "release_generation_retention kb gid = kb_commit kb (release_data gid)"

text \<open>\<open>remove_generation\<close>\<close>

definition remove_data :: "string \<Rightarrow> kbdata \<Rightarrow> (unit \<times> kbdata) res" where
  "remove_data gid d =
     (if active_generation d = Some gid then Inl (ValueError ''cannot remove the active generation'')
      else Inr ((), d\<lparr>generations := jpop gid (generations d)\<rparr>))"

definition remove_generation :: "string \<Rightarrow> string \<Rightarrow> io \<Rightarrow> world \<Rightarrow> unit res \<times> world" where
  "remove_generation kb gid = kb_commit kb (remove_data gid)"

text \<open>Queries: \<open>generation_is_committed\<close> (strict), \<open>active\<close>, \<open>get\<close>, \<open>generation_ids\<close>.\<close>

definition generation_is_committed :: "string \<Rightarrow> string \<Rightarrow> world \<Rightarrow> bool res" where
  "generation_is_committed kb gid w =
     bindR (kb_load True (states w kb)) (\<lambda>d. Inr
       (active_generation d = Some gid \<or>
        (case map_of (generations d) gid of
           None \<Rightarrow> False | Some gen \<Rightarrow> gstatus gen = JStr GENERATION_SUPERSEDED)))"

definition kb_active :: "string \<Rightarrow> world \<Rightarrow> json option res" where
  "kb_active kb w =
     bindR (kb_load False (states w kb)) (\<lambda>d. Inr
       (case active_generation d of None \<Rightarrow> None | Some a \<Rightarrow> map_of (generations d) a))"

definition kb_get :: "string \<Rightarrow> string \<Rightarrow> world \<Rightarrow> json option res" where
  "kb_get kb gid w = bindR (kb_load False (states w kb)) (\<lambda>d. Inr (map_of (generations d) gid))"

definition generation_ids :: "string \<Rightarrow> world \<Rightarrow> string list res" where
  "generation_ids kb w = bindR (kb_load False (states w kb)) (\<lambda>d. Inr (map fst (generations d)))"

text \<open>\<open>stale_generation_ids\<close>: what the garbage collector may reclaim at time \<open>now\<close>.\<close>

definition reclaimable :: "real \<Rightarrow> real \<Rightarrow> json \<Rightarrow> bool" where
  "reclaimable now lease gen =
     (if gstatus gen = JStr GENERATION_FAILED then True
      else if gstatus gen = JStr GENERATION_SUPERSEDED \<and> \<not> truthy (jfield gen ''gc_protected'') then True
      else if gstatus gen \<in> {JStr GENERATION_BUILDING, JStr GENERATION_READY}
      then now - num_val (jfield gen ''created_at'') > lease
      else False)"

definition stale_ids :: "real \<Rightarrow> real \<Rightarrow> kbdata \<Rightarrow> string list" where
  "stale_ids now lease d =
     map fst (filter (\<lambda>(gid, gen). active_generation d \<noteq> Some gid \<and> reclaimable now lease gen) (generations d))"

definition stale_generation_ids :: "string \<Rightarrow> real \<Rightarrow> real \<Rightarrow> world \<Rightarrow> string list res" where
  "stale_generation_ids kb now lease w = bindR (kb_load False (states w kb)) (\<lambda>d. Inr (stale_ids now lease d))"

text \<open>\<open>bump_epoch\<close>\<close>

definition bump_epoch :: "string \<Rightarrow> io \<Rightarrow> world \<Rightarrow> int res \<times> world" where
  "bump_epoch kb i w = (case epoch_bump kb i (epochs w) of (r, es) \<Rightarrow> (r, w\<lparr>epochs := es\<rparr>))"

section \<open>The invariant\<close>

text \<open>A JSON object read from a file has no duplicate keys.\<close>

definition wf_file :: "fcontent \<Rightarrow> bool" where
  "wf_file c = (case c of Doc (JObj raw) \<Rightarrow>
     (case jfield (JObj raw) ''generations'' of JObj gs \<Rightarrow> distinct (map fst gs) | _ \<Rightarrow> True) | _ \<Rightarrow> True)"

definition valid_gens :: "jdict \<Rightarrow> bool" where
  "valid_gens gs \<longleftrightarrow> distinct (map fst gs) \<and> (\<forall>p \<in> set gs. valid_generation (fst p) (snd p) = Inr True)"

definition active_ok :: "kbdata \<Rightarrow> bool" where
  "active_ok d \<longleftrightarrow> (\<forall>a. active_generation d = Some a \<longrightarrow>
     (\<exists>gen. map_of (generations d) a = Some gen \<and> gstatus gen = JStr GENERATION_READY))"

definition kb_inv :: "kbdata \<Rightarrow> bool" where
  "kb_inv d \<longleftrightarrow> valid_gens (generations d) \<and> active_ok d"

lemma marks_distinct [simp]:
  "GENERATION_BUILDING \<noteq> GENERATION_READY" "GENERATION_BUILDING \<noteq> GENERATION_FAILED"
  "GENERATION_BUILDING \<noteq> GENERATION_SUPERSEDED" "GENERATION_READY \<noteq> GENERATION_BUILDING"
  "GENERATION_READY \<noteq> GENERATION_FAILED" "GENERATION_READY \<noteq> GENERATION_SUPERSEDED"
  "GENERATION_FAILED \<noteq> GENERATION_BUILDING" "GENERATION_FAILED \<noteq> GENERATION_READY"
  "GENERATION_FAILED \<noteq> GENERATION_SUPERSEDED" "GENERATION_SUPERSEDED \<noteq> GENERATION_BUILDING"
  "GENERATION_SUPERSEDED \<noteq> GENERATION_READY" "GENERATION_SUPERSEDED \<noteq> GENERATION_FAILED"
  by (simp_all add: generation_marks)

lemma valid_status_marks [simp]:
  "valid_status (JStr GENERATION_BUILDING)" "valid_status (JStr GENERATION_READY)"
  "valid_status (JStr GENERATION_FAILED)" "valid_status (JStr GENERATION_SUPERSEDED)"
  by (auto simp: valid_status_def)

lemma valid_status_hashable: "valid_status s \<Longrightarrow> hashable s"
  by (auto simp: valid_status_def)

lemma valid_generation_True:
  "valid_generation gid gen = Inr True \<longleftrightarrow>
     is_obj gen
     \<and> (jhas gen ''chunk_identity_version'' \<longrightarrow> is_nonempty_str (jfield gen ''chunk_identity_version''))
     \<and> jfield gen ''id'' = JStr gid \<and> valid_status (gstatus gen)
     \<and> is_nonempty_str (jfield gen ''embedding_model'')
     \<and> is_nonempty_str (jfield gen ''index_build_version'')
     \<and> is_nat_int (jfield gen ''base_epoch'') \<and> is_nonneg_num (jfield gen ''created_at'')
     \<and> is_obj_list (jfield gen ''documents'')
     \<and> valid_expected (gstatus gen) (jfield gen ''expected_count'')"
  using valid_status_hashable [of "gstatus gen"] by (auto simp: valid_generation_def)

text \<open>Setting the status (and what goes with it) keeps a generation valid.\<close>

lemma valid_put_status:
  assumes "valid_generation gid gen = Inr True" and "valid_status st"
    and "valid_expected st (jfield gen ''expected_count'')"
  shows "valid_generation gid (jput ''status'' st gen) = Inr True"
  using assms by (simp add: valid_generation_True json_simps)

lemma valid_put_protected:
  "valid_generation gid gen = Inr True \<Longrightarrow> valid_generation gid (jput ''gc_protected'' v gen) = Inr True"
  by (simp add: valid_generation_True json_simps)

lemma valid_drop_protected:
  "valid_generation gid gen = Inr True \<Longrightarrow> valid_generation gid (jdrop ''gc_protected'' gen) = Inr True"
  by (simp add: valid_generation_True json_simps)

lemma valid_mark_ready:
  assumes "valid_generation gid gen = Inr True" and "is_nat_int n" and "is_obj_list docs"
  shows "valid_generation gid (jput ''documents'' docs (jput ''expected_count'' n
           (jput ''status'' (JStr GENERATION_READY) gen))) = Inr True"
  using assms by (simp add: valid_generation_True json_simps valid_expected_def)

lemma expected_not_building:
  assumes "valid_generation gid gen = Inr True" and "gstatus gen \<in> {JStr GENERATION_READY, JStr GENERATION_SUPERSEDED}"
  shows "is_nat_int (jfield gen ''expected_count'')"
  using assms by (auto simp: valid_generation_True valid_expected_def)

lemma valid_supersede:
  assumes "valid_generation gid gen = Inr True" and "gstatus gen = JStr GENERATION_READY"
  shows "valid_generation gid (supersede protect gen) = Inr True"
proof -
  from expected_not_building [OF assms(1)] assms(2)
  have "valid_generation gid (jput ''status'' (JStr GENERATION_SUPERSEDED) gen) = Inr True"
    by (intro valid_put_status [OF assms(1)]) (simp_all add: valid_expected_def)
  then show ?thesis by (simp add: supersede_def Let_def valid_put_protected valid_drop_protected)
qed

lemma gstatus_supersede: "is_obj gen \<Longrightarrow> gstatus (supersede protect gen) = JStr GENERATION_SUPERSEDED"
  by (simp add: supersede_def Let_def json_simps)

lemma base_epoch_supersede: "is_obj gen \<Longrightarrow> jfield (supersede protect gen) ''base_epoch'' = jfield gen ''base_epoch''"
  by (simp add: supersede_def Let_def json_simps)

lemma valid_new_generation:
  assumes "em \<noteq> []" "ibv \<noteq> []" "civ \<noteq> Some []" "0 \<le> ep" "0 \<le> now"
  shows "valid_generation gid (new_generation gid em ibv civ ep now) = Inr True"
  using assms
  by (cases civ) (auto simp: valid_generation_True new_generation_def jfield_def jhas_def valid_expected_def)

section \<open>Loading gives the invariant, saving keeps it\<close>

lemma load_gens_Cons:
  assumes "load_gens strict ((gid, gen) # gs) = Inr r"
  obtains (keep) r' where "valid_generation gid gen = Inr True" "load_gens strict gs = Inr r'" "r = (gid, gen) # r'"
  | (drop) "valid_generation gid gen = Inr False" "\<not> strict" "load_gens strict gs = Inr r"
proof -
  from assms obtain ok where "valid_generation gid gen = Inr ok" by auto
  with assms that show ?thesis by (cases ok) (auto split: if_splits)
qed

lemma load_gens_sub: "load_gens strict gs = Inr r \<Longrightarrow> set r \<subseteq> set gs"
proof (induction gs arbitrary: r)
  case (Cons p gs)
  obtain gid gen where p: "p = (gid, gen)" by (cases p)
  from Cons.prems [unfolded p] show ?case
    by (cases rule: load_gens_Cons) (use Cons.IH in \<open>auto simp: p\<close>)
qed simp

lemma load_gens_valid:
  "load_gens strict gs = Inr r \<Longrightarrow> distinct (map fst gs) \<Longrightarrow> valid_gens r"
proof (induction gs arbitrary: r)
  case (Cons p gs)
  obtain gid gen where p: "p = (gid, gen)" by (cases p)
  from Cons.prems(1) [unfolded p] show ?case
  proof (cases rule: load_gens_Cons)
    case (keep r')
    then have "valid_gens r'" using Cons.IH Cons.prems(2) by simp
    moreover have "gid \<notin> fst ` set r'" using load_gens_sub [OF keep(2)] Cons.prems(2) by (auto simp: p)
    ultimately show ?thesis using keep by (auto simp: valid_gens_def)
  next
    case drop
    then show ?thesis using Cons by simp
  qed
qed (simp add: valid_gens_def)

lemma load_gens_id: "valid_gens gs \<Longrightarrow> load_gens strict gs = Inr gs"
  by (induction gs) (auto simp: valid_gens_def)

lemma load_active_ok:
  "load_active strict a gs = Inr r \<Longrightarrow> active_ok \<lparr>active_generation = r, generations = gs\<rparr>"
  by (cases a) (auto simp: load_active_def active_ok_def split: if_splits option.splits)

lemma load_generations_valid:
  assumes raw: "load_raw strict c = Inr raw" and gens: "load_generations strict raw = Inr gens" and "wf_file c"
  shows "valid_gens gens"
proof (cases "jfield (JObj raw) ''generations''")
  case (JObj gs)
  have "raw \<noteq> []" using JObj by (auto simp: jfield_def)
  with raw have "c = Doc (JObj raw)"
    by (auto simp: load_raw_def split: fcontent.splits json.splits if_splits)
  with assms(3) JObj have "distinct (map fst gs)" by (simp add: wf_file_def)
  with gens JObj show ?thesis by (auto simp: load_generations_def intro: load_gens_valid)
qed (use gens in \<open>auto simp: load_generations_def valid_gens_def split: if_splits\<close>)

lemma kb_load_inv: "kb_load strict c = Inr d \<Longrightarrow> wf_file c \<Longrightarrow> kb_inv d"
  by (auto simp: kb_load_def kb_inv_def dest: load_active_ok load_generations_valid)

lemma kb_load_doc: "kb_inv d \<Longrightarrow> kb_load strict (Doc (kb_doc kb d)) = Inr d"
  by (cases "active_generation d")
     (auto simp: kb_load_def load_raw_def load_generations_def kb_doc_def jfield_def load_gens_id
       kb_inv_def load_active_def active_ok_def)

lemma wf_file_doc: "kb_inv d \<Longrightarrow> wf_file (Doc (kb_doc kb d))"
  by (simp add: wf_file_def kb_doc_def jfield_def kb_inv_def valid_gens_def)

text \<open>A state file that strict loading accepts.\<close>

definition kb_good :: "fcontent \<Rightarrow> bool" where
  "kb_good c \<longleftrightarrow> wf_file c \<and> (\<exists>d. kb_load True c = Inr d)"

lemma load_raw_strict: "load_raw True c = Inr raw \<Longrightarrow> load_raw strict c = Inr raw"
  by (cases strict) (auto simp: load_raw_def split: fcontent.splits json.splits)

lemma load_gens_strict: "load_gens True gs = Inr r \<Longrightarrow> load_gens strict gs = Inr r"
proof (induction gs arbitrary: r)
  case (Cons p gs)
  obtain gid gen where p: "p = (gid, gen)" by (cases p)
  from Cons.prems [unfolded p] show ?case
    by (cases rule: load_gens_Cons) (use Cons.IH in \<open>auto simp: p\<close>)
qed simp

lemma load_active_strict: "load_active True a gs = Inr r \<Longrightarrow> load_active strict a gs = Inr r"
  by (cases a) (auto simp: load_active_def split: if_splits option.splits)

lemma load_generations_strict: "load_generations True raw = Inr r \<Longrightarrow> load_generations strict raw = Inr r"
  by (cases "jfield (JObj raw) ''generations''") (simp_all add: load_generations_def load_gens_strict [where strict = strict])

lemma kb_load_strict:
  assumes "kb_load True c = Inr d" shows "kb_load strict c = Inr d"
proof -
  from assms obtain raw gens a where "load_raw True c = Inr raw" "load_generations True raw = Inr gens"
    "load_active True (jfield (JObj raw) ''active_generation'') gens = Inr a"
    and d: "d = \<lparr>active_generation = a, generations = gens\<rparr>"
    by (auto simp: kb_load_def)
  then show ?thesis
    by (simp add: kb_load_def load_raw_strict [where strict = strict]
        load_generations_strict [where strict = strict] load_active_strict [where strict = strict])
qed

lemma kb_goodE:
  assumes "kb_good c" obtains d where "kb_inv d" "\<And>strict. kb_load strict c = Inr d"
  using assms by (auto simp: kb_good_def dest: kb_load_inv kb_load_strict)

lemma kb_good_doc [simp]: "kb_inv d \<Longrightarrow> kb_good (Doc (kb_doc kb d))"
  by (auto simp: kb_good_def kb_load_doc wf_file_doc)

lemma kb_good_NoFile [simp]: "kb_good NoFile"
  by (simp add: kb_good_def wf_file_def kb_load_def load_raw_def load_generations_def jfield_def load_active_def)

section \<open>Every change keeps the invariant\<close>

lemma valid_gens_lookup: "valid_gens gs \<Longrightarrow> map_of gs gid = Some gen \<Longrightarrow> valid_generation gid gen = Inr True"
  by (fastforce simp: valid_gens_def dest: map_of_SomeD)

lemma valid_gens_jset:
  "valid_gens gs \<Longrightarrow> valid_generation gid gen = Inr True \<Longrightarrow> valid_gens (jset gid gen gs)"
  by (auto simp: valid_gens_def distinct_jset set_jset)

lemma valid_gens_jpop: "valid_gens gs \<Longrightarrow> valid_gens (jpop gid gs)"
  by (auto simp: valid_gens_def distinct_jpop set_jpop)

lemma kb_inv_find: "kb_inv d \<Longrightarrow> find_gen gid d = Inr gen \<Longrightarrow>
    map_of (generations d) gid = Some gen \<and> valid_generation gid gen = Inr True"
  by (auto simp: find_gen_def kb_inv_def split: option.splits dest: valid_gens_lookup)

text \<open>Replacing one generation by a valid one keeps the invariant unless it is the active one and
  stops being ready.\<close>

lemma kb_inv_put:
  assumes "kb_inv d" and "valid_generation gid gen = Inr True"
    and "active_generation d = Some gid \<longrightarrow> gstatus gen = JStr GENERATION_READY"
  shows "kb_inv (put_gen gid gen d)"
  using assms by (auto simp: kb_inv_def put_gen_def valid_gens_jset active_ok_def map_of_jset)

text \<open>The data part of an operation preserves the invariant.\<close>

definition preserves :: "(kbdata \<Rightarrow> ('r \<times> kbdata) res) \<Rightarrow> bool" where
  "preserves f \<longleftrightarrow> (\<forall>d r d'. kb_inv d \<longrightarrow> f d = Inr (r, d') \<longrightarrow> kb_inv d')"

lemma preservesI: "(\<And>d r d'. kb_inv d \<Longrightarrow> f d = Inr (r, d') \<Longrightarrow> kb_inv d') \<Longrightarrow> preserves f"
  by (simp add: preserves_def)

lemma active_building:
  "kb_inv d \<Longrightarrow> map_of (generations d) gid = Some gen \<Longrightarrow> gstatus gen \<noteq> JStr GENERATION_READY \<Longrightarrow>
     active_generation d \<noteq> Some gid"
  by (auto simp: kb_inv_def active_ok_def)

lemma preserves_begin:
  assumes "em \<noteq> []" "ibv \<noteq> []" "civ \<noteq> Some []" "0 \<le> ep" "0 \<le> now"
  shows "\<And>d. kb_inv d \<Longrightarrow> active_generation d \<noteq> Some gid \<Longrightarrow>
    kb_inv (put_gen gid (new_generation gid em ibv civ ep now) d)"
  by (rule kb_inv_put) (use valid_new_generation [OF assms] in auto)

lemma preserves_mark_ready: "preserves (mark_ready_data gid n docs)"
proof (rule preservesI)
  fix d r d' assume inv: "kb_inv d" and "mark_ready_data gid n docs d = Inr (r, d')"
  then obtain gen where gen: "find_gen gid d = Inr gen" "gstatus gen = JStr GENERATION_BUILDING"
      "is_nat_int n" "is_obj_list docs"
    and d': "d' = put_gen gid (jput ''documents'' docs (jput ''expected_count'' n
                  (jput ''status'' (JStr GENERATION_READY) gen))) d"
    by (auto simp: mark_ready_data_def)
  from kb_inv_find [OF inv gen(1)] have "map_of (generations d) gid = Some gen"
    and v: "valid_generation gid gen = Inr True" by auto
  with inv gen have "active_generation d \<noteq> Some gid" by (auto dest: active_building)
  with valid_mark_ready [OF v gen(3,4)] show "kb_inv d'" by (simp add: d' kb_inv_put [OF inv])
qed

lemma preserves_mark_failed: "preserves (mark_failed_data gid)"
proof (rule preservesI)
  fix d r d' assume inv: "kb_inv d" and f: "mark_failed_data gid d = Inr (r, d')"
  then obtain gen where gen: "find_gen gid d = Inr gen" "active_generation d \<noteq> Some gid"
      "gstatus gen \<in> {JStr GENERATION_BUILDING, JStr GENERATION_READY}"
    and d': "d' = put_gen gid (jput ''status'' (JStr GENERATION_FAILED) gen) d"
    by (auto simp: mark_failed_data_def)
  from kb_inv_find [OF inv gen(1)] have v: "valid_generation gid gen = Inr True" by simp
  with gen(3) have "valid_expected (JStr GENERATION_FAILED) (jfield gen ''expected_count'')"
    by (auto simp: valid_generation_True valid_expected_def)
  with v have "valid_generation gid (jput ''status'' (JStr GENERATION_FAILED) gen) = Inr True"
    by (intro valid_put_status) auto
  with gen(2) show "kb_inv d'" by (simp add: d' kb_inv_put [OF inv])
qed

lemma kb_inv_supersede:
  assumes inv: "kb_inv d" and m: "map_of (generations d) p = Some old"
    and r: "gstatus old = JStr GENERATION_READY"
  shows "valid_gens (generations (put_gen p (supersede protect old) d))"
proof -
  from inv have g: "valid_gens (generations d)" by (simp add: kb_inv_def)
  from valid_gens_lookup [OF g m] have "valid_generation p old = Inr True" .
  from valid_supersede [OF this r] g show ?thesis by (simp add: put_gen_def valid_gens_jset)
qed

lemma active_ok_set:
  "map_of gs a = Some gen \<Longrightarrow> gstatus gen = JStr GENERATION_READY \<Longrightarrow>
     active_ok \<lparr>active_generation = Some a, generations = gs\<rparr>"
  by (simp add: active_ok_def)

lemma preserves_switch: "preserves (switch_active_data gid retain ep)"
proof (rule preservesI)
  fix d r d' assume inv: "kb_inv d" and sw: "switch_active_data gid retain ep d = Inr (r, d')"
  then obtain gen where gen: "map_of (generations d) gid = Some gen" "gstatus gen = JStr GENERATION_READY"
    by (auto simp: switch_active_data_def switch_guard_def find_gen_def split: option.splits)
  show "kb_inv d'"
  proof (cases "active_generation d = None \<or> active_generation d = Some gid")
    case True
    with sw gen have "d' = d\<lparr>active_generation := Some gid\<rparr>"
      by (auto simp: switch_active_data_def switch_guard_def find_gen_def Let_def)
    with inv gen show ?thesis by (auto simp: kb_inv_def active_ok_def)
  next
    case False
    then obtain p where p: "active_generation d = Some p" "p \<noteq> gid" by auto
    with inv obtain old where old: "map_of (generations d) p = Some old" "gstatus old = JStr GENERATION_READY"
      by (auto simp: kb_inv_def active_ok_def)
    with sw gen p have d': "d' = (put_gen p (supersede retain old) d)\<lparr>active_generation := Some gid\<rparr>"
      by (auto simp: switch_active_data_def switch_guard_def find_gen_def Let_def)
    with kb_inv_supersede [OF inv old] gen p show ?thesis
      by (auto simp: kb_inv_def active_ok_def put_gen_def map_of_jset)
  qed
qed

lemma rollback_shape:
  assumes "rollback_active_data gid expected protect d = Inr (r, d')"
  obtains tgt c where "map_of (generations d) gid = Some tgt" "gstatus tgt = JStr GENERATION_SUPERSEDED"
    "active_generation d = Some r" "expected = None \<or> expected = Some r"
    "map_of (generations d) r = Some c" "gstatus c = JStr GENERATION_READY"
    "d' = (put_gen gid (jdrop ''gc_protected'' (jput ''status'' (JStr GENERATION_READY) tgt))
             (put_gen r (supersede protect c) d))\<lparr>active_generation := Some gid\<rparr>"
  using assms by (auto simp: rollback_active_data_def find_gen_def split: option.splits)

lemma preserves_rollback: "preserves (rollback_active_data gid expected protect)"
proof (rule preservesI)
  fix d r d' assume inv: "kb_inv d" and "rollback_active_data gid expected protect d = Inr (r, d')"
  from this(2) show "kb_inv d'"
  proof (cases rule: rollback_shape)
    case (1 tgt c)
    let ?t = "jdrop ''gc_protected'' (jput ''status'' (JStr GENERATION_READY) tgt)"
    from inv 1(1) have v: "valid_generation gid tgt = Inr True"
      by (auto simp: kb_inv_def intro: valid_gens_lookup)
    with 1(2) have "valid_expected (JStr GENERATION_READY) (jfield tgt ''expected_count'')"
      by (auto simp: valid_generation_True valid_expected_def)
    with v have vt: "valid_generation gid ?t = Inr True"
      by (intro valid_drop_protected valid_put_status) auto
    have "gstatus ?t = JStr GENERATION_READY"
      using v by (simp add: valid_generation_True json_simps)
    with kb_inv_supersede [OF inv 1(5,6)] vt 1(7) show ?thesis
      by (auto simp: kb_inv_def active_ok_def put_gen_def map_of_jset intro: valid_gens_jset)
  qed
qed

lemma preserves_release: "preserves (release_data gid)"
proof (rule preservesI)
  fix d r d' assume inv: "kb_inv d" and "release_data gid d = Inr (r, d')"
  then obtain gen where gen: "find_gen gid d = Inr gen" "gstatus gen = JStr GENERATION_SUPERSEDED"
    and d': "d' = put_gen gid (jdrop ''gc_protected'' gen) d"
    by (auto simp: release_data_def)
  from kb_inv_find [OF inv gen(1)] have m: "map_of (generations d) gid = Some gen"
    and v: "valid_generation gid gen = Inr True" by auto
  with active_building [OF inv m] gen(2) have "active_generation d \<noteq> Some gid" by simp
  with valid_drop_protected [OF v] show "kb_inv d'" by (simp add: d' kb_inv_put [OF inv])
qed

lemma preserves_remove: "preserves (remove_data gid)"
  by (rule preservesI)
     (auto simp: remove_data_def kb_inv_def active_ok_def valid_gens_jpop map_of_jpop split: if_splits)

lemmas preserves_ops = preserves_mark_ready preserves_mark_failed preserves_switch preserves_rollback
  preserves_release preserves_remove

text \<open>Lifting to the file: a commit leaves a good file, whatever write fault happens.\<close>

lemma kb_commit_cases:
  assumes "kb_commit kb f i w = (r, w')"
  obtains (raised) e where "r = Inl e" "w' = w"
  | (saved) x d d' where "kb_load False (states w kb) = Inr d" "f d = Inr (x, d')"
      "w' = w\<lparr>states := (states w)(kb := Doc (kb_doc kb d'))\<rparr>" "r = Inr x \<or> r = Inl OSError"
  | (unsaved) "r = Inl OSError" "w' = w"
proof -
  show thesis
  proof (cases "bindR (kb_load False (states w kb)) f")
    case (Inl e)
    with assms that(1) show thesis by (auto simp: kb_commit_def)
  next
    case (Inr p)
    then obtain x d d' where d: "kb_load False (states w kb) = Inr d" "f d = Inr (x, d')" by (cases p) auto
    obtain r0 c where sv: "save_file i (kb_doc kb d') (states w kb) = (r0, c)" by fastforce
    have k: "kb_commit kb f i w = (case r0 of Inl e \<Rightarrow> Inl e | Inr _ \<Rightarrow> Inr x, w\<lparr>states := (states w)(kb := c)\<rparr>)"
      by (cases r0) (simp_all add: kb_commit_def kb_save_def d sv)
    from sv show thesis
    proof (cases rule: save_file_cases)
      case failed
      with k assms have "r = Inl OSError" "w' = w" by auto
      then show thesis by (rule that(3))
    qed (use k assms in \<open>auto intro: that(2) [OF d]\<close>)
  qed
qed

lemma kb_commit_good:
  assumes f: "\<And>d x d'. kb_inv d \<Longrightarrow> kb_load False (states w kb) = Inr d \<Longrightarrow> f d = Inr (x, d') \<Longrightarrow> kb_inv d'"
    and w: "kb_good (states w kb)" and c: "kb_commit kb f i w = (r, w')"
  shows "kb_good (states w' kb)"
  using c
proof (cases rule: kb_commit_cases)
  case (saved x d d')
  from w obtain d0 where "kb_inv d0" "kb_load False (states w kb) = Inr d0" by (rule kb_goodE) blast
  with saved f show ?thesis by auto
qed (use w in simp_all)

lemma kb_commit_preserves:
  "preserves f \<Longrightarrow> kb_good (states w kb) \<Longrightarrow> kb_commit kb f i w = (r, w') \<Longrightarrow> kb_good (states w' kb)"
  by (rule kb_commit_good) (auto simp: preserves_def)

lemma kb_commit_other: "kb_commit kb f i w = (r, w') \<Longrightarrow> kb' \<noteq> kb \<Longrightarrow> states w' kb' = states w kb'"
  by (erule kb_commit_cases) auto

lemma kb_commit_epochs: "kb_commit kb f i w = (r, w') \<Longrightarrow> epochs w' = epochs w"
  by (erule kb_commit_cases) auto

end
