(* ===== verification/KB_Machine.thy ===== *)
theory KB_Machine
  imports KB_State
begin

text \<open>
  The operations of \<open>KBState\<close> as a transition system over the control files of all knowledge bases,
  and the properties of its reachable states: the stored state is always readable in strict mode,
  an epoch bump fences every generation begun before it, the garbage collector never names a
  generation in use.
\<close>

section \<open>Transitions\<close>

datatype kb_op =
    Begin string string "string option" string real
  | MarkReady string json json
  | MarkFailed string
  | Switch string bool
  | Rollback string "string option" bool
  | Release string
  | Remove string
  | Bump

definition kb_exec :: "string \<Rightarrow> kb_op \<Rightarrow> io \<Rightarrow> world \<Rightarrow> world" where
  "kb_exec kb op i w =
     (case op of
        Begin em ibv civ gid now \<Rightarrow> snd (begin_generation kb em ibv civ gid now i w)
      | MarkReady gid n docs \<Rightarrow> snd (mark_ready kb gid n docs i w)
      | MarkFailed gid \<Rightarrow> snd (mark_failed kb gid i w)
      | Switch gid retain \<Rightarrow> snd (switch_active kb gid retain i w)
      | Rollback gid expected protect \<Rightarrow> snd (rollback_active kb gid expected protect i w)
      | Release gid \<Rightarrow> snd (release_generation_retention kb gid i w)
      | Remove gid \<Rightarrow> snd (remove_generation kb gid i w)
      | Bump \<Rightarrow> snd (bump_epoch kb i w))"

text \<open>The clock is not before 1970 and a new identifier is not the active one (identifiers are
  random UUIDs).\<close>

definition op_ok :: "string \<Rightarrow> kb_op \<Rightarrow> world \<Rightarrow> bool" where
  "op_ok kb op w =
     (case op of
        Begin em ibv civ gid now \<Rightarrow> 0 \<le> now \<and>
          (case kb_load False (states w kb) of Inr d \<Rightarrow> active_generation d \<noteq> Some gid | Inl _ \<Rightarrow> True)
      | _ \<Rightarrow> True)"

inductive kb_step :: "world \<Rightarrow> world \<Rightarrow> bool" where
  op: "op_ok kb op w \<Longrightarrow> kb_step w (kb_exec kb op i w)"

inductive kb_reachable :: "world \<Rightarrow> bool" where
  start: "(\<And>kb. states w kb = NoFile) \<Longrightarrow> kb_reachable w"
| step: "kb_reachable w \<Longrightarrow> kb_step w w' \<Longrightarrow> kb_reachable w'"

inductive_cases kb_stepE: "kb_step w w'"

section \<open>Strict readability\<close>

definition all_good :: "world \<Rightarrow> bool" where
  "all_good w \<longleftrightarrow> (\<forall>kb. kb_good (states w kb))"

lemma all_good_commit:
  assumes "all_good w" and "kb_commit kb f i w = (r, w')"
    and "\<And>d x d'. kb_inv d \<Longrightarrow> kb_load False (states w kb) = Inr d \<Longrightarrow> f d = Inr (x, d') \<Longrightarrow> kb_inv d'"
  shows "all_good w'"
  unfolding all_good_def
proof
  fix kb'
  show "kb_good (states w' kb')"
  proof (cases "kb' = kb")
    case True
    with assms(1,2) show ?thesis by (auto simp: all_good_def intro: kb_commit_good [OF assms(3)])
  next
    case False
    with assms(1) kb_commit_other [OF assms(2)] show ?thesis by (simp add: all_good_def)
  qed
qed

lemma all_good_preserves:
  "all_good w \<Longrightarrow> preserves f \<Longrightarrow> all_good (snd (kb_commit kb f i w))"
  by (rule all_good_commit [OF _ prod.collapse [symmetric]]) (auto simp: preserves_def)

lemma all_good_epochs [simp]: "all_good (w\<lparr>epochs := es\<rparr>) = all_good w"
  by (simp add: all_good_def)

lemma all_good_exec:
  assumes "all_good w" and "op_ok kb op w" shows "all_good (kb_exec kb op i w)"
proof (cases op)
  case (Begin em ibv civ gid now)
  from assms(1) obtain d where d: "kb_inv d" "\<And>strict. kb_load strict (states w kb) = Inr d"
    unfolding all_good_def by (meson kb_goodE)
  obtain r es where e: "epoch_current kb i (epochs w) = (r, es)" by fastforce
  show ?thesis
  proof (cases "em = [] \<or> ibv = [] \<or> civ = Some [] \<or> \<not> is_ok r")
    case True
    with assms(1) show ?thesis
      by (cases r) (auto simp: kb_exec_def Begin begin_generation_def d e)
  next
    case False
    then obtain ep where r: "r = Inr ep" by (cases r) auto
    from epoch_current_nonneg e r have "0 \<le> ep" by blast
    then have "kb_inv (put_gen gid (new_generation gid em ibv civ ep now) d)"
      using False assms(2) d by (intro preserves_begin) (auto simp: op_ok_def Begin)
    then have "all_good (snd (kb_commit kb
       (\<lambda>d. Inr (gid, put_gen gid (new_generation gid em ibv civ ep now) d)) i (w\<lparr>epochs := es\<rparr>)))"
      using assms(1) d by (intro all_good_commit [OF _ prod.collapse [symmetric]]) auto
    with False show ?thesis by (simp add: kb_exec_def Begin begin_generation_def d e r)
  qed
next
  case (Switch gid retain)
  have "all_good (snd (kb_commit kb (switch_active_data gid retain ep) i (w\<lparr>epochs := es\<rparr>)))" for ep es
    using assms(1) by (simp add: all_good_preserves preserves_switch)
  with assms(1) show ?thesis
    by (auto simp: kb_exec_def Switch switch_active_def split: sum.splits prod.splits)
next
  case Bump
  with assms(1) show ?thesis by (simp add: kb_exec_def bump_epoch_def split: prod.splits)
qed (use assms(1) in \<open>simp_all add: kb_exec_def all_good_preserves preserves_ops mark_ready_def
       mark_failed_def rollback_active_def release_generation_retention_def remove_generation_def\<close>)

lemma reachable_good: "kb_reachable w \<Longrightarrow> all_good w"
proof (induction rule: kb_reachable.induct)
  case (start w)
  then show ?case by (simp add: all_good_def)
next
  case (step w w')
  then show ?case by (auto elim!: kb_stepE intro: all_good_exec)
qed

section \<open>Fencing by epoch\<close>

text \<open>Generation \<open>gid\<close> was begun before epoch \<open>n\<close> and has never been active.\<close>

definition fenced :: "string \<Rightarrow> int \<Rightarrow> kbdata \<Rightarrow> bool" where
  "fenced gid n d \<longleftrightarrow> active_generation d \<noteq> Some gid \<and>
     (\<forall>gen. map_of (generations d) gid = Some gen \<longrightarrow>
        is_obj gen \<and> gstatus gen \<noteq> JStr GENERATION_SUPERSEDED \<and> (\<exists>b < n. jfield gen ''base_epoch'' = JInt b))"

lemma fenced_mono: "fenced gid n d \<Longrightarrow> n \<le> m \<Longrightarrow> fenced gid m d"
  by (fastforce simp: fenced_def)

lemma fenced_put_other: "fenced gid n d \<Longrightarrow> g \<noteq> gid \<Longrightarrow> fenced gid n (put_gen g gen d)"
  by (auto simp: fenced_def put_gen_def map_of_jset)

lemma fenced_mark_ready: "fenced gid n d \<Longrightarrow> mark_ready_data g k docs d = Inr (r, d') \<Longrightarrow> fenced gid n d'"
  by (auto simp: mark_ready_data_def find_gen_def fenced_def put_gen_def map_of_jset json_simps
      split: option.splits if_splits)

lemma fenced_mark_failed: "fenced gid n d \<Longrightarrow> mark_failed_data g d = Inr (r, d') \<Longrightarrow> fenced gid n d'"
  by (auto simp: mark_failed_data_def find_gen_def fenced_def put_gen_def map_of_jset json_simps
      split: option.splits if_splits)

lemma fenced_release: "fenced gid n d \<Longrightarrow> release_data g d = Inr (r, d') \<Longrightarrow> fenced gid n d'"
  by (auto simp: release_data_def find_gen_def fenced_def put_gen_def map_of_jset json_simps
      split: option.splits if_splits)

lemma fenced_remove: "fenced gid n d \<Longrightarrow> remove_data g d = Inr (r, d') \<Longrightarrow> fenced gid n d'"
  by (auto simp: remove_data_def fenced_def map_of_jpop split: if_splits)

lemma fenced_switch:
  assumes f: "fenced gid n d" and s: "switch_active_data g retain n d = Inr (r, d')"
  shows "fenced gid n d'"
proof -
  from s obtain gen where gen: "map_of (generations d) g = Some gen" "jfield gen ''base_epoch'' = JInt n"
    by (auto simp: switch_active_data_def switch_guard_def find_gen_def split: option.splits)
  with f have "g \<noteq> gid" by (auto simp: fenced_def)
  have "fenced gid n d1" if "d1 = d \<or> (\<exists>p old. active_generation d = Some p \<and> d1 = put_gen p (supersede retain old) d)" for d1
    using that f fenced_put_other [OF f] by (auto simp: fenced_def)
  moreover from s obtain d1 where "d' = d1\<lparr>active_generation := Some g\<rparr>"
    and "d1 = d \<or> (\<exists>p old. active_generation d = Some p \<and> d1 = put_gen p (supersede retain old) d)"
    by (auto simp: switch_active_data_def Let_def split: option.splits if_splits)
  ultimately show ?thesis using \<open>g \<noteq> gid\<close> by (auto simp: fenced_def)
qed

lemma fenced_rollback:
  assumes f: "fenced gid n d" and "rollback_active_data g ex protect d = Inr (r, d')"
  shows "fenced gid n d'"
  using assms(2)
proof (cases rule: rollback_shape)
  case (1 tgt c)
  with f have "g \<noteq> gid" "r \<noteq> gid" by (auto simp: fenced_def)
  then have "fenced gid n (put_gen g tt (put_gen r cc d))" for tt cc
    by (intro fenced_put_other f)
  with 1(7) \<open>g \<noteq> gid\<close> show ?thesis by (auto simp: fenced_def)
qed

text \<open>The fence as a property of the control files.\<close>

definition fenced_in :: "string \<Rightarrow> string \<Rightarrow> int \<Rightarrow> world \<Rightarrow> bool" where
  "fenced_in kb gid n w \<longleftrightarrow>
     (\<exists>m d. epoch_current kb good_io (epochs w) = (Inr m, epochs w) \<and> n \<le> m \<and>
            kb_good (states w kb) \<and> kb_load False (states w kb) = Inr d \<and> fenced gid m d)"

lemma fenced_inE:
  assumes "fenced_in kb gid n w"
  obtains m d where "epoch_current kb i (epochs w) = (Inr m, epochs w)" "n \<le> m" "kb_inv d"
    "kb_good (states w kb)" "\<And>strict. kb_load strict (states w kb) = Inr d" "fenced gid m d"
proof -
  from assms obtain m d where e: "epoch_current kb good_io (epochs w) = (Inr m, epochs w)"
    and d: "n \<le> m" "kb_good (states w kb)" "kb_load False (states w kb) = Inr d" "fenced gid m d"
    by (auto simp: fenced_in_def)
  from d(2) obtain d' where "kb_inv d'" "\<And>strict. kb_load strict (states w kb) = Inr d'" by (rule kb_goodE) blast
  moreover with d(3) have "d' = d" by simp
  moreover from file_epochs.current_stable [OF e] have "epoch_current kb i (epochs w) = (Inr m, epochs w)" .
  ultimately show thesis using that d by blast
qed

lemma fenced_in_commit:
  assumes w: "fenced_in kb gid n w" and c: "kb_commit kb f i w = (r, w')"
    and inv: "\<And>d x d'. kb_inv d \<Longrightarrow> kb_load False (states w kb) = Inr d \<Longrightarrow> f d = Inr (x, d') \<Longrightarrow> kb_inv d'"
    and f: "\<And>m d x d'. epoch_current kb i (epochs w) = (Inr m, epochs w) \<Longrightarrow> kb_inv d \<Longrightarrow>
              fenced gid m d \<Longrightarrow> f d = Inr (x, d') \<Longrightarrow> fenced gid m d'"
  shows "fenced_in kb gid n w'"
proof -
  from w obtain m d where m: "epoch_current kb i (epochs w) = (Inr m, epochs w)" "n \<le> m" "kb_inv d"
    "\<And>strict. kb_load strict (states w kb) = Inr d" "fenced gid m d" by (elim fenced_inE [where i = i]) blast
  from c show ?thesis
  proof (cases rule: kb_commit_cases)
    case (saved x d0 d')
    with m(4) have "d0 = d" by simp
    with saved inv m f have "kb_inv d'" "fenced gid m d'" by blast+
    with saved m(1,2) file_epochs.current_stable [OF m(1)] show ?thesis
      by (auto simp: fenced_in_def kb_load_doc)
  qed (use w in simp_all)
qed

lemma fenced_in_frame:
  assumes "fenced_in kb gid n w" and "states w' kb = states w kb"
    and "epochs w' = epochs w \<or> (\<exists>kb' i r. epoch_bump kb' i (epochs w) = (r, epochs w'))"
  shows "fenced_in kb gid n w'"
proof -
  from assms(1) obtain m d where m: "epoch_current kb good_io (epochs w) = (Inr m, epochs w)" "n \<le> m"
    "kb_good (states w kb)" "kb_load False (states w kb) = Inr d" "fenced gid m d" by (auto simp: fenced_in_def)
  from assms(3) have "\<exists>k \<ge> m. epoch_current kb good_io (epochs w') = (Inr k, epochs w')"
  proof (elim disjE exE)
    assume "epochs w' = epochs w" with m(1) show ?thesis by auto
  next
    fix kb' i r assume b: "epoch_bump kb' i (epochs w) = (r, epochs w')"
    from file_epochs.bump_monotone [OF file_epochs.current_stable [OF m(1)] b] show ?thesis by auto
  qed
  then obtain k where k: "m \<le> k" "epoch_current kb good_io (epochs w') = (Inr k, epochs w')" by blast
  from fenced_mono [OF m(5) k(1)] have "fenced gid k d" .
  with k m assms(2) show ?thesis by (auto simp: fenced_in_def intro!: exI [of _ k])
qed

lemma epoch_current_same: "fenced_in kb gid n w \<Longrightarrow> epoch_current kb' i (epochs w) = (r, es) \<Longrightarrow>
    es = epochs w"
  by (auto simp: fenced_in_def epoch_current_def split: prod.splits sum.splits
      dest: epoch_load_Inr epoch_load_io [where j = i])

text \<open>One operation keeps the fence; a new generation has another identifier (random UUIDs).\<close>

definition avoids :: "string \<Rightarrow> kb_op \<Rightarrow> bool" where
  "avoids gid op = (case op of Begin em ibv civ g now \<Rightarrow> g \<noteq> gid \<and> 0 \<le> now | _ \<Rightarrow> True)"

lemma epochs_same [simp]: "w\<lparr>epochs := epochs w\<rparr> = w" for w :: world
  by (cases w) simp

lemma fenced_in_preserves:
  assumes "fenced_in kb gid n w" and "preserves f"
    and "\<And>m d x d'. fenced gid m d \<Longrightarrow> f d = Inr (x, d') \<Longrightarrow> fenced gid m d'"
  shows "fenced_in kb gid n (snd (kb_commit kb f i w))"
  using assms by (intro fenced_in_commit [OF assms(1) prod.collapse [symmetric]]) (auto simp: preserves_def)

lemma fenced_in_exec_same:
  assumes w: "fenced_in kb gid n w" and "avoids gid op" and "op_ok kb op w"
  shows "fenced_in kb gid n (kb_exec kb op i w)"
proof (cases op)
  case (Begin em ibv civ g now)
  obtain r es where e: "epoch_current kb i (epochs w) = (r, es)" by fastforce
  with w have es: "es = epochs w" by (rule epoch_current_same)
  have "fenced_in kb gid n (snd (kb_commit kb
          (\<lambda>d. Inr (g, put_gen g (new_generation g em ibv civ ep now) d)) i w))"
    if "r = Inr ep" "em \<noteq> []" "ibv \<noteq> []" "civ \<noteq> Some []" for ep
  proof (rule fenced_in_commit [OF w prod.collapse [symmetric]])
    have "0 \<le> ep" using epoch_current_nonneg e that(1) by blast
    then show "kb_inv d'" if "kb_inv d" "kb_load False (states w kb) = Inr d"
      "Inr (g, put_gen g (new_generation g em ibv civ ep now) d) = Inr (x, d')" for d d' x
      using that \<open>em \<noteq> []\<close> \<open>ibv \<noteq> []\<close> \<open>civ \<noteq> Some []\<close> assms(2,3)
      by (auto simp: op_ok_def avoids_def Begin intro!: preserves_begin)
    show "fenced gid m d'" if "fenced gid m d"
      "Inr (g, put_gen g (new_generation g em ibv civ ep now) d) = Inr (x, d')" for m d d' x
      using that assms(2) by (auto simp: avoids_def Begin fenced_put_other)
  qed
  with w show ?thesis
    by (auto simp: kb_exec_def Begin begin_generation_def e es split: sum.splits)
next
  case (Switch g retain)
  obtain r es where e: "epoch_current kb i (epochs w) = (r, es)" by fastforce
  with w have es: "es = epochs w" by (rule epoch_current_same)
  have "fenced_in kb gid n (snd (kb_commit kb (switch_active_data g retain ep) i w))" if "r = Inr ep" for ep
    using that preserves_switch e es
    by (intro fenced_in_commit [OF w prod.collapse [symmetric]]) (auto simp: preserves_def intro: fenced_switch)
  with w show ?thesis
    by (auto simp: kb_exec_def Switch switch_active_def e es split: sum.splits)
next
  case Bump
  with w show ?thesis
    by (auto simp: kb_exec_def bump_epoch_def split: prod.splits intro!: fenced_in_frame [OF w])
qed (use w in \<open>auto simp: kb_exec_def mark_ready_def mark_failed_def rollback_active_def
       release_generation_retention_def remove_generation_def
       intro!: fenced_in_preserves preserves_ops
       intro: fenced_mark_ready fenced_mark_failed fenced_rollback fenced_release fenced_remove\<close>)

text \<open>An operation on another knowledge base reads and bumps only that one's epoch.\<close>

lemma kb_exec_other:
  assumes "fenced_in kb gid n w" and "kb' \<noteq> kb"
  shows "states (kb_exec kb' op i w) kb = states w kb \<and>
    (epochs (kb_exec kb' op i w) = epochs w \<or> (\<exists>r. epoch_bump kb' i (epochs w) = (r, epochs (kb_exec kb' op i w))))"
proof -
  have c: "states (snd (kb_commit kb' f i w')) kb = states w' kb \<and> epochs (snd (kb_commit kb' f i w')) = epochs w'"
    for f :: "kbdata \<Rightarrow> ('r \<times> kbdata) res" and w'
    using kb_commit_other [OF prod.collapse [symmetric] assms(2) [symmetric], of f i w']
      kb_commit_epochs [OF prod.collapse [symmetric], of kb' f i w'] by simp
  have e: "snd (epoch_current kb' i (epochs w)) = epochs w"
    using epoch_current_same [OF assms(1) prod.collapse [symmetric]] .
  show ?thesis
    using e
    by (cases op)
       (auto simp: kb_exec_def mark_ready_def mark_failed_def rollback_active_def
          release_generation_retention_def remove_generation_def begin_generation_def
          switch_active_def bump_epoch_def c split: prod.splits sum.splits)
qed

lemma fenced_in_exec:
  assumes "fenced_in kb gid n w" and "avoids gid op" and "op_ok kb' op w"
  shows "fenced_in kb gid n (kb_exec kb' op i w)"
proof (cases "kb' = kb")
  case True
  with assms show ?thesis by (auto intro: fenced_in_exec_same)
next
  case False
  from kb_exec_other [OF assms(1) this, of op i] show ?thesis
    by (intro fenced_in_frame [OF assms(1)]) auto
qed

text \<open>A run: a list of operations, each on some knowledge base and under some faults.\<close>

fun kb_run :: "(string \<times> kb_op \<times> io) list \<Rightarrow> world \<Rightarrow> world" where
  "kb_run [] w = w"
| "kb_run ((kb, op, i) # ops) w = kb_run ops (kb_exec kb op i w)"

fun run_ok :: "(string \<times> kb_op \<times> io) list \<Rightarrow> world \<Rightarrow> bool" where
  "run_ok [] w = True"
| "run_ok ((kb, op, i) # ops) w = (op_ok kb op w \<and> run_ok ops (kb_exec kb op i w))"

lemma fenced_in_run:
  "fenced_in kb gid n w \<Longrightarrow> run_ok ops w \<Longrightarrow> list_all (\<lambda>(k, op, i). avoids gid op) ops \<Longrightarrow>
     fenced_in kb gid n (kb_run ops w)"
  by (induction ops w rule: run_ok.induct) (auto intro: fenced_in_exec)

section \<open>Properties\<close>

text \<open>C21. Every reachable state file is readable in strict mode and satisfies the invariant: all
  stored generations are well formed and the active pointer, if set, names a ready generation.
  This holds after any sequence of operations on any knowledge bases, whatever write faults
  happened, so \<open>generation_is_committed\<close> never reports corruption.\<close>

theorem kb_reachable_invariant:
  assumes "kb_reachable w"
  shows "\<exists>d. kb_load True (states w kb) = Inr d \<and> kb_inv d \<and> is_ok (generation_is_committed kb gid w)"
proof -
  from reachable_good [OF assms] have "kb_good (states w kb)" by (simp add: all_good_def)
  then obtain d where "kb_inv d" "\<And>strict. kb_load strict (states w kb) = Inr d" by (rule kb_goodE) blast
  then show ?thesis by (auto simp: generation_is_committed_def)
qed

definition empty_world :: world where
  "empty_world = \<lparr>epochs = \<lparr>content = NoFile, degraded = False\<rparr>,
                  lifecycle = \<lparr>content = NoFile, degraded = False\<rparr>, states = (\<lambda>_. NoFile)\<rparr>"

theorem kb_reachable_invariant_witness:
  "\<exists>d. kb_load True (states (kb_exec ''kb'' (Begin ''bge'' ''v1'' None ''g1'' 5) good_io empty_world) ''kb'') = Inr d
     \<and> kb_inv d
     \<and> is_ok (generation_is_committed ''kb'' ''g1'' (kb_exec ''kb'' (Begin ''bge'' ''v1'' None ''g1'' 5) good_io empty_world))"
proof (rule kb_reachable_invariant)
  have "kb_reachable empty_world" by (rule kb_reachable.start) (simp add: empty_world_def)
  moreover have "op_ok ''kb'' (Begin ''bge'' ''v1'' None ''g1'' 5) empty_world"
    by (simp add: op_ok_def empty_world_def kb_load_def load_raw_def load_generations_def jfield_def load_active_def)
  ultimately show "kb_reachable (kb_exec ''kb'' (Begin ''bge'' ''v1'' None ''g1'' 5) good_io empty_world)"
    by (blast intro: kb_reachable.step kb_step.op)
qed

text \<open>C20. An epoch bump fences every generation begun before it: if a generation that has never been
  active has a base epoch below the current one, then after any run of operations on any knowledge
  bases (none of which begins a generation with the same random identifier) it is still not the
  active generation, and activating it raises \<open>StaleGenerationError\<close> or is refused because it is
  missing or not ready.\<close>

theorem stale_generation_never_active:
  assumes "fenced_in kb gid n w" and "run_ok ops w" and "list_all (\<lambda>(k, op, i). avoids gid op) ops"
  shows "\<exists>d. kb_load True (states (kb_run ops w) kb) = Inr d \<and> active_generation d \<noteq> Some gid
    \<and> fst (switch_active kb gid retain i (kb_run ops w)) \<in>
        {Inl StaleGenerationError, Inl (KeyError gid), Inl (ValueError ''only a ready generation can be activated'')}"
proof -
  let ?w = "kb_run ops w"
  from fenced_in_run [OF assms] obtain m d where m: "epoch_current kb i (epochs ?w) = (Inr m, epochs ?w)"
    and d: "\<And>strict. kb_load strict (states ?w kb) = Inr d" and f: "fenced gid m d"
    by (elim fenced_inE [where i = i]) blast
  have "fst (switch_active kb gid retain i ?w) \<in>
        {Inl StaleGenerationError, Inl (KeyError gid), Inl (ValueError ''only a ready generation can be activated'')}"
  proof (cases "map_of (generations d) gid")
    case None
    then show ?thesis by (simp add: switch_active_def d switch_guard_def find_gen_def)
  next
    case (Some gen)
    with f obtain b where "jfield gen ''base_epoch'' = JInt b" "b < m" by (auto simp: fenced_def)
    with Some show ?thesis
      by (auto simp: switch_active_def d switch_guard_def find_gen_def m kb_commit_def
          switch_active_data_def guardR_def)
  qed
  with d f show ?thesis by (auto simp: fenced_def)
qed

definition fence_demo :: world where
  "fence_demo = empty_world\<lparr>epochs := \<lparr>content = Doc (JObj [(''kb'', JInt 3)]), degraded = False\<rparr>,
     states := (\<lambda>_. NoFile)(''kb'' := Doc (kb_doc ''kb''
        \<lparr>active_generation = None, generations = [(''g1'', new_generation ''g1'' ''bge'' ''v1'' None 2 5)]\<rparr>))\<rparr>"

theorem stale_generation_never_active_witness:
  "\<exists>d. kb_load True (states (kb_run [(''kb'', MarkReady ''g1'' (JInt 7) (JArr []), good_io)] fence_demo) ''kb'') = Inr d
    \<and> active_generation d \<noteq> Some ''g1''"
proof -
  let ?d = "\<lparr>active_generation = None, generations = [(''g1'', new_generation ''g1'' ''bge'' ''v1'' None 2 5)]\<rparr>"
  have inv: "kb_inv ?d"
    by (simp add: kb_inv_def valid_gens_def active_ok_def valid_new_generation)
  have "fenced ''g1'' 3 ?d"
    by (simp add: fenced_def new_generation_def jfield_def generation_marks)
  with inv have "fenced_in ''kb'' ''g1'' 3 fence_demo"
    by (auto simp: fenced_in_def fence_demo_def epoch_current_def epoch_load_def valid_epochs_def
        epoch_of_def kb_load_doc)
  moreover have "run_ok [(''kb'', MarkReady ''g1'' (JInt 7) (JArr []), good_io)] fence_demo"
    by (simp add: op_ok_def)
  moreover have "list_all (\<lambda>(k, op, i). avoids ''g1'' op) [(''kb'', MarkReady ''g1'' (JInt 7) (JArr []), good_io)]"
    by (simp add: avoids_def)
  ultimately show ?thesis using stale_generation_never_active [of "''kb''" "''g1''" 3] by blast
qed

text \<open>What a successful \<open>switch_active\<close> has done: the generation was ready and its base epoch is
  the current epoch; the file now loads with it active; the previously active generation (returned,
  unless it is the same one) is superseded and protected exactly if retention was asked for; every
  other generation is untouched.\<close>

theorem switch_active_commits:
  assumes "kb_good (states w kb)" and "switch_active kb gid retain i w = (Inr prev, w')"
  shows "\<exists>d d' gen. kb_load False (states w kb) = Inr d \<and> kb_load True (states w' kb) = Inr d'
    \<and> map_of (generations d) gid = Some gen \<and> gstatus gen = JStr GENERATION_READY
    \<and> (\<exists>ep. epoch_current kb i (epochs w) = (Inr ep, epochs w) \<and> jfield gen ''base_epoch'' = JInt ep)
    \<and> active_generation d' = Some gid
    \<and> prev = (if active_generation d = Some gid then None else active_generation d)
    \<and> (\<forall>g. map_of (generations d') g =
          (if prev = Some g then map_option (supersede retain) (map_of (generations d) g)
           else map_of (generations d) g))"
proof -
  from assms(1) obtain d where inv: "kb_inv d" and d: "\<And>strict. kb_load strict (states w kb) = Inr d"
    by (rule kb_goodE) blast
  from assms(2) obtain ep es where ep: "epoch_current kb i (epochs w) = (Inr ep, es)"
    and c: "kb_commit kb (switch_active_data gid retain ep) i (w\<lparr>epochs := es\<rparr>) = (Inr prev, w')"
    by (auto simp: switch_active_def split: sum.splits prod.splits)
  from file_epochs.current_pure [OF ep] have es: "es = epochs w" .
  from c obtain d' where sw: "switch_active_data gid retain ep d = Inr (prev, d')"
    and w': "states w' kb = Doc (kb_doc kb d')"
    by (cases rule: kb_commit_cases) (auto simp: d es)
  from preserves_switch inv sw have "kb_inv d'" by (auto simp: preserves_def)
  then have l: "kb_load True (states w' kb) = Inr d'" by (simp add: w' kb_load_doc)
  have "\<And>p. active_generation d = Some p \<Longrightarrow> \<exists>old. map_of (generations d) p = Some old"
    using inv by (auto simp: kb_inv_def active_ok_def)
  then show ?thesis
    using sw d l ep es
    by (auto simp: switch_active_data_def switch_guard_def find_gen_def Let_def put_gen_def map_of_jset
        split: option.splits if_splits)
qed

definition ready_demo :: world where
  "ready_demo = empty_world\<lparr>states := (\<lambda>_. NoFile)(''kb'' := Doc (kb_doc ''kb''
     \<lparr>active_generation = None, generations =
        [(''g1'', jput ''status'' (JStr GENERATION_READY)
            (jput ''expected_count'' (JInt 4) (new_generation ''g1'' ''bge'' ''v1'' None 0 5)))]\<rparr>))\<rparr>"

lemma ready_demo_good: "kb_good (states ready_demo ''kb'')"
  and ready_demo_switch: "\<exists>w'. switch_active ''kb'' ''g1'' True good_io ready_demo = (Inr None, w')"
  and ready_demo_open: "generation_is_committed ''kb'' ''g1'' ready_demo = Inr False"
proof -
  let ?g = "jput ''status'' (JStr GENERATION_READY)
            (jput ''expected_count'' (JInt 4) (new_generation ''g1'' ''bge'' ''v1'' None 0 5))"
  let ?d = "\<lparr>active_generation = None, generations = [(''g1'', ?g)]\<rparr>"
  have o: "is_obj (new_generation ''g1'' ''bge'' ''v1'' None 0 5)" by (simp add: new_generation_def)
  have "valid_generation ''g1'' ?g = Inr True"
    using valid_new_generation [of "''bge''" "''v1''" None 0 5 "''g1''"] o
    by (simp add: valid_generation_True json_simps valid_expected_def)
  then have inv: "kb_inv ?d" by (simp add: kb_inv_def valid_gens_def active_ok_def)
  have st: "states ready_demo ''kb'' = Doc (kb_doc ''kb'' ?d)" by (simp add: ready_demo_def)
  have ep: "epoch_current ''kb'' good_io (epochs ready_demo) = (Inr 0, epochs ready_demo)"
    by (simp add: ready_demo_def empty_world_def epoch_current_def epoch_load_def epoch_of_def)
  have b: "jfield ?g ''base_epoch'' = JInt 0" "gstatus ?g = JStr GENERATION_READY"
    using o by (simp_all add: json_simps) (simp add: new_generation_def jfield_def)
  show "\<exists>w'. switch_active ''kb'' ''g1'' True good_io ready_demo = (Inr None, w')"
    using b by (simp add: switch_active_def st kb_load_doc inv switch_guard_def find_gen_def ep
        kb_commit_def switch_active_data_def kb_save_def)
  show "kb_good (states ready_demo ''kb'')" using inv by (simp add: st)
  show "generation_is_committed ''kb'' ''g1'' ready_demo = Inr False"
    using b(2) by (simp add: generation_is_committed_def st kb_load_doc inv)
qed

lemma ready_demo_load:
  obtains d where "kb_load False (states ready_demo ''kb'') = Inr d" "map fst (generations d) = [''g1'']"
    "\<And>gid gen. map_of (generations d) gid = Some gen \<Longrightarrow> jfield gen ''base_epoch'' = JInt 0"
proof -
  let ?n = "new_generation ''g1'' ''bge'' ''v1'' None 0 5"
  let ?g = "jput ''status'' (JStr GENERATION_READY) (jput ''expected_count'' (JInt 4) ?n)"
  let ?d = "\<lparr>active_generation = None, generations = [(''g1'', ?g)]\<rparr>"
  have st: "states ready_demo ''kb'' = Doc (kb_doc ''kb'' ?d)" by (simp add: ready_demo_def)
  from ready_demo_good obtain d where d: "kb_load False (states ready_demo ''kb'') = Inr d" "kb_inv d"
    by (rule kb_goodE) blast
  have "is_obj ?n" "jfield ?n ''base_epoch'' = JInt 0" by (simp_all add: new_generation_def jfield_def)
  then have "jfield ?g ''base_epoch'' = JInt 0" by (simp add: json_simps)
  moreover have "kb_load False (states ready_demo ''kb'') = Inr ?d"
    using valid_new_generation [of "''bge''" "''v1''" None 0 5 "''g1''"] \<open>is_obj ?n\<close>
    by (simp add: st kb_load_doc kb_inv_def valid_gens_def active_ok_def valid_generation_True json_simps valid_expected_def)
  ultimately show thesis by (intro that [of ?d]) (auto split: if_splits)
qed

theorem switch_active_commits_witness:
  "\<exists>d'. kb_load True (states (snd (switch_active ''kb'' ''g1'' True good_io ready_demo)) ''kb'') = Inr d'
     \<and> active_generation d' = Some ''g1''"
  using switch_active_commits [OF ready_demo_good] ready_demo_switch by fastforce

text \<open>The garbage collector names exactly the reclaimable generations: never the active one, never a
  retained superseded one, and a building or ready one only after its lease has run out.\<close>

theorem stale_generation_ids_exact:
  assumes "kb_good (states w kb)" and "stale_generation_ids kb now lease w = Inr ids"
  shows "\<exists>d. kb_load True (states w kb) = Inr d \<and> distinct ids \<and>
    (\<forall>gid. gid \<in> set ids \<longleftrightarrow> active_generation d \<noteq> Some gid \<and>
      (\<exists>gen. map_of (generations d) gid = Some gen \<and>
        (gstatus gen = JStr GENERATION_FAILED
         \<or> gstatus gen = JStr GENERATION_SUPERSEDED \<and> \<not> truthy (jfield gen ''gc_protected'')
         \<or> gstatus gen \<in> {JStr GENERATION_BUILDING, JStr GENERATION_READY} \<and>
           lease < now - num_val (jfield gen ''created_at''))))"
proof -
  from assms(1) obtain d where inv: "kb_inv d" and d: "\<And>strict. kb_load strict (states w kb) = Inr d"
    by (rule kb_goodE) blast
  from assms(2) d have ids: "ids = stale_ids now lease d" by (simp add: stale_generation_ids_def)
  from inv have dist: "distinct (map fst (generations d))" by (simp add: kb_inv_def valid_gens_def)
  have "distinct ids" unfolding ids stale_ids_def
    using dist by (rule distinct_map_filter)
  moreover have "gid \<in> set ids \<longleftrightarrow> active_generation d \<noteq> Some gid \<and>
      (\<exists>gen. map_of (generations d) gid = Some gen \<and> reclaimable now lease gen)" for gid
    unfolding ids stale_ids_def using dist by (force simp: map_of_eq_Some_iff)
  ultimately show ?thesis using d by (auto simp: reclaimable_def)
qed

theorem stale_generation_ids_exact_witness:
  "stale_generation_ids ''kb'' 5000 DEFAULT_INFLIGHT_LEASE_SECONDS ready_demo = Inr [''g1'']
   \<and> (\<exists>d. kb_load True (states ready_demo ''kb'') = Inr d \<and> active_generation d \<noteq> Some ''g1'')"
proof -
  let ?g = "jput ''status'' (JStr GENERATION_READY)
            (jput ''expected_count'' (JInt 4) (new_generation ''g1'' ''bge'' ''v1'' None 0 5))"
  let ?d = "\<lparr>active_generation = None, generations = [(''g1'', ?g)]\<rparr>"
  have o: "is_obj (new_generation ''g1'' ''bge'' ''v1'' None 0 5)" by (simp add: new_generation_def)
  have "valid_generation ''g1'' ?g = Inr True"
    using valid_new_generation [of "''bge''" "''v1''" None 0 5 "''g1''"] o
    by (simp add: valid_generation_True json_simps valid_expected_def)
  then have inv: "kb_inv ?d" by (simp add: kb_inv_def valid_gens_def active_ok_def)
  have st: "states ready_demo ''kb'' = Doc (kb_doc ''kb'' ?d)" by (simp add: ready_demo_def)
  have "jfield ?g ''created_at'' = JFloat (Fin 5)" "gstatus ?g = JStr GENERATION_READY"
    using o by (simp_all add: json_simps) (simp add: new_generation_def jfield_def)
  then have s: "stale_generation_ids ''kb'' 5000 DEFAULT_INFLIGHT_LEASE_SECONDS ready_demo = Inr [''g1'']"
    by (simp add: stale_generation_ids_def st kb_load_doc inv stale_ids_def reclaimable_def
        DEFAULT_INFLIGHT_LEASE_SECONDS_def)
  have "kb_good (states ready_demo ''kb'')" using inv by (simp add: st)
  from stale_generation_ids_exact [OF this s] obtain d where
    l: "kb_load True (states ready_demo ''kb'') = Inr d"
    and m: "''g1'' \<in> set [''g1''] \<longrightarrow> active_generation d \<noteq> Some ''g1''" by blast
  have "''g1'' \<in> set [''g1'']" by simp
  with m have "active_generation d \<noteq> Some ''g1''" by blast
  with s l show ?thesis by blast
qed

text \<open>C22. Rolling back is its own inverse: rolling back to a superseded generation makes it the active
  one and supersedes the current one (which is returned); rolling back to that one again restores the
  active pointer and the status of every generation.\<close>

theorem rollback_roundtrip:
  assumes "kb_inv d" and "rollback_active_data gid expected p d = Inr (cur, d1)"
  shows "active_generation d = Some cur \<and> active_generation d1 = Some gid \<and>
    (\<exists>d2. rollback_active_data cur (Some gid) q d1 = Inr (gid, d2) \<and> kb_inv d2
       \<and> active_generation d2 = active_generation d
       \<and> (\<forall>g. map_option gstatus (map_of (generations d2) g) = map_option gstatus (map_of (generations d) g)))"
proof -
  from assms(2) obtain tgt c where t: "map_of (generations d) gid = Some tgt" "gstatus tgt = JStr GENERATION_SUPERSEDED"
    and c: "active_generation d = Some cur" "map_of (generations d) cur = Some c" "gstatus c = JStr GENERATION_READY"
    and d1: "d1 = (put_gen gid (jdrop ''gc_protected'' (jput ''status'' (JStr GENERATION_READY) tgt))
             (put_gen cur (supersede p c) d))\<lparr>active_generation := Some gid\<rparr>"
    by (rule rollback_shape)
  from t c have ne: "cur \<noteq> gid" by auto
  from assms(1) t c have o: "is_obj tgt" "is_obj c"
    by (auto simp: kb_inv_def valid_generation_True dest: valid_gens_lookup)
  define t1 where "t1 = jdrop ''gc_protected'' (jput ''status'' (JStr GENERATION_READY) tgt)"
  define c1 where "c1 = supersede p c"
  define t2 where "t2 = supersede q t1"
  define c2 where "c2 = jdrop ''gc_protected'' (jput ''status'' (JStr GENERATION_READY) c1)"
  have ob: "is_obj t1" "is_obj c1" using o by (simp_all add: t1_def c1_def supersede_def Let_def)
  have st: "gstatus t1 = JStr GENERATION_READY" "gstatus c1 = JStr GENERATION_SUPERSEDED"
    "gstatus t2 = JStr GENERATION_SUPERSEDED" "gstatus c2 = JStr GENERATION_READY"
    using o ob by (simp_all add: t1_def c1_def t2_def c2_def gstatus_supersede jfield_put jfield_drop)
  let ?d2 = "(put_gen cur c2 (put_gen gid t2 d1))\<lparr>active_generation := Some cur\<rparr>"
  have d1': "active_generation d1 = Some gid" "map_of (generations d1) gid = Some t1"
    "map_of (generations d1) cur = Some c1"
    using ne by (simp_all add: d1 t1_def [symmetric] c1_def [symmetric] put_gen_def map_of_jset)
  have d2: "rollback_active_data cur (Some gid) q d1 = Inr (gid, ?d2)"
    by (simp add: rollback_active_data_def find_gen_def d1' st t2_def c2_def)
  from preserves_rollback assms have "kb_inv d1" by (auto simp: preserves_def)
  with preserves_rollback d2 have "kb_inv ?d2" by (auto simp: preserves_def)
  moreover have "map_option gstatus (map_of (generations ?d2) g) = map_option gstatus (map_of (generations d) g)" for g
    using ne st t c
    by (simp add: d1 t1_def [symmetric] c1_def [symmetric] put_gen_def map_of_jset)
  moreover have "active_generation ?d2 = active_generation d" using c by simp
  ultimately show ?thesis using c d1'(1) d2 by blast
qed

theorem rollback_roundtrip_witness:
  "\<exists>d d1 d2. kb_inv d \<and> rollback_active_data ''a'' None True d = Inr (''b'', d1)
     \<and> rollback_active_data ''b'' (Some ''a'') False d1 = Inr (''a'', d2)
     \<and> active_generation d2 = active_generation d"
proof -
  let ?n = "\<lambda>g. jput ''expected_count'' (JInt 1) (new_generation g ''bge'' ''v1'' None 0 5)"
  let ?a = "jput ''status'' (JStr GENERATION_SUPERSEDED) (?n ''a'')"
    and ?b = "jput ''status'' (JStr GENERATION_READY) (?n ''b'')"
  let ?d = "\<lparr>active_generation = Some ''b'', generations = [(''a'', ?a), (''b'', ?b)]\<rparr>"
  have o: "is_obj (new_generation g ''bge'' ''v1'' None 0 5)" for g by (simp add: new_generation_def)
  have "valid_generation ''a'' ?a = Inr True" "valid_generation ''b'' ?b = Inr True"
    using valid_new_generation [of "''bge''" "''v1''" None 0 5 "''a''"]
      valid_new_generation [of "''bge''" "''v1''" None 0 5 "''b''"] o
    by (simp_all add: valid_generation_True json_simps valid_expected_def)
  then have inv: "kb_inv ?d" using o by (simp add: kb_inv_def valid_gens_def active_ok_def json_simps)
  obtain d1 where r: "rollback_active_data ''a'' None True ?d = Inr (''b'', d1)"
    using o by (simp add: rollback_active_data_def find_gen_def json_simps)
  from rollback_roundtrip [OF inv r, of False] inv r show ?thesis by blast
qed

end
