(* ===== verification/Lifecycle.thy ===== *)
theory Lifecycle
  imports Durable
begin

text \<open>
  The lifecycle store (\<open>service/kb_lifecycle.py\<close>): the active / deleting / deleted mark of every
  knowledge base, kept outside the knowledge base's directory.  \<open>lifecycle_authority\<close> is the
  interface \<open>bind_shared_lifecycle_store\<close> asks of a store, \<open>status\<close> and \<open>set\<close>.
\<close>

section \<open>The file-backed store\<close>

definition LIFECYCLE_ACTIVE :: string where "LIFECYCLE_ACTIVE = ''active''"
definition LIFECYCLE_DELETING :: string where "LIFECYCLE_DELETING = ''deleting''"
definition LIFECYCLE_DELETED :: string where "LIFECYCLE_DELETED = ''deleted''"

lemmas lifecycle_marks = LIFECYCLE_ACTIVE_def LIFECYCLE_DELETING_def LIFECYCLE_DELETED_def

definition valid_mark :: "string \<Rightarrow> bool" where
  "valid_mark m = (m \<in> {LIFECYCLE_ACTIVE, LIFECYCLE_DELETING, LIFECYCLE_DELETED})"

fun valid_mark_json :: "json \<Rightarrow> bool" where
  "valid_mark_json (JStr m) = valid_mark m"
| "valid_mark_json _ = False"

text \<open>
  The scan \<open>any(... v not in _VALID ...)\<close> of \<open>_load\<close>, in dictionary order: it stops at the first
  entry that is not a mark, and testing an unhashable value for membership raises.
\<close>

fun lc_scan :: "jdict \<Rightarrow> unit res" where
  "lc_scan [] = Inr ()"
| "lc_scan ((k, v) # d) =
     (if \<not> hashable v then Inl (TypeError ''unhashable type'')
      else if \<not> valid_mark_json v then Inl JSONDecodeError
      else lc_scan d)"

text \<open>\<open>LifecycleStore._load\<close>\<close>

definition lc_load :: "durable \<Rightarrow> jdict res" where
  "lc_load s =
     (case content s of
        NoFile \<Rightarrow> Inr []
      | BadJson \<Rightarrow> Inl JSONDecodeError
      | BadUtf8 \<Rightarrow> Inl UnicodeError
      | IOFail \<Rightarrow> Inl OSError
      | Doc (JObj d) \<Rightarrow> bindR (lc_scan d) (\<lambda>_. Inr d)
      | Doc _ \<Rightarrow> Inl JSONDecodeError)"

text \<open>\<open>_load_or_corrupt\<close>: \<open>None\<close> is the pair (\<open>{}\<close>, \<open>True\<close>).\<close>

definition lc_load_or_corrupt :: "durable \<Rightarrow> jdict option res" where
  "lc_load_or_corrupt s =
     (case lc_load s of
        Inr d \<Rightarrow> Inr (Some d)
      | Inl e \<Rightarrow> if e = JSONDecodeError then Inr None else Inl e)"

text \<open>\<open>LifecycleStore.status\<close>\<close>

definition lc_status :: "string \<Rightarrow> durable \<Rightarrow> string res" where
  "lc_status kb s =
     (if degraded s then Inr LIFECYCLE_DELETING
      else bindR (lc_load_or_corrupt s) (\<lambda>r. case r of
          None \<Rightarrow> Inr LIFECYCLE_DELETING
        | Some d \<Rightarrow> Inr (case map_of d kb of
              None \<Rightarrow> LIFECYCLE_ACTIVE
            | Some (JStr m) \<Rightarrow> (if valid_mark m then m else LIFECYCLE_DELETING)
            | Some _ \<Rightarrow> LIFECYCLE_DELETING)))"

text \<open>\<open>LifecycleStore.set\<close>\<close>

definition lc_set :: "string \<Rightarrow> string \<Rightarrow> io \<Rightarrow> durable \<Rightarrow> unit res \<times> durable" where
  "lc_set kb m i s =
     (if \<not> valid_mark m then (Inl (ValueError ''invalid lifecycle status''), s)
      else if degraded s then (Inl (RuntimeError ''degraded''), s)
      else case lc_load_or_corrupt s of
        Inl e \<Rightarrow> (Inl e, s)
      | Inr None \<Rightarrow> (Inl (RuntimeError ''corrupt''), quarantine_corrupt i s)
      | Inr (Some d) \<Rightarrow>
          (case save_file i (JObj (jset kb (JStr m) d)) (content s) of
             (Inl e, c) \<Rightarrow> (Inl e, s\<lparr>content := c\<rparr>)
           | (Inr _, c) \<Rightarrow> (Inr (), s\<lparr>content := c\<rparr>)))"

section \<open>Lemmas\<close>

lemma lc_scan_Inr: "lc_scan d = Inr u \<longleftrightarrow> (\<forall>p \<in> set d. valid_mark_json (snd p))"
proof (induction d)
  case (Cons p d)
  obtain k v where p: "p = (k, v)" by (cases p)
  show ?case
    using Cons by (cases v) (auto simp: p)
qed simp

lemma lc_scan_jset: "lc_scan d = Inr u \<Longrightarrow> valid_mark m \<Longrightarrow> lc_scan (jset kb (JStr m) d) = Inr ()"
  by (induction d) (auto split: if_splits)

lemma valid_marks [simp]: "valid_mark LIFECYCLE_ACTIVE" "valid_mark LIFECYCLE_DELETING"
    "valid_mark LIFECYCLE_DELETED"
  by (auto simp: valid_mark_def)

text \<open>A readable store: not degraded, and its file is absent or a valid table.\<close>

definition lc_table :: "durable \<Rightarrow> jdict \<Rightarrow> bool" where
  "lc_table s d \<longleftrightarrow> \<not> degraded s \<and> lc_load s = Inr d"

lemma lc_tableD: "lc_table s d \<Longrightarrow> lc_load_or_corrupt s = Inr (Some d)"
  by (simp add: lc_table_def lc_load_or_corrupt_def)

lemma lc_load_scan: "lc_load s = Inr d \<Longrightarrow> lc_scan d = Inr ()"
  by (auto simp: lc_load_def split: fcontent.splits json.splits)

lemma lc_table_marks: "lc_table s d \<Longrightarrow> map_of d kb = Some v \<Longrightarrow> \<exists>m. v = JStr m \<and> valid_mark m"
  by (cases v) (force simp: lc_table_def lc_scan_Inr dest!: lc_load_scan map_of_SomeD)+

lemma lc_status_table:
  assumes "lc_table s d"
  shows "lc_status kb s = Inr (case map_of d kb of Some (JStr m) \<Rightarrow> m | _ \<Rightarrow> LIFECYCLE_ACTIVE)"
proof (cases "map_of d kb")
  case None
  with assms show ?thesis by (simp add: lc_status_def lc_tableD [OF assms] lc_table_def)
next
  case (Some v)
  with lc_table_marks [OF assms] obtain m where "v = JStr m" "valid_mark m" by blast
  with Some assms show ?thesis by (simp add: lc_status_def lc_tableD [OF assms] lc_table_def)
qed

lemma lc_set_table:
  assumes t: "lc_table s d" and m: "valid_mark m" and s': "lc_set kb m i s = (r, s')"
  shows "lc_table s' (jset kb (JStr m) d) \<or> (lc_table s' d \<and> r = Inl OSError)"
proof -
  let ?nd = "jset kb (JStr m) d"
  have sc: "lc_scan ?nd = Inr ()"
    using t m by (auto simp: lc_table_def intro: lc_scan_jset lc_load_scan)
  have stored: "lc_table (s\<lparr>content := Doc (JObj ?nd)\<rparr>) ?nd"
    using t by (simp add: lc_table_def lc_load_def sc)
  obtain r0 c where sv: "save_file i (JObj ?nd) (content s) = (r0, c)" by fastforce
  from t have nd: "\<not> degraded s" by (simp add: lc_table_def)
  from sv show ?thesis
    by (cases rule: save_file_cases)
       (use s' sv stored t nd m in \<open>auto simp: lc_set_def lc_tableD [OF t]\<close>)
qed

section \<open>The interface of a lifecycle authority\<close>

locale lifecycle_authority =
  fixes status :: "string \<Rightarrow> 's \<Rightarrow> string res"
    and set_status :: "string \<Rightarrow> string \<Rightarrow> 'i \<Rightarrow> 's \<Rightarrow> unit res \<times> 's"
    and readable :: "'s \<Rightarrow> bool"
  assumes readable_set: "readable s \<Longrightarrow> valid_mark m \<Longrightarrow> readable (snd (set_status kb m i s))"
    and invalid_mark: "\<not> valid_mark m \<Longrightarrow> snd (set_status kb m i s) = s \<and> \<not> is_ok (fst (set_status kb m i s))"
    and set_same: "readable s \<Longrightarrow> set_status kb m i s = (Inr u, s') \<Longrightarrow> status kb s' = Inr m"
    and set_other: "readable s \<Longrightarrow> kb' \<noteq> kb \<Longrightarrow> status kb' (snd (set_status kb m i s)) = status kb' s"
begin

fun sets :: "(string \<times> string \<times> 'i) list \<Rightarrow> 's \<Rightarrow> 's" where
  "sets [] s = s"
| "sets ((kb, m, i) # ops) s = sets ops (snd (set_status kb m i s))"

lemma readable_step: "readable s \<Longrightarrow> readable (snd (set_status kb m i s))"
  by (cases "valid_mark m") (simp_all add: readable_set invalid_mark)

lemma sets_other:
  "readable s \<Longrightarrow> kb \<notin> fst ` set ops \<Longrightarrow> readable (sets ops s) \<and> status kb (sets ops s) = status kb s"
proof (induction ops arbitrary: s)
  case (Cons op ops)
  obtain kb' m i where op: "op = (kb', m, i)" by (cases op)
  let ?s = "snd (set_status kb' m i s)"
  have "status kb ?s = status kb s" using Cons.prems op by (auto intro: set_other)
  moreover from Cons.prems op have "readable (sets ops ?s) \<and> status kb (sets ops ?s) = status kb ?s"
    by (intro Cons.IH readable_step) auto
  ultimately show ?case by (simp add: op)
qed simp

end

definition lc_readable :: "durable \<Rightarrow> bool" where
  "lc_readable s \<longleftrightarrow> \<not> degraded s \<and> is_ok (lc_load s)"

lemma lc_readableE: "lc_readable s \<Longrightarrow> (\<And>d. lc_table s d \<Longrightarrow> P) \<Longrightarrow> P"
  by (cases "lc_load s") (auto simp: lc_readable_def lc_table_def)

lemma lc_table_readable: "lc_table s d \<Longrightarrow> lc_readable s"
  by (auto simp: lc_readable_def lc_table_def)

interpretation file_lifecycle: lifecycle_authority lc_status lc_set lc_readable
proof unfold_locales
  show "lc_readable (snd (lc_set kb m i s))" if "lc_readable s" "valid_mark m" for kb m i s
    using lc_set_table [OF _ that(2) prod.collapse [symmetric], of s _ kb i] that(1)
    by (blast elim: lc_readableE intro: lc_table_readable)
  show "snd (lc_set kb m i s) = s \<and> \<not> is_ok (fst (lc_set kb m i s))" if "\<not> valid_mark m" for kb m i s
    using that by (simp add: lc_set_def)
  show "lc_status kb s' = Inr m" if r: "lc_readable s" and e: "lc_set kb m i s = (Inr u, s')" for kb m i s u s'
  proof -
    from e have m: "valid_mark m" by (auto simp: lc_set_def split: if_splits)
    from r obtain d where "lc_table s d" by (rule lc_readableE)
    from lc_set_table [OF this m e] show ?thesis by (auto simp: lc_status_table map_of_jset)
  qed
  show "lc_status kb' (snd (lc_set kb m i s)) = lc_status kb' s" if r: "lc_readable s" and "kb' \<noteq> kb"
    for kb kb' m i s
  proof (cases "valid_mark m")
    case True
    from r obtain d where t: "lc_table s d" by (rule lc_readableE)
    from lc_set_table [OF t True prod.collapse [symmetric], of kb i] t \<open>kb' \<noteq> kb\<close>
    show ?thesis by (auto simp: lc_status_table map_of_jset)
  qed (simp add: lc_set_def)
qed

section \<open>Properties\<close>

text \<open>The lifecycle store fails closed: a knowledge base is reported active exactly when no
  degraded marker exists and the file is absent, or is an object all of whose values are marks
  and in which this knowledge base is unmarked or marked active.  Every other readable answer is
  deleting or deleted.\<close>

theorem lc_status_active_iff:
  "lc_status kb s = Inr LIFECYCLE_ACTIVE \<longleftrightarrow>
     \<not> degraded s \<and>
     (content s = NoFile \<or>
      (\<exists>d. content s = Doc (JObj d) \<and> list_all (\<lambda>(k, v). valid_mark_json v) d \<and>
           map_of d kb \<in> {None, Some (JStr LIFECYCLE_ACTIVE)}))"
proof (cases "lc_load s")
  case (Inl e)
  have "lc_scan d \<noteq> Inr ()" if "content s = Doc (JObj d)" for d
    using Inl that by (auto simp: lc_load_def)
  then have "\<not> list_all (\<lambda>(k, v). valid_mark_json v) d" if "content s = Doc (JObj d)" for d
    using that by (auto simp: lc_scan_Inr list_all_iff split_beta)
  moreover have "content s \<noteq> NoFile" using Inl by (auto simp: lc_load_def)
  moreover have "lc_status kb s \<noteq> Inr LIFECYCLE_ACTIVE"
    using Inl by (auto simp: lc_status_def lc_load_or_corrupt_def lifecycle_marks)
  ultimately show ?thesis by blast
next
  case (Inr d)
  show ?thesis
  proof (cases "degraded s")
    case True
    then show ?thesis by (simp add: lc_status_def lifecycle_marks)
  next
    case False
    with Inr have t: "lc_table s d" by (simp add: lc_table_def)
    have sc: "\<And>d'. list_all (\<lambda>(k, v). valid_mark_json v) d' \<longleftrightarrow> lc_scan d' = Inr ()"
      by (simp add: lc_scan_Inr list_all_iff split_beta)
    from Inr have c: "content s = NoFile \<and> d = [] \<or> content s = Doc (JObj d) \<and> lc_scan d = Inr ()"
      by (auto simp: lc_load_def split: fcontent.splits json.splits)
    have "lc_status kb s = Inr LIFECYCLE_ACTIVE \<longleftrightarrow> map_of d kb \<in> {None, Some (JStr LIFECYCLE_ACTIVE)}"
      using lc_table_marks [OF t, of kb] by (cases "map_of d kb") (auto simp: lc_status_table [OF t])
    with c False show ?thesis by (auto simp: sc)
  qed
qed

text \<open>A tombstone survives other knowledge bases' mutations: starting from a readable store,
  any sequence of \<open>set\<close> calls for other knowledge bases, with any marks and any write faults,
  leaves the store readable and this knowledge base's status unchanged.\<close>

theorem lc_tombstone_kept:
  assumes "lc_readable s" and "lc_status kb s = Inr m" and "kb \<notin> fst ` set ops"
  shows "lc_readable (file_lifecycle.sets ops s) \<and> lc_status kb (file_lifecycle.sets ops s) = Inr m"
  using file_lifecycle.sets_other [OF assms(1,3)] assms(2) by simp

theorem lc_tombstone_kept_witness:
  "let s = \<lparr>content = Doc (JObj [(''gone'', JStr LIFECYCLE_DELETED)]), degraded = False\<rparr>
   in lc_status ''gone'' (file_lifecycle.sets [(''new'', LIFECYCLE_ACTIVE, good_io)] s)
      = Inr LIFECYCLE_DELETED"
proof -
  let ?s = "\<lparr>content = Doc (JObj [(''gone'', JStr LIFECYCLE_DELETED)]), degraded = False\<rparr>"
  have "lc_readable ?s" by (simp add: lc_readable_def lc_load_def)
  moreover have "lc_status ''gone'' ?s = Inr LIFECYCLE_DELETED"
    by (simp add: lc_status_def lc_load_or_corrupt_def lc_load_def)
  ultimately show ?thesis
    using lc_tombstone_kept [of ?s "''gone''" LIFECYCLE_DELETED "[(''new'', LIFECYCLE_ACTIVE, good_io)]"]
    by simp
qed

end
