(* ===== verification/Purge_Queue.thy ===== *)
theory Purge_Queue
  imports Durable
begin

text \<open>
  The purge queue (\<open>service/purge_queue.py\<close>): the durable list of external index resources that a
  deleted generation leaves behind, each with the time before which it must not be purged.  An item
  is a JSON object; the file holds a list of them.
\<close>

section \<open>Items\<close>

definition is_hex :: "char \<Rightarrow> bool" where
  "is_hex c = (let n = ord_char c in (48 \<le> n \<and> n \<le> 57) \<or> (97 \<le> n \<and> n \<le> 102))"

text \<open>\<open>_SEGMENT_ID.fullmatch\<close>: five groups of lower-case hexadecimal digits.\<close>

fun hex_groups :: "nat list \<Rightarrow> string \<Rightarrow> bool" where
  "hex_groups [] s \<longleftrightarrow> s = []"
| "hex_groups [n] s \<longleftrightarrow> length s = n \<and> list_all is_hex s"
| "hex_groups (n # ns) s \<longleftrightarrow>
     n < length s \<and> list_all is_hex (take n s) \<and> s ! n = CHR ''-'' \<and> hex_groups ns (drop (Suc n) s)"

definition segment_id :: "string \<Rightarrow> bool" where
  "segment_id s = hex_groups [8, 4, 4, 4, 12] s"

fun is_segment :: "json \<Rightarrow> bool" where
  "is_segment (JStr s) = segment_id s"
| "is_segment _ = False"

text \<open>\<open>math.isfinite\<close> converts an integer to a float first: beyond the float range that raises.\<close>

fun py_isfinite :: "json \<Rightarrow> bool res" where
  "py_isfinite (JInt i) = (if 2 ^ 1024 - 2 ^ 970 \<le> \<bar>i\<bar> then Inl OverflowError else Inr True)"
| "py_isfinite (JFloat x) = Inr (isfinite x)"
| "py_isfinite _ = Inl (TypeError ''must be real number'')"

fun is_number :: "json \<Rightarrow> bool" where
  "is_number (JInt _) = True"
| "is_number (JFloat _) = True"
| "is_number _ = False"

fun arr_items :: "json \<Rightarrow> json list option" where
  "arr_items (JArr xs) = Some xs"
| "arr_items _ = None"

definition item_segments :: "json \<Rightarrow> json" where
  "item_segments item = (if jhas item ''segment_ids'' then jfield item ''segment_ids'' else JArr [])"

definition valid_segments :: "json \<Rightarrow> bool" where
  "valid_segments j =
     (case arr_items j of
        None \<Rightarrow> False
      | Some xs \<Rightarrow> length xs \<le> 64 \<and> list_all is_segment xs \<and> distinct xs)"

definition valid_item :: "json \<Rightarrow> bool res" where
  "valid_item item =
     (if \<not> (is_obj item \<and> is_nonempty_str (jfield item ''kb_id'') \<and> is_nonempty_str (jfield item ''gen_id'')
             \<and> is_number (jfield item ''not_before'')) then Inr False
      else bindR (py_isfinite (jfield item ''not_before'')) (\<lambda>fin.
        Inr (fin \<and> 0 \<le> num_val (jfield item ''not_before'') \<and> valid_segments (item_segments item))))"

section \<open>Loading\<close>

text \<open>\<open>all(_valid_item(i) for i in data)\<close>\<close>

fun all_valid :: "json list \<Rightarrow> bool res" where
  "all_valid [] = Inr True"
| "all_valid (x # xs) = bindR (valid_item x) (\<lambda>ok. if ok then all_valid xs else Inr False)"

definition pq_load :: "durable \<Rightarrow> json list res" where
  "pq_load s =
     (case content s of
        NoFile \<Rightarrow> Inr []
      | BadJson \<Rightarrow> Inl JSONDecodeError
      | BadUtf8 \<Rightarrow> Inl UnicodeError
      | IOFail \<Rightarrow> Inl OSError
      | Doc (JArr xs) \<Rightarrow> bindR (all_valid xs) (\<lambda>ok. if ok then Inr xs else Inl JSONDecodeError)
      | Doc _ \<Rightarrow> Inl JSONDecodeError)"

text \<open>\<open>_load_or_corrupt\<close>: \<open>None\<close> is the pair (\<open>[]\<close>, \<open>True\<close>).\<close>

definition pq_load_or_corrupt :: "durable \<Rightarrow> json list option res" where
  "pq_load_or_corrupt s =
     (case pq_load s of
        Inr xs \<Rightarrow> Inr (Some xs)
      | Inl e \<Rightarrow> if e = JSONDecodeError then Inr None else Inl e)"

definition pq_load_safe :: "io \<Rightarrow> durable \<Rightarrow> json list res \<times> durable" where
  "pq_load_safe i s =
     (if degraded s then (Inl (PurgeQueueCorruptError ''degraded''), s)
      else case pq_load_or_corrupt s of
        Inl e \<Rightarrow> (Inl e, s)
      | Inr None \<Rightarrow> (Inl (PurgeQueueCorruptError ''quarantined''), quarantine_corrupt i s)
      | Inr (Some xs) \<Rightarrow> (Inr xs, s))"

definition pq_save :: "io \<Rightarrow> json list \<Rightarrow> durable \<Rightarrow> unit res \<times> durable" where
  "pq_save i xs s = (case save_file i (JArr xs) (content s) of (r, c) \<Rightarrow> (r, s\<lparr>content := c\<rparr>))"

section \<open>Operations\<close>

definition has_key :: "string \<Rightarrow> string \<Rightarrow> json \<Rightarrow> bool" where
  "has_key kb gid item \<longleftrightarrow> jfield item ''kb_id'' = JStr kb \<and> jfield item ''gen_id'' = JStr gid"

definition norm_segments :: "string list \<Rightarrow> string list" where
  "norm_segments ss = sort (remdups ss)"

definition new_item :: "string \<Rightarrow> string \<Rightarrow> json \<Rightarrow> string list \<Rightarrow> json" where
  "new_item kb gid nb segs =
     JObj ([(''kb_id'', JStr kb), (''gen_id'', JStr gid), (''not_before'', nb)] @
           (if segs = [] then [] else [(''segment_ids'', JArr (map JStr segs))]))"

fun seg_str :: "json \<Rightarrow> string" where
  "seg_str (JStr s) = s"
| "seg_str _ = []"

text \<open>\<open>list(existing.get("segment_ids") or [])\<close> of a valid item.\<close>

definition old_segments :: "json \<Rightarrow> string list" where
  "old_segments item = (case arr_items (item_segments item) of None \<Rightarrow> [] | Some xs \<Rightarrow> map seg_str xs)"

text \<open>\<open>min(a, b)\<close>: the first argument unless the second is smaller.\<close>

definition py_min :: "json \<Rightarrow> json \<Rightarrow> json" where
  "py_min a b = (if num_val b < num_val a then b else a)"

definition merge_item :: "json \<Rightarrow> string list \<Rightarrow> json \<Rightarrow> json" where
  "merge_item nb segs existing =
     (let merged = norm_segments (old_segments existing @ segs);
          e1 = jput ''not_before'' (py_min (jfield existing ''not_before'') nb) existing
      in if merged \<noteq> old_segments existing then jput ''segment_ids'' (JArr (map JStr merged)) e1 else e1)"

definition merge_changed :: "json \<Rightarrow> string list \<Rightarrow> json \<Rightarrow> bool" where
  "merge_changed nb segs existing \<longleftrightarrow>
     num_val nb < num_val (jfield existing ''not_before'') \<or>
     norm_segments (old_segments existing @ segs) \<noteq> old_segments existing"

text \<open>The existing item is replaced in place: the first one with the key.\<close>

fun replace_first :: "(json \<Rightarrow> bool) \<Rightarrow> json \<Rightarrow> json list \<Rightarrow> json list" where
  "replace_first p y [] = []"
| "replace_first p y (x # xs) = (if p x then y # xs else x # replace_first p y xs)"

definition pq_add :: "string \<Rightarrow> string \<Rightarrow> json \<Rightarrow> string list \<Rightarrow> io \<Rightarrow> durable \<Rightarrow> unit res \<times> durable" where
  "pq_add kb gid nb segment_ids i s =
     (case pq_load_safe i s of
        (Inl e, s') \<Rightarrow> (Inl e, s')
      | (Inr items, s') \<Rightarrow>
          if \<not> list_all segment_id segment_ids then (Inl (ValueError ''segment ids are invalid''), s')
          else let segs = norm_segments segment_ids in
          if 64 < length segs then (Inl (ValueError ''too many segment ids''), s')
          else (case valid_item (new_item kb gid nb segs) of
              Inl e \<Rightarrow> (Inl e, s')
            | Inr False \<Rightarrow> (Inl (ValueError ''item is invalid''), s')
            | Inr True \<Rightarrow>
                (case find (has_key kb gid) items of
                   None \<Rightarrow> pq_save i (items @ [new_item kb gid nb segs]) s'
                 | Some existing \<Rightarrow>
                     if 64 < length (norm_segments (old_segments existing @ segs))
                     then (Inl (ValueError ''too many segment ids''), s')
                     else (case valid_item (merge_item nb segs existing) of
                         Inl e \<Rightarrow> (Inl e, s')
                       | Inr False \<Rightarrow> (Inl (ValueError ''item is invalid''), s')
                       | Inr True \<Rightarrow>
                           if merge_changed nb segs existing
                           then pq_save i (replace_first (has_key kb gid) (merge_item nb segs existing) items) s'
                           else (Inr (), s')))))"

definition pq_due :: "real \<Rightarrow> io \<Rightarrow> durable \<Rightarrow> json list res \<times> durable" where
  "pq_due now i s =
     (case pq_load_safe i s of
        (Inl e, s') \<Rightarrow> (Inl e, s')
      | (Inr items, s') \<Rightarrow> (Inr (filter (\<lambda>x. num_val (jfield x ''not_before'') \<le> now) items), s'))"

definition pq_remove :: "string \<Rightarrow> string \<Rightarrow> io \<Rightarrow> durable \<Rightarrow> unit res \<times> durable" where
  "pq_remove kb gid i s =
     (case pq_load_safe i s of
        (Inl e, s') \<Rightarrow> (Inl e, s')
      | (Inr items, s') \<Rightarrow>
          let kept = filter (\<lambda>x. \<not> has_key kb gid x) items in
          if length kept \<noteq> length items then pq_save i kept s' else (Inr (), s'))"

section \<open>Draining\<close>

text \<open>
  \<open>_purge_generation_external\<close> (\<open>service/ingest_service.py\<close>).  Its environment is a parameter: whether
  the knowledge base still has readers, the deletion of the vector collection and its retained
  segments (a third-party store), and the removal of the keyword index file; the last two report
  whether the resource is gone.
\<close>

record 'e purge_env =
  env_readers :: "string \<Rightarrow> 'e \<Rightarrow> bool"
  env_collection :: "string \<Rightarrow> string \<Rightarrow> json \<Rightarrow> 'e \<Rightarrow> bool \<times> 'e"
  env_bm25 :: "string \<Rightarrow> string \<Rightarrow> 'e \<Rightarrow> bool \<times> 'e"

definition purge_generation_external :: "'e purge_env \<Rightarrow> string \<Rightarrow> string \<Rightarrow> json \<Rightarrow> 'e \<Rightarrow> unit res \<times> 'e" where
  "purge_generation_external env kb gid segs e =
     (if env_readers env kb e then (Inl (RuntimeError ''readers in flight''), e)
      else case env_collection env kb gid segs e of
        (ok1, e1) \<Rightarrow> (case env_bm25 env kb gid e1 of
          (ok2, e2) \<Rightarrow> (if ok1 \<and> ok2 then Inr () else Inl (RuntimeError ''external resources not purged''), e2)))"

text \<open>The loop of \<open>drain_purge_queue\<close>, over its two calls: \<open>purge\<close> and \<open>remove\<close> report whether they
  returned normally, and every exception is swallowed.\<close>

fun drain_items :: "('x \<Rightarrow> 'e \<Rightarrow> bool \<times> 'e) \<Rightarrow> ('x \<Rightarrow> 's \<Rightarrow> bool \<times> 's) \<Rightarrow> 'x list \<Rightarrow> int \<Rightarrow> 's \<Rightarrow> 'e \<Rightarrow> int \<times> 's \<times> 'e" where
  "drain_items purge remove [] n s e = (n, s, e)"
| "drain_items purge remove (x # xs) n s e =
     (case purge x e of
        (False, e') \<Rightarrow> drain_items purge remove xs n s e'
      | (True, e') \<Rightarrow>
          (case remove x s of
             (False, s') \<Rightarrow> drain_items purge remove xs n s' e'
           | (True, s') \<Rightarrow> drain_items purge remove xs (n + 1) s' e'))"

definition purge_one :: "'e purge_env \<Rightarrow> json \<Rightarrow> 'e \<Rightarrow> bool \<times> 'e" where
  "purge_one env x e =
     (case purge_generation_external env (seg_str (jfield x ''kb_id'')) (seg_str (jfield x ''gen_id''))
             (item_segments x) e of (r, e') \<Rightarrow> (r = Inr (), e'))"

definition remove_one :: "(json \<Rightarrow> io) \<Rightarrow> json \<Rightarrow> durable \<Rightarrow> bool \<times> durable" where
  "remove_one ios x s =
     (case pq_remove (seg_str (jfield x ''kb_id'')) (seg_str (jfield x ''gen_id'')) (ios x) s of
        (r, s') \<Rightarrow> (r = Inr (), s'))"

definition drain_purge_queue :: "'e purge_env \<Rightarrow> real \<Rightarrow> io \<Rightarrow> (json \<Rightarrow> io) \<Rightarrow> durable \<Rightarrow> 'e \<Rightarrow> int res \<times> durable \<times> 'e" where
  "drain_purge_queue env now i ios s e =
     (case pq_due now i s of
        (Inl ex, s') \<Rightarrow> (Inl ex, s', e)
      | (Inr items, s') \<Rightarrow>
          (case drain_items (purge_one env) (remove_one ios) items 0 s' e of (n, s'', e') \<Rightarrow> (Inr n, s'', e')))"

end
