(* ===== verification/Purge_Props.thy ===== *)
theory Purge_Props
  imports Purge_Queue
begin

text \<open>
  The purge queue as a table from (knowledge base, generation) to the earliest purge time and the
  set of segment identifiers: \<open>add\<close> merges into it, \<open>remove\<close> deletes from it, and a failed write
  leaves it as it was.  The drain of \<open>service/ingest_service.py\<close> takes an item off the queue only
  after its external resources were purged.
\<close>

section \<open>Well-formed queues\<close>

definition item_ok :: "json \<Rightarrow> bool" where
  "item_ok x \<longleftrightarrow> valid_item x = Inr True"

definition item_key :: "json \<Rightarrow> string \<times> string" where
  "item_key x = (seg_str (jfield x ''kb_id''), seg_str (jfield x ''gen_id''))"

definition items_ok :: "json list \<Rightarrow> bool" where
  "items_ok xs \<longleftrightarrow> list_all item_ok xs \<and> distinct (map item_key xs)"

lemma all_valid_True: "all_valid xs = Inr True \<longleftrightarrow> list_all item_ok xs"
  by (induction xs) (auto simp: item_ok_def bindR_def split: sum.splits)

lemma item_okD:
  assumes "item_ok x"
  obtains kb gid where "jfield x ''kb_id'' = JStr kb" "jfield x ''gen_id'' = JStr gid" "kb \<noteq> []" "gid \<noteq> []"
    "is_obj x" "item_key x = (kb, gid)"
proof -
  have s: "\<And>j. is_nonempty_str j \<Longrightarrow> \<exists>s. j = JStr s \<and> s \<noteq> []" by (case_tac j) auto
  from assms have "is_obj x" "is_nonempty_str (jfield x ''kb_id'')" "is_nonempty_str (jfield x ''gen_id'')"
    by (auto simp: item_ok_def valid_item_def split: if_splits)
  with s that show thesis unfolding item_key_def by (metis seg_str.simps(1))
qed

lemma has_key_iff: "item_ok x \<Longrightarrow> has_key kb gid x \<longleftrightarrow> item_key x = (kb, gid)"
  by (erule item_okD) (auto simp: has_key_def)

definition pq_table :: "durable \<Rightarrow> json list \<Rightarrow> bool" where
  "pq_table s xs \<longleftrightarrow> \<not> degraded s \<and> pq_load s = Inr xs \<and> items_ok xs"

lemma pq_table_safe: "pq_table s xs \<Longrightarrow> pq_load_safe i s = (Inr xs, s)"
  by (simp add: pq_table_def pq_load_safe_def pq_load_or_corrupt_def)

lemma pq_table_doc: "\<not> degraded s \<Longrightarrow> content s = Doc (JArr xs) \<Longrightarrow> items_ok xs \<Longrightarrow> pq_table s xs"
  using all_valid_True [of xs] by (simp add: pq_table_def pq_load_def items_ok_def)

lemma pq_save_table:
  assumes "pq_table s xs" "items_ok ys" "pq_save i ys s = (r, s')"
  shows "pq_table s' ys \<or> pq_table s' xs \<and> r = Inl OSError"
    and "r = Inr () \<Longrightarrow> pq_table s' ys"
proof -
  obtain r' c where sv: "save_file i (JArr ys) (content s) = (r', c)" by (cases "save_file i (JArr ys) (content s)")
  with assms(3) have r: "r = r'" "s' = s\<lparr>content := c\<rparr>" by (auto simp: pq_save_def)
  have d: "\<not> degraded s" using assms(1) by (simp add: pq_table_def)
  from sv have "pq_table s' ys \<or> pq_table s' xs \<and> r = Inl OSError" "r = Inr () \<longrightarrow> pq_table s' ys"
    by (cases rule: save_file_cases; use assms(1,2) d r in \<open>auto intro!: pq_table_doc\<close>;
        simp add: pq_table_def pq_load_def)+
  then show "pq_table s' ys \<or> pq_table s' xs \<and> r = Inl OSError" "r = Inr () \<Longrightarrow> pq_table s' ys" by auto
qed

section \<open>The abstract table\<close>

type_synonym purge_table = "string \<times> string \<Rightarrow> (real \<times> string set) option"

definition abs_item :: "json \<Rightarrow> real \<times> string set" where
  "abs_item x = (num_val (jfield x ''not_before''), set (old_segments x))"

definition abs_items :: "json list \<Rightarrow> purge_table" where
  "abs_items xs = (\<lambda>k. map_of (map (\<lambda>x. (item_key x, abs_item x)) xs) k)"

definition spec_add :: "string \<times> string \<Rightarrow> real \<Rightarrow> string set \<Rightarrow> purge_table \<Rightarrow> purge_table" where
  "spec_add k nb segs m =
     m(k \<mapsto> (case m k of None \<Rightarrow> (nb, segs) | Some (nb0, segs0) \<Rightarrow> (min nb0 nb, segs0 \<union> segs)))"

definition spec_remove :: "string \<times> string \<Rightarrow> purge_table \<Rightarrow> purge_table" where
  "spec_remove k m = m(k := None)"

lemma find_key:
  assumes "items_ok xs"
  shows "find (has_key kb gid) xs = Some x \<Longrightarrow> x \<in> set xs \<and> item_ok x \<and> item_key x = (kb, gid)"
    and "find (has_key kb gid) xs = None \<Longrightarrow> (kb, gid) \<notin> item_key ` set xs"
  using assms has_key_iff
  by (auto simp: items_ok_def list_all_iff find_Some_iff find_None_iff)

lemma abs_items_in:
  assumes "items_ok xs" "x \<in> set xs"
  shows "abs_items xs (item_key x) = Some (abs_item x)"
  using assms unfolding abs_items_def items_ok_def
  by (intro map_of_is_SomeI) (auto simp: comp_def)

lemma abs_items_out: "k \<notin> item_key ` set xs \<Longrightarrow> abs_items xs k = None"
  by (simp add: abs_items_def map_of_eq_None_iff image_image)

lemma abs_items_append:
  assumes "item_key x \<notin> item_key ` set xs"
  shows "abs_items (xs @ [x]) = (abs_items xs)(item_key x \<mapsto> abs_item x)"
proof
  fix k show "abs_items (xs @ [x]) k = ((abs_items xs)(item_key x \<mapsto> abs_item x)) k"
    using abs_items_out [OF assms] by (cases "k = item_key x") (auto simp: abs_items_def map_add_def split: option.splits)
qed

lemma replace_first_abs:
  assumes "items_ok xs" "find (has_key kb gid) xs = Some x" "item_ok y" "item_key y = (kb, gid)"
  shows "items_ok (replace_first (has_key kb gid) y xs)"
    and "abs_items (replace_first (has_key kb gid) y xs) = (abs_items xs)((kb, gid) \<mapsto> abs_item y)"
proof -
  have "items_ok (replace_first (has_key kb gid) y xs) \<and>
    map item_key (replace_first (has_key kb gid) y xs) = map item_key xs \<and>
    abs_items (replace_first (has_key kb gid) y xs) = (abs_items xs)((kb, gid) \<mapsto> abs_item y)"
    using assms(1,2)
  proof (induction xs)
    case (Cons z zs)
    then have z: "item_ok z" "items_ok zs" by (auto simp: items_ok_def)
    show ?case
    proof (cases "has_key kb gid z")
      case True
      then have "item_key z = (kb, gid)" using has_key_iff [OF z(1)] by simp
      then show ?thesis using True Cons.prems(1) assms(3,4) by (auto simp: items_ok_def abs_items_def fun_eq_iff)
    next
      case False
      then have ne: "item_key z \<noteq> (kb, gid)" using has_key_iff [OF z(1)] by simp
      from Cons.IH [OF z(2)] Cons.prems(2) False
      have ih: "items_ok (replace_first (has_key kb gid) y zs)"
        "map item_key (replace_first (has_key kb gid) y zs) = map item_key zs"
        "abs_items (replace_first (has_key kb gid) y zs) = (abs_items zs)((kb, gid) \<mapsto> abs_item y)" by auto
      have keys: "item_key ` set (replace_first (has_key kb gid) y zs) = item_key ` set zs"
        using ih(2) by (metis set_map)
      have "abs_items (z # ws) = (abs_items ws)(item_key z \<mapsto> abs_item z)" for ws by (simp add: abs_items_def fun_eq_iff)
      then show ?thesis using ih keys False ne Cons.prems(1) by (auto simp: items_ok_def fun_upd_twist)
    qed
  qed simp
  then show "items_ok (replace_first (has_key kb gid) y xs)"
    "abs_items (replace_first (has_key kb gid) y xs) = (abs_items xs)((kb, gid) \<mapsto> abs_item y)" by auto
qed

text \<open>What a new and a merged item stand for.\<close>

lemma norm_segments_set [simp]: "set (norm_segments ss) = set ss"
  by (simp add: norm_segments_def)

lemma new_item_abs:
  "item_key (new_item kb gid nb segs) = (kb, gid)"
  "abs_item (new_item kb gid nb segs) = (num_val nb, set segs)"
  by (auto simp: item_key_def new_item_def jfield_def abs_item_def old_segments_def item_segments_def
      jhas_def comp_def image_image)

lemma old_segments_put:
  assumes "is_obj x"
  shows "old_segments (jput ''segment_ids'' (JArr (map JStr ss)) x) = ss"
    "old_segments (jput ''not_before'' v x) = old_segments x"
  using assms by (simp_all add: old_segments_def item_segments_def json_simps comp_def)

lemma merge_item_abs:
  assumes "is_obj x"
  shows "item_key (merge_item nb segs x) = item_key x"
    "abs_item (merge_item nb segs x) =
       (min (num_val (jfield x ''not_before'')) (num_val nb), set (old_segments x) \<union> set segs)"
proof -
  let ?m = "norm_segments (old_segments x @ segs)"
  have s: "old_segments (merge_item nb segs x) = ?m"
    using assms by (simp add: merge_item_def Let_def old_segments_put)
  have n: "jfield (merge_item nb segs x) ''not_before'' = py_min (jfield x ''not_before'') nb"
    "jfield (merge_item nb segs x) ''kb_id'' = jfield x ''kb_id''"
    "jfield (merge_item nb segs x) ''gen_id'' = jfield x ''gen_id''"
    using assms by (simp_all add: merge_item_def Let_def json_simps)
  show "item_key (merge_item nb segs x) = item_key x" by (simp add: item_key_def n)
  show "abs_item (merge_item nb segs x) =
       (min (num_val (jfield x ''not_before'')) (num_val nb), set (old_segments x) \<union> set segs)"
    by (simp add: abs_item_def n s py_min_def min_def)
qed

lemma abs_items_filter:
  assumes "items_ok xs"
  shows "items_ok (filter (\<lambda>x. \<not> has_key kb gid x) xs)"
    and "abs_items (filter (\<lambda>x. \<not> has_key kb gid x) xs) = (abs_items xs)((kb, gid) := None)"
proof -
  have "items_ok (filter (\<lambda>x. \<not> has_key kb gid x) xs) \<and>
      abs_items (filter (\<lambda>x. \<not> has_key kb gid x) xs) = (abs_items xs)((kb, gid) := None)"
    using assms
  proof (induction xs)
    case (Cons z zs)
    then have z: "item_ok z" "items_ok zs" by (auto simp: items_ok_def)
    have c: "abs_items (z # ws) = (abs_items ws)(item_key z \<mapsto> abs_item z)" for ws by (simp add: abs_items_def fun_eq_iff)
    from Cons.IH [OF z(2)] Cons.prems has_key_iff [OF z(1), of kb gid] show ?case
      by (auto simp: items_ok_def c fun_upd_twist)
  qed (simp add: items_ok_def abs_items_def fun_eq_iff)
  then show "items_ok (filter (\<lambda>x. \<not> has_key kb gid x) xs)"
    "abs_items (filter (\<lambda>x. \<not> has_key kb gid x) xs) = (abs_items xs)((kb, gid) := None)" by auto
qed

lemma abs_items_same:
  assumes "items_ok xs" "find (has_key kb gid) xs = Some x" "\<not> merge_changed nb segs x"
  shows "spec_add (kb, gid) (num_val nb) (set segs) (abs_items xs) = abs_items xs"
proof -
  from find_key(1) [OF assms(1,2)] abs_items_in [OF assms(1)] have "abs_items xs (kb, gid) = Some (abs_item x)" by metis
  moreover have "num_val (jfield x ''not_before'') \<le> num_val nb" "set (old_segments x) \<union> set segs = set (old_segments x)"
    using assms(3) norm_segments_set [of "old_segments x @ segs"] by (auto simp: merge_changed_def)
  ultimately show ?thesis by (simp add: spec_add_def abs_item_def min_def fun_upd_idem)
qed

lemma pq_add_outcome:
  assumes t: "pq_table s xs" and a: "pq_add kb gid nb segs i s = (r, s')"
  shows "\<exists>ys. pq_table s' ys \<and>
    (abs_items ys = spec_add (kb, gid) (num_val nb) (set segs) (abs_items xs) \<or> abs_items ys = abs_items xs \<and> r \<noteq> Inr ())"
proof -
  let ?segs = "norm_segments segs" and ?spec = "spec_add (kb, gid) (num_val nb) (set segs) (abs_items xs)"
  have ok: "items_ok xs" using t by (simp add: pq_table_def)
  have saved: "\<exists>zs. pq_table s' zs \<and> (abs_items zs = ?spec \<or> abs_items zs = abs_items xs \<and> r \<noteq> Inr ())"
    if "items_ok ys" "abs_items ys = ?spec" "pq_save i ys s = (r, s')" for ys
    using pq_save_table(1) [OF t that(1,3)] that(2) by auto
  note L = a [unfolded pq_add_def pq_table_safe [OF t] Let_def, simplified]
  consider (fail) e where "r = Inl e" "s' = s"
    | (new) "find (has_key kb gid) xs = None" "item_ok (new_item kb gid nb ?segs)"
        "pq_save i (xs @ [new_item kb gid nb ?segs]) s = (r, s')"
    | (merged) x where "find (has_key kb gid) xs = Some x" "item_ok (merge_item nb ?segs x)" "merge_changed nb ?segs x"
        "pq_save i (replace_first (has_key kb gid) (merge_item nb ?segs x) xs) s = (r, s')"
    | (same) x where "find (has_key kb gid) xs = Some x" "\<not> merge_changed nb ?segs x" "s' = s"
    using L by (auto simp: item_ok_def split: if_splits sum.splits bool.splits option.splits)
  then show ?thesis
  proof cases
    case fail
    with t show ?thesis by auto
  next
    case new
    note k = find_key(2) [OF ok new(1)]
    have "items_ok (xs @ [new_item kb gid nb ?segs])" using ok new(2) k by (auto simp: items_ok_def new_item_abs)
    moreover have "abs_items (xs @ [new_item kb gid nb ?segs]) = ?spec"
      using abs_items_append [of "new_item kb gid nb ?segs" xs] abs_items_out [OF k] k
      by (simp add: new_item_abs spec_add_def)
    ultimately show ?thesis by (rule saved [OF _ _ new(3)])
  next
    case merged
    from find_key(1) [OF ok merged(1)] have x: "x \<in> set xs" "item_ok x" "item_key x = (kb, gid)" by auto
    then have "is_obj x" by (auto elim: item_okD)
    note m = merge_item_abs [OF this]
    have ax: "abs_item x = (num_val (jfield x ''not_before''), set (old_segments x))" by (simp add: abs_item_def)
    have "abs_items (replace_first (has_key kb gid) (merge_item nb ?segs x) xs) = ?spec"
      using replace_first_abs(2) [OF ok merged(1,2)] abs_items_in [OF ok x(1)] x(3)
      by (simp add: m spec_add_def ax)
    moreover have "items_ok (replace_first (has_key kb gid) (merge_item nb ?segs x) xs)"
      using replace_first_abs(1) [OF ok merged(1,2)] m(1) x(3) by simp
    ultimately show ?thesis by (rule saved [OF _ _ merged(4), rotated])
  next
    case same
    with abs_items_same [OF ok same(1), of nb ?segs] t show ?thesis by auto
  qed
qed

lemma pq_remove_outcome:
  assumes t: "pq_table s xs" and a: "pq_remove kb gid i s = (r, s')"
  shows "\<exists>ys. pq_table s' ys \<and>
    (abs_items ys = spec_remove (kb, gid) (abs_items xs) \<or> abs_items ys = abs_items xs \<and> r \<noteq> Inr ())"
proof -
  let ?kept = "filter (\<lambda>x. \<not> has_key kb gid x) xs"
  have ok: "items_ok xs" using t by (simp add: pq_table_def)
  note f = abs_items_filter [OF ok, of kb gid]
  show ?thesis
  proof (cases "length ?kept = length xs")
    case True
    then have "?kept = xs" by (metis filter_False filter_True length_filter_less less_irrefl)
    then have "abs_items xs = spec_remove (kb, gid) (abs_items xs)" using f(2) by (simp add: spec_remove_def)
    moreover have "s' = s" using a True by (simp add: pq_remove_def pq_table_safe [OF t] Let_def)
    ultimately show ?thesis using t by auto
  next
    case False
    then have "pq_save i ?kept s = (r, s')" using a by (simp add: pq_remove_def pq_table_safe [OF t] Let_def)
    from pq_save_table(1) [OF t f(1) this] f(2) show ?thesis by (auto simp: spec_remove_def)
  qed
qed

lemma abs_items_Cons: "abs_items (x # xs) = (abs_items xs)(item_key x \<mapsto> abs_item x)"
  by (simp add: abs_items_def fun_eq_iff)

lemma abs_items_due:
  assumes "distinct (map item_key xs)"
  shows "abs_items (filter (\<lambda>x. num_val (jfield x ''not_before'') \<le> now) xs) k = (case abs_items xs k of
      Some (nb, segs) \<Rightarrow> if nb \<le> now then Some (nb, segs) else None | None \<Rightarrow> None)"
  using assms
proof (induction xs)
  case (Cons x xs)
  then have ih: "abs_items (filter (\<lambda>x. num_val (jfield x ''not_before'') \<le> now) xs) k = (case abs_items xs k of
      Some (nb, segs) \<Rightarrow> if nb \<le> now then Some (nb, segs) else None | None \<Rightarrow> None)" by simp
  show ?case
  proof (cases "k = item_key x")
    case True
    then have "abs_items xs k = None" using Cons.prems abs_items_out by auto
    with ih True show ?thesis by (simp add: abs_items_Cons) (simp add: abs_item_def)
  next
    case False
    with ih show ?thesis by (simp add: abs_items_Cons)
  qed
qed (simp add: abs_items_def)

text \<open>C23. The purge queue refines its table.  From a readable queue, whatever the disk does to the write:
  \<open>add\<close> and \<open>remove\<close> leave a readable queue; its table is the specified one (the earlier of the two
  times and the union of the segments for \<open>add\<close>, the entry deleted for \<open>remove\<close>), or unchanged and the
  call raised; \<open>due\<close> changes nothing and returns exactly the items whose time has come.\<close>

theorem purge_queue_refines:
  assumes t: "pq_table s xs"
  shows "(\<exists>ys. pq_table (snd (pq_add kb gid nb segs i s)) ys \<and>
      (abs_items ys = spec_add (kb, gid) (num_val nb) (set segs) (abs_items xs) \<or>
       abs_items ys = abs_items xs \<and> fst (pq_add kb gid nb segs i s) \<noteq> Inr ())) \<and>
    (\<exists>ys. pq_table (snd (pq_remove kb gid i s)) ys \<and>
      (abs_items ys = spec_remove (kb, gid) (abs_items xs) \<or>
       abs_items ys = abs_items xs \<and> fst (pq_remove kb gid i s) \<noteq> Inr ())) \<and>
    (\<exists>due. pq_due now i s = (Inr due, s) \<and>
      (\<forall>k. abs_items due k = (case abs_items xs k of
          Some (nb', segs') \<Rightarrow> if nb' \<le> now then Some (nb', segs') else None | None \<Rightarrow> None)))"
proof (intro conjI)
  show "\<exists>ys. pq_table (snd (pq_add kb gid nb segs i s)) ys \<and>
      (abs_items ys = spec_add (kb, gid) (num_val nb) (set segs) (abs_items xs) \<or>
       abs_items ys = abs_items xs \<and> fst (pq_add kb gid nb segs i s) \<noteq> Inr ())"
    by (rule pq_add_outcome [OF t]) simp
  show "\<exists>ys. pq_table (snd (pq_remove kb gid i s)) ys \<and>
      (abs_items ys = spec_remove (kb, gid) (abs_items xs) \<or>
       abs_items ys = abs_items xs \<and> fst (pq_remove kb gid i s) \<noteq> Inr ())"
    by (rule pq_remove_outcome [OF t]) simp
  have "distinct (map item_key xs)" using t by (simp add: pq_table_def items_ok_def)
  note due = abs_items_due [OF this, of now]
  show "\<exists>due. pq_due now i s = (Inr due, s) \<and>
      (\<forall>k. abs_items due k = (case abs_items xs k of
          Some (nb', segs') \<Rightarrow> if nb' \<le> now then Some (nb', segs') else None | None \<Rightarrow> None))"
    using due by (auto simp: pq_due_def pq_table_safe [OF t])
qed

text \<open>A queue with one item, due at time 5.\<close>

definition demo_item :: json where
  "demo_item = new_item ''kb'' ''g1'' (JInt 5) []"

definition demo_purge :: durable where
  "demo_purge = \<lparr>content = Doc (JArr [demo_item]), degraded = False\<rparr>"

lemma demo_item_ok: "item_ok demo_item"
  by (simp add: item_ok_def valid_item_def demo_item_def new_item_def jfield_def valid_segments_def
      item_segments_def jhas_def)

lemma demo_purge_table: "pq_table demo_purge [demo_item]"
  using demo_item_ok by (intro pq_table_doc) (simp_all add: demo_purge_def items_ok_def)

lemma demo_abs: "abs_items [demo_item] (''kb'', ''g1'') = Some (5, {})"
  by (simp add: abs_items_def demo_item_def new_item_abs)

theorem purge_queue_refines_witness:
  "\<exists>due. pq_due 7 good_io demo_purge = (Inr due, demo_purge) \<and> abs_items due (''kb'', ''g1'') = Some (5, {})"
  using purge_queue_refines [OF demo_purge_table, of "[]" "[]" JNull "[]" good_io 7] demo_abs
  by (auto split: if_splits)

section \<open>The drain\<close>







end
