(* ===== verification/KB_Delete.thy ===== *)
theory KB_Delete
  imports KB_Machine Lifecycle Purge_Props
begin

text \<open>
  The deletion of a knowledge base (\<open>delete_kb_index_transactional\<close> of \<open>service/ingest_service.py\<close>),
  which composes the lifecycle store, the epoch store, the generation state and the purge queue
  under the knowledge base's write lock.
\<close>

record delete_world =
  kbw :: world
  manifests :: "string \<Rightarrow> bool" \<comment> \<open>the knowledge base has a manifest file\<close>
  queue :: durable

text \<open>The faults of one run: of the three stores, of the removal of the manifest file, and of each
  entry of the purge queue.\<close>

record delete_io =
  io_lifecycle :: io
  io_epoch :: io
  manifest_removed :: bool
  io_purge :: "string \<Rightarrow> io"

definition remove_manifest :: "bool \<Rightarrow> string \<Rightarrow> delete_world \<Rightarrow> unit res \<times> delete_world" where
  "remove_manifest ok kb w =
     (if \<not> manifests w kb then (Inr (), w)
      else if \<not> ok then (Inl OSError, w)
      else (Inr (), w\<lparr>manifests := (manifests w)(kb := False)\<rparr>))"

text \<open>The loop of \<open>_schedule_kb_purge\<close>.  \<open>segs\<close> is \<open>collection_segment_ids\<close>, which reads the vector
  store's own database; an exception of it counts as no segments.  The timer that follows is only a
  wake-up of the drain.\<close>

fun schedule_kb_purge :: "string \<Rightarrow> json \<Rightarrow> (string \<Rightarrow> string list res) \<Rightarrow> (string \<Rightarrow> io) \<Rightarrow> string list \<Rightarrow> durable \<Rightarrow> unit res \<times> durable" where
  "schedule_kb_purge kb nb segs ios [] q = (Inr (), q)"
| "schedule_kb_purge kb nb segs ios (gid # gids) q =
     (case pq_add kb gid nb (case segs gid of Inr ss \<Rightarrow> ss | Inl _ \<Rightarrow> []) (ios gid) q of
        (Inl e, q') \<Rightarrow> (Inl e, q')
      | (Inr _, q') \<Rightarrow> schedule_kb_purge kb nb segs ios gids q')"

definition delete_kb_index_transactional ::
  "string \<Rightarrow> json \<Rightarrow> (string \<Rightarrow> string list res) \<Rightarrow> delete_io \<Rightarrow> delete_world \<Rightarrow> unit res \<times> delete_world" where
  "delete_kb_index_transactional kb nb segs i w =
     (case lc_set kb LIFECYCLE_DELETING (io_lifecycle i) (lifecycle (kbw w)) of
        (Inl e, l) \<Rightarrow> (Inl e, w\<lparr>kbw := (kbw w)\<lparr>lifecycle := l\<rparr>\<rparr>)
      | (Inr _, l) \<Rightarrow>
         (let w1 = w\<lparr>kbw := (kbw w)\<lparr>lifecycle := l\<rparr>\<rparr> in
          case epoch_bump kb (io_epoch i) (epochs (kbw w1)) of
            (Inl e, es) \<Rightarrow> (Inl e, w1\<lparr>kbw := (kbw w1)\<lparr>epochs := es\<rparr>\<rparr>)
          | (Inr _, es) \<Rightarrow>
             (let w2 = w1\<lparr>kbw := (kbw w1)\<lparr>epochs := es\<rparr>\<rparr> in
              case generation_ids kb (kbw w2) of
                Inl e \<Rightarrow> (Inl e, w2)
              | Inr gids \<Rightarrow>
                  (case remove_manifest (manifest_removed i) kb w2 of
                     (Inl e, w3) \<Rightarrow> (Inl e, w3)
                   | (Inr _, w3) \<Rightarrow>
                       (case schedule_kb_purge kb nb segs (io_purge i) gids (queue w3) of
                          (r, q) \<Rightarrow> (r, w3\<lparr>queue := q\<rparr>))))))"

definition mark_kb_deleted :: "string \<Rightarrow> io \<Rightarrow> delete_world \<Rightarrow> unit res \<times> delete_world" where
  "mark_kb_deleted kb i w =
     (case lc_set kb LIFECYCLE_DELETED i (lifecycle (kbw w)) of
        (r, l) \<Rightarrow> (r, w\<lparr>kbw := (kbw w)\<lparr>lifecycle := l\<rparr>\<rparr>))"

section \<open>Lemmas\<close>

lemma schedule_effect:
  assumes "pq_table q xs" "schedule_kb_purge kb nb segs ios gids q = (Inr (), q')"
  shows "\<exists>ys. pq_table q' ys \<and> (\<forall>gid \<in> set gids. \<exists>n ss. abs_items ys (kb, gid) = Some (n, ss) \<and> n \<le> num_val nb)
    \<and> (\<forall>k n ss. abs_items xs k = Some (n, ss) \<longrightarrow> (\<exists>n' ss'. abs_items ys k = Some (n', ss') \<and> n' \<le> n \<and> ss \<subseteq> ss'))"
  using assms
proof (induction gids arbitrary: q xs)
  case (Cons g gids)
  let ?ss = "case segs g of Inr ss \<Rightarrow> ss | Inl _ \<Rightarrow> []"
  from Cons.prems(2) obtain q1 where q1: "pq_add kb g nb ?ss (ios g) q = (Inr (), q1)"
    and rest: "schedule_kb_purge kb nb segs ios gids q1 = (Inr (), q')"
    by (auto split: prod.splits sum.splits)
  from pq_add_outcome [OF Cons.prems(1) q1] obtain zs where zs: "pq_table q1 zs"
    "abs_items zs = spec_add (kb, g) (num_val nb) (set ?ss) (abs_items xs)" by auto
  from Cons.IH [OF zs(1) rest] obtain ys where ys: "pq_table q' ys"
    "\<forall>gid \<in> set gids. \<exists>n ss. abs_items ys (kb, gid) = Some (n, ss) \<and> n \<le> num_val nb"
    "\<And>k n ss. abs_items zs k = Some (n, ss) \<Longrightarrow> \<exists>n' ss'. abs_items ys k = Some (n', ss') \<and> n' \<le> n \<and> ss \<subseteq> ss'"
    by blast
  have g: "\<exists>n ss. abs_items zs (kb, g) = Some (n, ss) \<and> n \<le> num_val nb"
    by (auto simp: zs(2) spec_add_def split: option.splits prod.splits)
  have grow: "\<exists>n' ss'. abs_items zs k = Some (n', ss') \<and> n' \<le> n \<and> ss \<subseteq> ss'" if "abs_items xs k = Some (n, ss)" for k n ss
    using that by (auto simp: zs(2) spec_add_def)
  show ?case
  proof (intro exI [of _ ys] conjI)
    show "pq_table q' ys" by (rule ys(1))
    show "\<forall>gid \<in> set (g # gids). \<exists>n ss. abs_items ys (kb, gid) = Some (n, ss) \<and> n \<le> num_val nb"
      using ys(2) g by (auto dest!: ys(3))
    show "\<forall>k n ss. abs_items xs k = Some (n, ss) \<longrightarrow> (\<exists>n' ss'. abs_items ys k = Some (n', ss') \<and> n' \<le> n \<and> ss \<subseteq> ss')"
      using grow ys(3) by (meson order_trans subset_trans)
  qed
qed auto

text \<open>A deletion that returns has run every step.\<close>

lemma deleteE:
  assumes "delete_kb_index_transactional kb nb segs i w = (Inr (), w')"
  obtains l m es gids where
    "lc_set kb LIFECYCLE_DELETING (io_lifecycle i) (lifecycle (kbw w)) = (Inr (), l)"
    "epoch_bump kb (io_epoch i) (epochs (kbw w)) = (Inr m, es)"
    "generation_ids kb ((kbw w)\<lparr>lifecycle := l, epochs := es\<rparr>) = Inr gids"
    "kbw w' = (kbw w)\<lparr>lifecycle := l, epochs := es\<rparr>" "\<not> manifests w' kb"
    "schedule_kb_purge kb nb segs (io_purge i) gids (queue w) = (Inr (), queue w')"
proof -
  let ?lc = "lc_set kb LIFECYCLE_DELETING (io_lifecycle i) (lifecycle (kbw w))"
  let ?ep = "epoch_bump kb (io_epoch i) (epochs (kbw w))"
  from assms obtain l where l: "?lc = (Inr (), l)"
    by (cases ?lc) (auto simp: delete_kb_index_transactional_def split: sum.splits)
  from assms l obtain m es where es: "?ep = (Inr m, es)"
    by (cases ?ep) (auto simp: delete_kb_index_transactional_def Let_def split: sum.splits)
  let ?w2 = "w\<lparr>kbw := (kbw w)\<lparr>lifecycle := l, epochs := es\<rparr>\<rparr>"
  from assms l es obtain gids where g: "generation_ids kb (kbw ?w2) = Inr gids"
    by (cases "generation_ids kb (kbw ?w2)") (auto simp: delete_kb_index_transactional_def Let_def)
  obtain r3 w3 where w3: "remove_manifest (manifest_removed i) kb ?w2 = (r3, w3)"
    by (cases "remove_manifest (manifest_removed i) kb ?w2")
  from assms l es g w3 have "r3 = Inr ()" and s: "schedule_kb_purge kb nb segs (io_purge i) gids (queue w3) = (Inr (), queue w')"
    and w': "kbw w' = kbw w3" "manifests w' = manifests w3"
    by (auto simp: delete_kb_index_transactional_def Let_def split: sum.splits prod.splits)
  with w3 have "kbw w3 = kbw ?w2" "queue w3 = queue w" "\<not> manifests w3 kb"
    by (auto simp: remove_manifest_def split: if_splits)
  with that l es g s w' show thesis by simp
qed

text \<open>Once the epoch has moved past the base epoch of every generation, none can be activated.\<close>

lemma switch_refused:
  assumes "kb_load False (states w kb) = Inr d" "epoch_current kb j (epochs w) = (Inr n, es)"
    and "\<And>gid gen. map_of (generations d) gid = Some gen \<Longrightarrow> jfield gen ''base_epoch'' \<noteq> JInt n"
  shows "\<not> is_ok (fst (switch_active kb gid retain j w))"
  using assms
  by (auto simp: switch_active_def kb_commit_def switch_active_data_def switch_guard_def find_gen_def is_ok_def
      split: sum.splits prod.splits option.splits)

end
