(* ===== verification/Mutation_Journal.thy ===== *)
theory Mutation_Journal
  imports KB_Machine Lifecycle
begin

text \<open>
  The crash-recovery journal of source-file mutations (\<open>service/mutation_journal.py\<close>): one JSON
  entry per job naming the target and backup paths and the generation that will commit it, the
  operations that advance an entry, and the start-up recovery that rolls each left-over entry
  forward or back according to the commit evidence in the knowledge base's \<open>state.json\<close>.

  The journal directory is a list of named files (its order is the order \<open>os.listdir\<close> gives), the
  source files are a map from paths to contents; the paths recorded in an entry lie outside the
  journal directory.  The faults the operating system injects into one operation are a record.
\<close>

section \<open>State\<close>

record jstate =
  jdir :: bool \<comment> \<open>the journal directory exists\<close>
  jfiles :: "(string \<times> fcontent) list"
  jdegraded :: bool \<comment> \<open>the \<open>.degraded\<close> marker exists\<close>
  srcs :: "string \<Rightarrow> string option"
  kbs :: world

record jio =
  jwrite :: "string \<Rightarrow> wstep option" \<comment> \<open>where writing a journal file fails\<close>
  jremove :: "string \<Rightarrow> bool" \<comment> \<open>removing a file of the journal directory succeeds\<close>
  jsync :: bool \<comment> \<open>the directory can be synced after a removal\<close>
  jrename :: "string \<Rightarrow> bool" \<comment> \<open>a corrupt entry can be renamed\<close>
  jmark :: bool \<comment> \<open>the \<open>.degraded\<close> marker can be written\<close>
  jstamp :: string \<comment> \<open>\<open>time.time_ns()\<close>\<close>
  sremove :: "string \<Rightarrow> bool"
  sreplace :: "string \<Rightarrow> bool"

definition good_jio :: jio where
  "good_jio = \<lparr>jwrite = (\<lambda>_. None), jremove = (\<lambda>_. True), jsync = True, jrename = (\<lambda>_. True),
     jmark = True, jstamp = ''0'', sremove = (\<lambda>_. True), sreplace = (\<lambda>_. True)\<rparr>"

definition OP_UPLOAD :: string where "OP_UPLOAD = ''upload''"
definition OP_DELETE_DOC :: string where "OP_DELETE_DOC = ''delete_doc''"

text \<open>\<open>_path\<close>, relative to the journal directory.\<close>

definition jpath :: "string \<Rightarrow> string" where
  "jpath job = job @ ''.json''"

definition is_entry_name :: "string \<Rightarrow> bool" where
  "is_entry_name name \<longleftrightarrow> drop (length name - 5) name = ''.json''"

section \<open>Reading and writing one entry\<close>

definition jread :: "string \<Rightarrow> jstate \<Rightarrow> fcontent" where
  "jread name s = (case map_of (jfiles s) name of None \<Rightarrow> NoFile | Some c \<Rightarrow> c)"

text \<open>\<open>open\<close> and \<open>json.load\<close>; a missing file is an \<open>OSError\<close>.\<close>

fun jparse :: "fcontent \<Rightarrow> json res" where
  "jparse NoFile = Inl OSError"
| "jparse IOFail = Inl OSError"
| "jparse BadJson = Inl JSONDecodeError"
| "jparse BadUtf8 = Inl UnicodeError"
| "jparse (Doc j) = Inr j"

definition jload :: "string \<Rightarrow> jstate \<Rightarrow> json res" where
  "jload name s = jparse (jread name s)"

definition write_name :: "jio \<Rightarrow> string \<Rightarrow> json \<Rightarrow> jstate \<Rightarrow> unit res \<times> jstate" where
  "write_name i name entry s =
     (case save_file \<lparr>w_fault = jwrite i name, replace_ok = True, marker_ok = True\<rparr> entry (jread name s) of
        (r, c) \<Rightarrow> (r, s\<lparr>jdir := (jdir s \<or> jwrite i name \<noteq> Some MakeDirs),
                      jfiles := (if c = NoFile then jfiles s else jset name c (jfiles s))\<rparr>))"

text \<open>\<open>_write\<close>\<close>

definition journal_write :: "jio \<Rightarrow> string \<Rightarrow> json \<Rightarrow> jstate \<Rightarrow> unit res \<times> jstate" where
  "journal_write i job entry s = write_name i (jpath job) entry s"

text \<open>Assigning to a key of a value that is not a dictionary raises.\<close>

definition jassign :: "string \<Rightarrow> json \<Rightarrow> json \<Rightarrow> json res" where
  "jassign k v j = (if is_obj j then Inr (jput k v j) else Inl (TypeError ''item assignment''))"

definition new_entry :: "string \<Rightarrow> string \<Rightarrow> string \<Rightarrow> string \<Rightarrow> bool \<Rightarrow> json" where
  "new_entry op kb dest backup had_old =
     JObj [(''op'', JStr op), (''kb_id'', JStr kb), (''dest'', JStr dest), (''backup'', JStr backup),
           (''had_old'', JBool had_old), (''source_moved'', JBool False), (''gen_id'', JNull),
           (''committed'', JBool False), (''rolled_back'', JBool False)]"

definition begin_upload :: "jio \<Rightarrow> string \<Rightarrow> string \<Rightarrow> string \<Rightarrow> string \<Rightarrow> bool \<Rightarrow> jstate \<Rightarrow> unit res \<times> jstate" where
  "begin_upload i job kb dest backup had_old s =
     journal_write i job (new_entry OP_UPLOAD kb dest backup had_old) s"

definition begin_delete :: "jio \<Rightarrow> string \<Rightarrow> string \<Rightarrow> string \<Rightarrow> string \<Rightarrow> jstate \<Rightarrow> unit res \<times> jstate" where
  "begin_delete i job kb dest backup s =
     journal_write i job (new_entry OP_DELETE_DOC kb dest backup True) s"

text \<open>Load the entry, assign one field, write it back: the body \<open>mark_source_moved\<close>,
  \<open>record_generation\<close>, \<open>mark_committed\<close> and \<open>mark_rolled_back\<close> share.\<close>

definition amend :: "jio \<Rightarrow> string \<Rightarrow> string \<Rightarrow> json \<Rightarrow> jstate \<Rightarrow> unit res \<times> jstate" where
  "amend i job k v s =
     (case bindR (jload (jpath job) s) (jassign k v) of
        Inl e \<Rightarrow> (Inl e, s)
      | Inr entry \<Rightarrow> journal_write i job entry s)"

definition mark_source_moved :: "jio \<Rightarrow> string \<Rightarrow> jstate \<Rightarrow> unit res \<times> jstate" where
  "mark_source_moved i job s = amend i job ''source_moved'' (JBool True) s"

definition record_generation :: "jio \<Rightarrow> string \<Rightarrow> string \<Rightarrow> jstate \<Rightarrow> unit res \<times> jstate" where
  "record_generation i job gid s = amend i job ''gen_id'' (JStr gid) s"

text \<open>The two final marks report a file that cannot be read or written as \<open>False\<close>; an entry that
  is not an object still raises.\<close>

definition swallow :: "unit res \<times> jstate \<Rightarrow> bool res \<times> jstate" where
  "swallow p =
     (case p of
        (Inr _, s) \<Rightarrow> (Inr True, s)
      | (Inl e, s) \<Rightarrow> (if e \<in> {OSError, JSONDecodeError, UnicodeError} then Inr False else Inl e, s))"

definition mark_committed :: "jio \<Rightarrow> string \<Rightarrow> jstate \<Rightarrow> bool res \<times> jstate" where
  "mark_committed i job s = swallow (amend i job ''committed'' (JBool True) s)"

definition mark_rolled_back :: "jio \<Rightarrow> string \<Rightarrow> jstate \<Rightarrow> bool res \<times> jstate" where
  "mark_rolled_back i job s = swallow (amend i job ''rolled_back'' (JBool True) s)"

text \<open>\<open>durable_remove\<close>: the directory is synced after the file is gone.  \<open>Some True\<close> is a normal
  return, \<open>Some False\<close> an \<open>OSError\<close>, \<open>None\<close> the \<open>FileNotFoundError\<close> of a missing file.\<close>

definition durable_remove :: "jio \<Rightarrow> string \<Rightarrow> jstate \<Rightarrow> bool option \<times> jstate" where
  "durable_remove i name s =
     (if map_of (jfiles s) name = None then (None, s)
      else if \<not> jremove i name then (Some False, s)
      else (Some (jsync i), s\<lparr>jfiles := jpop name (jfiles s)\<rparr>))"

text \<open>\<open>clear\<close>\<close>

definition clear_entry :: "jio \<Rightarrow> string \<Rightarrow> jstate \<Rightarrow> bool \<times> jstate" where
  "clear_entry i job s =
     (case durable_remove i (jpath job) s of (r, s') \<Rightarrow> (r \<noteq> Some False, s'))"

section \<open>Validity and commit evidence\<close>

text \<open>\<open>entry.get(k, default)\<close>\<close>

definition jdefault :: "json \<Rightarrow> string \<Rightarrow> json \<Rightarrow> json" where
  "jdefault j k v = (if jhas j k then jfield j k else v)"

fun is_bool :: "json \<Rightarrow> bool" where
  "is_bool (JBool _) = True"
| "is_bool _ = False"

fun is_str :: "json \<Rightarrow> bool" where
  "is_str (JStr _) = True"
| "is_str _ = False"

definition valid_entry :: "json \<Rightarrow> bool" where
  "valid_entry entry \<longleftrightarrow>
     is_obj entry \<and>
     (let op = jfield entry ''op''; gid = jfield entry ''gen_id'' in
      op \<in> {JStr OP_UPLOAD, JStr OP_DELETE_DOC} \<and>
      is_nonempty_str (jfield entry ''kb_id'') \<and>
      is_nonempty_str (jfield entry ''dest'') \<and>
      is_nonempty_str (jfield entry ''backup'') \<and>
      is_bool (jfield entry ''had_old'') \<and>
      is_bool (jdefault entry ''source_moved'' (JBool False)) \<and>
      (gid = JNull \<or> is_str gid) \<and>
      is_bool (jdefault entry ''committed'' (JBool False)) \<and>
      is_bool (jdefault entry ''rolled_back'' (JBool False)) \<and>
      \<not> (jdefault entry ''committed'' (JBool False) = JBool True \<and>
          jdefault entry ''rolled_back'' (JBool False) = JBool True) \<and>
      (op \<noteq> JStr OP_DELETE_DOC \<or> jfield entry ''had_old'' = JBool True) \<and>
      (gid = JNull \<or> truthy gid))"

fun str_of :: "json \<Rightarrow> string" where
  "str_of (JStr s) = s"
| "str_of _ = []"

abbreviation entry_kb :: "json \<Rightarrow> string" where "entry_kb e \<equiv> str_of (jfield e ''kb_id'')"
abbreviation entry_dest :: "json \<Rightarrow> string" where "entry_dest e \<equiv> str_of (jfield e ''dest'')"
abbreviation entry_backup :: "json \<Rightarrow> string" where "entry_backup e \<equiv> str_of (jfield e ''backup'')"

fun is_state_corrupt :: "exn \<Rightarrow> bool" where
  "is_state_corrupt (KBStateCorruptError _) = True"
| "is_state_corrupt _ = False"

text \<open>\<open>_is_committed\<close>, on an entry that passed \<open>_valid_entry\<close>: the mark first, then the generation
  state, whose damage stops recovery, then the lifecycle mark, whose damage does not.\<close>

definition is_committed :: "json \<Rightarrow> world \<Rightarrow> bool res" where
  "is_committed entry w =
     (if jfield entry ''committed'' = JBool True then Inr True
      else if \<not> truthy (jfield entry ''gen_id'') then Inr False
      else (case generation_is_committed (entry_kb entry) (str_of (jfield entry ''gen_id'')) w of
              Inl e \<Rightarrow> Inl (if is_state_corrupt e
                then MutationJournalError ''KB generation state is unreadable'' else e)
            | Inr True \<Rightarrow> Inr True
            | Inr False \<Rightarrow>
                (case lc_status (entry_kb entry) (lifecycle w) of
                   Inl _ \<Rightarrow> Inr False
                 | Inr m \<Rightarrow> Inr (m \<noteq> LIFECYCLE_ACTIVE))))"

section \<open>Recovery\<close>

text \<open>\<open>_silent_remove\<close> and \<open>_safe_replace\<close> on source files.\<close>

definition silent_remove :: "jio \<Rightarrow> string \<Rightarrow> jstate \<Rightarrow> bool \<times> jstate" where
  "silent_remove i p s =
     (if srcs s p = None then (True, s)
      else if sremove i p then (True, s\<lparr>srcs := (srcs s)(p := None)\<rparr>)
      else (False, s))"

definition safe_replace :: "jio \<Rightarrow> string \<Rightarrow> string \<Rightarrow> jstate \<Rightarrow> bool \<times> jstate" where
  "safe_replace i p q s =
     (if srcs s p = None \<or> \<not> sreplace i p then (False, s)
      else (True, s\<lparr>srcs := ((srcs s)(p := None))(q := srcs s p)\<rparr>))"

text \<open>\<open>_recover_entry\<close>\<close>

definition recover_entry :: "jio \<Rightarrow> json \<Rightarrow> jstate \<Rightarrow> bool res \<times> jstate" where
  "recover_entry i entry s =
     (if jfield entry ''rolled_back'' = JBool True then (Inr True, s)
      else if \<not> truthy (jfield entry ''dest'') \<or> \<not> truthy (jfield entry ''backup'') then (Inr True, s)
      else (case is_committed entry (kbs s) of
          Inl e \<Rightarrow> (Inl e, s)
        | Inr committed \<Rightarrow>
           (let dest = entry_dest entry; backup = entry_backup entry;
                had_old = truthy (jdefault entry ''had_old'' (JBool False));
                moved = truthy (jdefault entry ''source_moved'' (JBool False))
            in if jfield entry ''op'' = JStr OP_DELETE_DOC then
                 (if committed then (Inr True, snd (silent_remove i backup s))
                  else if srcs s backup \<noteq> None then
                    (case safe_replace i backup dest s of (ok, s') \<Rightarrow> (Inr ok, s'))
                  else (Inr (\<not> moved), s))
               else if committed then
                 (Inr True, if had_old \<and> srcs s backup \<noteq> None then snd (silent_remove i backup s) else s)
               else if had_old then
                 (if srcs s backup \<noteq> None then
                    (case safe_replace i backup dest s of (ok, s') \<Rightarrow> (Inr ok, s'))
                  else (Inr (\<not> moved), s))
               else (case silent_remove i dest s of (ok, s') \<Rightarrow> (Inr ok, s')))))"

text \<open>\<open>_quarantine\<close> and \<open>_mark_degraded\<close>, whose \<open>OSError\<close>s are swallowed.\<close>

definition quarantine_entry :: "jio \<Rightarrow> string \<Rightarrow> jstate \<Rightarrow> jstate" where
  "quarantine_entry i name s =
     (case map_of (jfiles s) name of
        Some c \<Rightarrow> if jrename i name
                   then s\<lparr>jfiles := jset (name @ ''.corrupt-'' @ jstamp i) c (jpop name (jfiles s))\<rparr>
                   else s
      | None \<Rightarrow> s)"

definition mark_degraded :: "jio \<Rightarrow> jstate \<Rightarrow> jstate" where
  "mark_degraded i s = s\<lparr>jdegraded := (jdegraded s \<or> jmark i)\<rparr>"

text \<open>\<open>_silent_remove\<close> of the entry's own file.\<close>

definition remove_entry :: "jio \<Rightarrow> string \<Rightarrow> jstate \<Rightarrow> bool \<times> jstate" where
  "remove_entry i name s =
     (if map_of (jfiles s) name = None then (True, s)
      else if jremove i name then (True, s\<lparr>jfiles := jpop name (jfiles s)\<rparr>)
      else (False, s))"

definition entry_terminal :: "json \<Rightarrow> bool" where
  "entry_terminal entry \<longleftrightarrow>
     jfield entry ''committed'' = JBool True \<or> jfield entry ''rolled_back'' = JBool True"

text \<open>One turn of the loop of \<open>recover_all\<close> once the entry is known to be valid: \<open>Inr True\<close> is a
  recovered entry, \<open>Inr False\<close> an unresolved one.\<close>

definition recover_valid :: "jio \<Rightarrow> string \<Rightarrow> json \<Rightarrow> jstate \<Rightarrow> bool res \<times> jstate" where
  "recover_valid i name entry s =
     (case is_committed entry (kbs s) of
        Inl e \<Rightarrow> (Inl e, s)
      | Inr committed \<Rightarrow>
          (case recover_entry i entry s of
             (Inl e, s1) \<Rightarrow> (Inl e, s1)
           | (Inr False, s1) \<Rightarrow> (Inr False, s1)
           | (Inr True, s1) \<Rightarrow>
               (if entry_terminal entry then
                  (case remove_entry i name s1 of (ok, s2) \<Rightarrow> (Inr ok, s2))
                else (case write_name i name
                             (jput (if committed then ''committed'' else ''rolled_back'') (JBool True) entry) s1 of
                        (Inl _, s2) \<Rightarrow> (Inr False, s2)
                      | (Inr _, s2) \<Rightarrow> (case remove_entry i name s2 of (ok, s3) \<Rightarrow> (Inr ok, s3))))))"

definition recover_name :: "jio \<Rightarrow> string \<Rightarrow> jstate \<Rightarrow> bool res \<times> jstate" where
  "recover_name i name s =
     (case jload name s of
        Inl e \<Rightarrow> (Inr False, if e = OSError then s else mark_degraded i (quarantine_entry i name s))
      | Inr entry \<Rightarrow>
          if valid_entry entry then recover_valid i name entry s
          else (Inr False, mark_degraded i (quarantine_entry i name s)))"

text \<open>The loop, over the names \<open>os.listdir\<close> returned: an exception leaves it at once.\<close>

fun recover_names :: "jio \<Rightarrow> string list \<Rightarrow> string list \<times> string list \<Rightarrow> jstate \<Rightarrow> (string list \<times> string list) res \<times> jstate" where
  "recover_names i [] acc s = (Inr acc, s)"
| "recover_names i (name # names) (recovered, unresolved) s =
     (if \<not> is_entry_name name then recover_names i names (recovered, unresolved) s
      else (case recover_name i name s of
          (Inl e, s') \<Rightarrow> (Inl e, s')
        | (Inr True, s') \<Rightarrow>
            recover_names i names (recovered @ [take (length name - 5) name], unresolved) s'
        | (Inr False, s') \<Rightarrow> recover_names i names (recovered, unresolved @ [name]) s'))"

definition recover_all :: "jio \<Rightarrow> jstate \<Rightarrow> string list res \<times> jstate" where
  "recover_all i s =
     (if jdegraded s then (Inl (MutationJournalError ''degraded''), s)
      else if \<not> jdir s then (Inr [], s)
      else (case recover_names i (map fst (jfiles s)) ([], []) s of
          (Inl e, s') \<Rightarrow> (Inl e, s')
        | (Inr (recovered, unresolved), s') \<Rightarrow>
            (if unresolved = [] then Inr recovered
             else Inl (MutationJournalError (''unresolved: '' @ join_with '', '' unresolved)), s')))"

section \<open>Queries and clearing\<close>

text \<open>The scan of \<open>has_entries\<close>; \<open>.get\<close> on a value that is not a dictionary raises.\<close>

fun has_entries_scan :: "string \<Rightarrow> (string \<times> fcontent) list \<Rightarrow> bool res" where
  "has_entries_scan kb [] = Inr False"
| "has_entries_scan kb ((name, c) # fs) =
     (if \<not> is_entry_name name then has_entries_scan kb fs
      else (case jparse c of
          Inl _ \<Rightarrow> Inr True
        | Inr entry \<Rightarrow>
            if \<not> is_obj entry then Inl (AttributeError ''get'')
            else if jfield entry ''kb_id'' = JStr kb \<and> (\<not> valid_entry entry \<or> \<not> entry_terminal entry)
            then Inr True
            else has_entries_scan kb fs))"

definition has_entries :: "string \<Rightarrow> jstate \<Rightarrow> bool res" where
  "has_entries kb s =
     (if jdegraded s then Inr True
      else if \<not> jdir s then Inr False
      else has_entries_scan kb (jfiles s))"

text \<open>The first loop of \<open>clear_kb\<close>: the names of the knowledge base's entries.\<close>

fun clear_scan :: "string \<Rightarrow> (string \<times> fcontent) list \<Rightarrow> string list res" where
  "clear_scan kb [] = Inr []"
| "clear_scan kb ((name, c) # fs) =
     (if \<not> is_entry_name name then clear_scan kb fs
      else (case jparse c of
          Inl _ \<Rightarrow> Inl (MutationJournalError (''unreadable: '' @ name))
        | Inr entry \<Rightarrow>
            if \<not> valid_entry entry then Inl (MutationJournalError (''invalid: '' @ name))
            else bindR (clear_scan kb fs) (\<lambda>names.
              Inr (if jfield entry ''kb_id'' = JStr kb then name # names else names))))"

fun clear_names :: "jio \<Rightarrow> string list \<Rightarrow> int \<Rightarrow> jstate \<Rightarrow> int res \<times> jstate" where
  "clear_names i [] removed s = (Inr removed, s)"
| "clear_names i (name # names) removed s =
     (case durable_remove i name s of
        (None, s') \<Rightarrow> clear_names i names removed s'
      | (Some False, s') \<Rightarrow> (Inl (MutationJournalError (''not removed: '' @ name)), s')
      | (Some True, s') \<Rightarrow> clear_names i names (removed + 1) s')"

definition clear_kb :: "jio \<Rightarrow> string \<Rightarrow> jstate \<Rightarrow> int res \<times> jstate" where
  "clear_kb i kb s =
     (if jdegraded s then (Inl (MutationJournalError ''degraded''), s)
      else if \<not> jdir s then (Inr 0, s)
      else (case clear_scan kb (jfiles s) of
          Inl e \<Rightarrow> (Inl e, s)
        | Inr names \<Rightarrow> clear_names i names 0 s))"

end
