(* ===== verification/Mutation_Recovery.thy ===== *)
theory Mutation_Recovery
  imports Mutation_Journal
begin

text \<open>
  What recovery guarantees: the outcome of every recovered entry, the atomicity of an upload or a
  deletion (\<open>api/ingest.py\<close>) that dies after any of its steps, and what a second recovery does
  after one that failed.
\<close>

section \<open>Files of the journal\<close>

lemma jread_set [simp]:
  "jread n (s\<lparr>jfiles := jset m c (jfiles t)\<rparr>) = (if n = m then c else jread n t)"
  by (simp add: jread_def map_of_jset)

lemma jread_pop [simp]:
  "jread n (s\<lparr>jfiles := jpop m (jfiles t)\<rparr>) = (if n = m then NoFile else jread n t)"
  by (simp add: jread_def map_of_jpop)

lemma jread_more [simp]:
  "jread n (s\<lparr>srcs := f\<rparr>) = jread n s" "jread n (s\<lparr>kbs := w\<rparr>) = jread n s"
  "jread n (s\<lparr>jdir := b\<rparr>) = jread n s" "jread n (s\<lparr>jdegraded := b\<rparr>) = jread n s"
  "jread n (s\<lparr>jfiles := jfiles s\<rparr>) = jread n s"
  by (simp_all add: jread_def)

lemma write_name_effect:
  assumes "write_name i name entry s = (r, s')"
  shows "srcs s' = srcs s" "kbs s' = kbs s" "jdegraded s' = jdegraded s"
    "\<And>m. m \<noteq> name \<Longrightarrow> jread m s' = jread m s"
    "r = Inr () \<Longrightarrow> jread name s' = Doc entry"
    "jread name s' = jread name s \<or> jread name s' = Doc entry"
    "r = Inr () \<or> r = Inl OSError"
  using assms unfolding write_name_def
  by (auto simp: save_file_eq jread_def map_of_jset split: prod.splits option.splits wstep.splits if_splits)

lemma remove_entry_effect:
  assumes "remove_entry i name s = (ok, s')"
  shows "srcs s' = srcs s" "kbs s' = kbs s" "jdegraded s' = jdegraded s"
    "\<And>m. m \<noteq> name \<Longrightarrow> jread m s' = jread m s"
    "ok \<Longrightarrow> jread name s' = NoFile" "\<not> ok \<Longrightarrow> s' = s"
  using assms by (auto simp: remove_entry_def jread_def map_of_jpop split: if_splits option.splits)


section \<open>One entry\<close>

text \<open>What recovering an entry may do to the source files: \<open>restored entry committed f f'\<close> relates
  the files before and after.\<close>

definition restored :: "json \<Rightarrow> bool \<Rightarrow> (string \<Rightarrow> string option) \<Rightarrow> (string \<Rightarrow> string option) \<Rightarrow> bool" where
  "restored entry committed f f' \<longleftrightarrow>
     (let dest = entry_dest entry; backup = entry_backup entry in
      if jfield entry ''rolled_back'' = JBool True then f' = f
      else if committed then f' = f \<or> jfield entry ''had_old'' = JBool True \<and> f' = f(backup := None)
      else if jfield entry ''had_old'' = JBool True then
        (case f backup of
           Some c \<Rightarrow> f' = (f(backup := None))(dest := Some c)
         | None \<Rightarrow> f' = f \<and> jdefault entry ''source_moved'' (JBool False) = JBool False)
      else f' = f(dest := None))"

lemma jhas_flag: "jfield e k = JBool b \<Longrightarrow> jhas e k"
  by (cases e) (force simp: jfield_def jhas_def image_iff dest!: map_of_SomeD split: option.splits)+

lemma valid_entryD:
  assumes "valid_entry entry"
  shows "is_obj entry" "truthy (jfield entry ''dest'')" "truthy (jfield entry ''backup'')"
    "\<exists>b. jfield entry ''had_old'' = JBool b" "jhas entry ''had_old''"
    "\<exists>b. jdefault entry ''source_moved'' (JBool False) = JBool b"
    "jfield entry ''op'' = JStr OP_DELETE_DOC \<Longrightarrow> jfield entry ''had_old'' = JBool True"
    "jfield entry ''committed'' = JBool True \<Longrightarrow> jfield entry ''rolled_back'' \<noteq> JBool True"
proof -
  have n: "\<And>j. is_nonempty_str j \<Longrightarrow> truthy j" by (case_tac j) auto
  have b: "\<And>j. is_bool j \<Longrightarrow> \<exists>b. j = JBool b" by (case_tac j) auto
  note h = jhas_flag [of entry]
  note v = assms [unfolded valid_entry_def Let_def]
  show "is_obj entry" "truthy (jfield entry ''dest'')" "truthy (jfield entry ''backup'')"
    "jfield entry ''op'' = JStr OP_DELETE_DOC \<Longrightarrow> jfield entry ''had_old'' = JBool True"
    using v n by blast+
  show o: "\<exists>b. jfield entry ''had_old'' = JBool b"
    and "\<exists>b. jdefault entry ''source_moved'' (JBool False) = JBool b"
    using v b by blast+
  show "jhas entry ''had_old''" using o h by blast
  show "jfield entry ''committed'' = JBool True \<Longrightarrow> jfield entry ''rolled_back'' \<noteq> JBool True"
    using v h by (metis jdefault_def)
qed

lemma recover_entry_effect:
  assumes v: "valid_entry entry" and c: "is_committed entry (kbs s) = Inr committed"
    and r: "recover_entry i entry s = (r, s')"
  shows "(\<exists>f. s' = s\<lparr>srcs := f\<rparr>) \<and> (\<exists>ok. r = Inr ok) \<and> (r = Inr False \<longrightarrow> s' = s)
    \<and> (r = Inr True \<longrightarrow> restored entry committed (srcs s) (srcs s'))"
proof -
  from valid_entryD [OF v] obtain old moved where e:
    "truthy (jfield entry ''dest'')" "truthy (jfield entry ''backup'')"
    "jfield entry ''had_old'' = JBool old" "jhas entry ''had_old''"
    "jdefault entry ''source_moved'' (JBool False) = JBool moved"
    "jfield entry ''op'' = JStr OP_DELETE_DOC \<longrightarrow> old"
    by auto
  have h: "jdefault entry ''had_old'' (JBool False) = JBool old" using e by (simp add: jdefault_def)
  have same: "\<And>t::jstate. \<exists>f. t = t\<lparr>srcs := f\<rparr>" by (metis jstate.surjective jstate.update_convs(4))
  show ?thesis
    using r unfolding recover_entry_def restored_def c using e h same
    by (auto simp: Let_def silent_remove_def safe_replace_def fun_upd_idem split: if_splits option.splits)
qed

text \<open>A recovered entry: it was valid, its direction was decided by the evidence, its file is gone
  and nothing but its two paths and its own file has changed.\<close>

lemma recover_name_True:
  assumes "recover_name i name s = (Inr True, s')"
  obtains entry committed where "jread name s = Doc entry" "valid_entry entry"
    "is_committed entry (kbs s) = Inr committed" "restored entry committed (srcs s) (srcs s')"
    "kbs s' = kbs s" "jdegraded s' = jdegraded s" "jread name s' = NoFile"
    "\<And>m. m \<noteq> name \<Longrightarrow> jread m s' = jread m s"
proof -
  from assms obtain entry where e: "jload name s = Inr entry" "valid_entry entry"
    and rv: "recover_valid i name entry s = (Inr True, s')"
    by (auto simp: recover_name_def split: sum.splits if_splits)
  from rv obtain committed s1 where c: "is_committed entry (kbs s) = Inr committed"
    and s1: "recover_entry i entry s = (Inr True, s1)"
    by (auto simp: recover_valid_def split: sum.splits prod.splits bool.splits)
  from recover_entry_effect [OF e(2) c s1] obtain f where f: "s1 = s\<lparr>srcs := f\<rparr>"
    and rs: "restored entry committed (srcs s) (srcs s1)" by auto
  obtain s2 where s2: "remove_entry i name s2 = (True, s')"
    "s2 = s1 \<or> (\<exists>j u. write_name i name j s1 = (Inr u, s2))"
    using rv by (auto simp: recover_valid_def c s1 split: sum.splits prod.splits if_splits)
  have d: "jread name s = Doc entry"
    using e(1) by (cases "jread name s") (auto simp: jload_def)
  have w: "srcs s2 = srcs s1" "kbs s2 = kbs s1" "jdegraded s2 = jdegraded s1"
    "\<And>m. m \<noteq> name \<Longrightarrow> jread m s2 = jread m s1"
    using s2(2) write_name_effect by metis+
  show thesis
    using that [OF d e(2) c] rs f w remove_entry_effect [OF s2(1)] by simp
qed

section \<open>The whole journal\<close>

text \<open>\<open>apart name ps s\<close>: no entry but \<open>name\<close> records one of the paths \<open>ps\<close>.\<close>

definition apart :: "string \<Rightarrow> string set \<Rightarrow> jstate \<Rightarrow> bool" where
  "apart name ps s \<longleftrightarrow>
     (\<forall>m entry. m \<noteq> name \<and> is_entry_name m \<and> jread m s = Doc entry \<and> valid_entry entry \<longrightarrow>
        entry_dest entry \<notin> ps \<and> entry_backup entry \<notin> ps)"

lemma restored_frame:
  "restored entry c f f' \<Longrightarrow> p \<noteq> entry_dest entry \<Longrightarrow> p \<noteq> entry_backup entry \<Longrightarrow> f' p = f p"
  by (auto simp: restored_def Let_def split: if_splits option.splits)

lemma recover_names_unresolved:
  "recover_names i names (rec, un) s = (Inr (rec', un'), s') \<Longrightarrow> set un \<subseteq> set un'"
  by (induction names arbitrary: rec un s)
    (force split: if_splits sum.splits prod.splits bool.splits)+

lemma recover_names_Cons:
  assumes "recover_names i (n # names) (rec, []) s = (Inr (rec', []), s')"
  shows "(\<not> is_entry_name n \<and> recover_names i names (rec, []) s = (Inr (rec', []), s'))
    \<or> (\<exists>rec1 s1. is_entry_name n \<and> recover_name i n s = (Inr True, s1)
         \<and> recover_names i names (rec1, []) s1 = (Inr (rec', []), s'))"
proof -
  have "recover_names i names (rec, [n]) s1 \<noteq> (Inr (rec', []), s')" for s1
    using recover_names_unresolved by fastforce
  then show ?thesis
    using assms by (auto split: if_splits sum.splits prod.splits bool.splits)
qed

lemma recover_names_frame:
  assumes "recover_names i names (rec, []) s = (Inr (rec', []), s')"
    "name \<notin> set names \<or> jread name s = NoFile" "apart name ps s"
  shows "jread name s' = jread name s \<and> (\<forall>p \<in> ps. srcs s' p = srcs s p) \<and> kbs s' = kbs s"
  using assms
proof (induction names arbitrary: rec s)
  case (Cons n names)
  from recover_names_Cons [OF Cons.prems(1)] show ?case
  proof (elim disjE conjE exE)
    assume "recover_names i names (rec, []) s = (Inr (rec', []), s')"
    then show ?thesis using Cons.IH Cons.prems(2,3) by auto
  next
    fix rec1 s1
    assume en: "is_entry_name n" and n: "recover_name i n s = (Inr True, s1)"
      and rest: "recover_names i names (rec1, []) s1 = (Inr (rec', []), s')"
    from n obtain entry c where e: "jread n s = Doc entry" "valid_entry entry"
      "restored entry c (srcs s) (srcs s1)" "kbs s1 = kbs s" "jread n s1 = NoFile"
      "\<And>m. m \<noteq> n \<Longrightarrow> jread m s1 = jread m s"
      by (rule recover_name_True) blast
    have ne: "n \<noteq> name" using Cons.prems(2) e(1) by auto
    have "apart name ps s1"
      using Cons.prems(3) e(5,6) unfolding apart_def by (metis fcontent.distinct(7))
    with Cons.IH [OF rest] Cons.prems(2) e(6) ne
    have "jread name s' = jread name s1 \<and> (\<forall>p \<in> ps. srcs s' p = srcs s1 p) \<and> kbs s' = kbs s1"
      by simp
    moreover have "entry_dest entry \<notin> ps \<and> entry_backup entry \<notin> ps"
      using Cons.prems(3) en e(1,2) ne unfolding apart_def by metis
    then have "\<forall>p \<in> ps. srcs s1 p = srcs s p" using restored_frame [OF e(3)] by metis
    ultimately show ?thesis using e(4,6) ne by auto
  qed
qed simp

lemma recover_names_one:
  assumes "recover_names i names (rec, []) s = (Inr (rec', []), s')" "name \<in> set names"
    "distinct names" "is_entry_name name" "apart name ps s"
  shows "\<exists>t t'. recover_name i name t = (Inr True, t') \<and> jread name t = jread name s
    \<and> kbs t = kbs s \<and> (\<forall>p \<in> ps. srcs t p = srcs s p) \<and> (\<forall>p \<in> ps. srcs s' p = srcs t' p)
    \<and> jread name s' = NoFile \<and> kbs s' = kbs s"
  using assms
proof (induction names arbitrary: rec s)
  case (Cons n names)
  from recover_names_Cons [OF Cons.prems(1)] show ?case
  proof (elim disjE conjE exE)
    assume "\<not> is_entry_name n" "recover_names i names (rec, []) s = (Inr (rec', []), s')"
    then show ?thesis using Cons by auto
  next
    fix rec1 s1
    assume en: "is_entry_name n" and n: "recover_name i n s = (Inr True, s1)"
      and rest: "recover_names i names (rec1, []) s1 = (Inr (rec', []), s')"
    from n obtain entry c where e: "jread n s = Doc entry" "valid_entry entry"
      "restored entry c (srcs s) (srcs s1)" "kbs s1 = kbs s" "jread n s1 = NoFile"
      "\<And>m. m \<noteq> n \<Longrightarrow> jread m s1 = jread m s"
      by (rule recover_name_True) blast
    have ap: "apart name ps s1"
      using Cons.prems(5) e(5,6) unfolding apart_def by (metis fcontent.distinct(7))
    show ?thesis
    proof (cases "n = name")
      case True
      then have "name \<notin> set names" using Cons.prems(3) by simp
      then have "name \<notin> set names \<or> jread name s1 = NoFile" ..
      from recover_names_frame [OF rest this ap] n e True show ?thesis by metis
    next
      case False
      have "entry_dest entry \<notin> ps \<and> entry_backup entry \<notin> ps"
        using Cons.prems(5) en e(1,2) False unfolding apart_def by metis
      then have "\<forall>p \<in> ps. srcs s1 p = srcs s p" using restored_frame [OF e(3)] by metis
      moreover have "name \<in> set names" "distinct names" using Cons.prems(2,3) False by auto
      ultimately show ?thesis
        using Cons.IH [OF rest _ _ Cons.prems(4) ap] e(4,6) False by metis
    qed
  qed
qed simp

text \<open>Recovery that returns normally has recovered every entry.\<close>

lemma recover_all_one:
  assumes "recover_all i s = (Inr jobs, s')" "jdir s" "distinct (map fst (jfiles s))"
    "jread name s = Doc entry" "is_entry_name name" "apart name ps s"
  shows "\<exists>t t'. recover_name i name t = (Inr True, t') \<and> jread name t = Doc entry
    \<and> kbs t = kbs s \<and> (\<forall>p \<in> ps. srcs t p = srcs s p) \<and> (\<forall>p \<in> ps. srcs s' p = srcs t' p)
    \<and> jread name s' = NoFile \<and> kbs s' = kbs s"
proof -
  have "recover_names i (map fst (jfiles s)) ([], []) s = (Inr (jobs, []), s')"
    using assms(1,2) by (auto simp: recover_all_def split: if_splits sum.splits prod.splits)
  moreover have "name \<in> set (map fst (jfiles s))"
    using assms(4) by (force simp: jread_def dest: map_of_SomeD split: option.splits)
  ultimately show ?thesis
    using recover_names_one [OF _ _ assms(3,5,6)] assms(4) by metis
qed

section \<open>An upload or a deletion, step by step\<close>

text \<open>
  The durable effects of \<open>_run_with_write_reserved\<close> and \<open>_run_delete\<close> in program order: journal
  the intent, move the old file aside, write the new one (\<open>open\<close> truncates it first), record the
  generation from the \<open>on_commit\<close> callback, switch the active generation, then mark, clean up and
  clear.  \<open>mnew\<close> is the uploaded content, or \<open>None\<close> for a deletion.
\<close>

record mutation =
  mjob :: string
  mkb :: string
  mdest :: string
  mbackup :: string
  mgid :: string
  mnew :: "string option"
  mretain :: bool

datatype mstep = BeginEntry | MoveAside | MarkMoved | Truncate | WriteNew | RecordGen | SwitchActive
  | MarkCommitted | RemoveBackup | ClearEntry

definition had_old :: "mutation \<Rightarrow> jstate \<Rightarrow> bool" where
  "had_old m s \<longleftrightarrow> mnew m = None \<or> srcs s (mdest m) \<noteq> None"

definition mutation_steps :: "mutation \<Rightarrow> bool \<Rightarrow> mstep list" where
  "mutation_steps m old =
     BeginEntry # (if old then [MoveAside, MarkMoved] else []) @
     (if mnew m \<noteq> None then [Truncate, WriteNew] else []) @
     [RecordGen, SwitchActive, MarkCommitted] @ (if old then [RemoveBackup] else []) @ [ClearEntry]"

fun mutation_step :: "mutation \<Rightarrow> bool \<Rightarrow> mstep \<Rightarrow> jstate \<Rightarrow> jstate" where
  "mutation_step m old BeginEntry s =
     snd (if mnew m = None then begin_delete good_jio (mjob m) (mkb m) (mdest m) (mbackup m) s
          else begin_upload good_jio (mjob m) (mkb m) (mdest m) (mbackup m) old s)"
| "mutation_step m old MoveAside s = snd (safe_replace good_jio (mdest m) (mbackup m) s)"
| "mutation_step m old MarkMoved s = snd (mark_source_moved good_jio (mjob m) s)"
| "mutation_step m old Truncate s = s\<lparr>srcs := (srcs s)(mdest m := Some [])\<rparr>"
| "mutation_step m old WriteNew s = s\<lparr>srcs := (srcs s)(mdest m := mnew m)\<rparr>"
| "mutation_step m old RecordGen s = snd (record_generation good_jio (mjob m) (mgid m) s)"
| "mutation_step m old SwitchActive s =
     s\<lparr>kbs := snd (switch_active (mkb m) (mgid m) (mretain m) good_io (kbs s))\<rparr>"
| "mutation_step m old MarkCommitted s = snd (mark_committed good_jio (mjob m) s)"
| "mutation_step m old RemoveBackup s = snd (silent_remove good_jio (mbackup m) s)"
| "mutation_step m old ClearEntry s = snd (clear_entry good_jio (mjob m) s)"

text \<open>The process dies after \<open>n\<close> of the steps.\<close>

definition crash_mutation :: "nat \<Rightarrow> mutation \<Rightarrow> jstate \<Rightarrow> jstate" where
  "crash_mutation n m s =
     fold (mutation_step m (had_old m s)) (take n (mutation_steps m (had_old m s))) s"

subsection \<open>The steps on the entry, the source files and the commit point alone\<close>

type_synonym shape = "fcontent \<times> (string \<Rightarrow> string option) \<times> bool"

fun put_doc :: "string \<Rightarrow> json \<Rightarrow> fcontent \<Rightarrow> fcontent" where
  "put_doc k v (Doc e) = Doc (jput k v e)"
| "put_doc k v c = c"

fun shape_step :: "mutation \<Rightarrow> bool \<Rightarrow> mstep \<Rightarrow> shape \<Rightarrow> shape" where
  "shape_step m old BeginEntry (c, f, b) =
     (Doc (new_entry (if mnew m = None then OP_DELETE_DOC else OP_UPLOAD) (mkb m) (mdest m) (mbackup m)
        (mnew m = None \<or> old)), f, b)"
| "shape_step m old MoveAside (c, f, b) =
     (c, if f (mdest m) = None then f else (f(mdest m := None))(mbackup m := f (mdest m)), b)"
| "shape_step m old MarkMoved (c, f, b) = (put_doc ''source_moved'' (JBool True) c, f, b)"
| "shape_step m old Truncate (c, f, b) = (c, f(mdest m := Some []), b)"
| "shape_step m old WriteNew (c, f, b) = (c, f(mdest m := mnew m), b)"
| "shape_step m old RecordGen (c, f, b) = (put_doc ''gen_id'' (JStr (mgid m)) c, f, b)"
| "shape_step m old SwitchActive (c, f, b) = (c, f, True)"
| "shape_step m old MarkCommitted (c, f, b) = (put_doc ''committed'' (JBool True) c, f, b)"
| "shape_step m old RemoveBackup (c, f, b) = (c, f(mbackup m := None), b)"
| "shape_step m old ClearEntry (c, f, b) = (NoFile, f, b)"

text \<open>\<open>has_shape m s0 w' sh s\<close>: the state \<open>s\<close> of a mutation that started in \<open>s0\<close> and whose switch
  leads to \<open>w'\<close> has the shape \<open>sh\<close>, and no other journal file has changed.\<close>

fun has_shape :: "mutation \<Rightarrow> jstate \<Rightarrow> world \<Rightarrow> shape \<Rightarrow> jstate \<Rightarrow> bool" where
  "has_shape m s0 w' (c, f, b) s \<longleftrightarrow>
     jread (jpath (mjob m)) s = c \<and> srcs s = f \<and> kbs s = (if b then w' else kbs s0) \<and>
     (\<forall>n. n \<noteq> jpath (mjob m) \<longrightarrow> jread n s = jread n s0) \<and> jdegraded s = jdegraded s0 \<and>
     (c \<noteq> NoFile \<longrightarrow> jdir s) \<and> distinct (map fst (jfiles s)) \<and>
     (\<exists>e. c = NoFile \<or> c = Doc e \<and> is_obj e)"

lemma good_jio_sel [simp]:
  "jwrite good_jio n = None" "jremove good_jio n" "jsync good_jio" "sremove good_jio n" "sreplace good_jio n"
  by (simp_all add: good_jio_def)

lemma good_write:
  "write_name good_jio name e s = (Inr (), s\<lparr>jdir := True, jfiles := jset name (Doc e) (jfiles s)\<rparr>)"
  by (simp add: write_name_def save_file_eq)

lemma good_amend:
  assumes "jread (jpath job) s = c" "c = NoFile \<or> c = Doc e \<and> is_obj e"
  shows "snd (amend good_jio job k v s) =
    (if c = NoFile then s else s\<lparr>jdir := True, jfiles := jset (jpath job) (put_doc k v c) (jfiles s)\<rparr>)"
  using assms by (auto simp: amend_def jload_def jassign_def journal_write_def good_write)

lemma snd_swallow: "snd (swallow p) = snd p"
  by (auto simp: swallow_def split: prod.splits sum.splits)

lemma shape_simulates:
  assumes "has_shape m s0 w' sh s"
    and "snd (switch_active (mkb m) (mgid m) (mretain m) good_io (kbs s0)) = w'"
    and "st = SwitchActive \<longrightarrow> \<not> snd (snd sh)" and "st = BeginEntry \<longrightarrow> old \<or> mnew m \<noteq> None"
  shows "has_shape m s0 w' (shape_step m old st sh) (mutation_step m old st s)"
proof -
  obtain c f b where sh: "sh = (c, f, b)" by (cases sh)
  from assms(1) obtain e where e: "c = NoFile \<or> c = Doc e \<and> is_obj e" by (auto simp: sh)
  have c: "jread (jpath (mjob m)) s = c" using assms(1) by (simp add: sh)
  note am = good_amend [OF c e]
  note s = assms(1) [unfolded sh has_shape.simps]
  have amend: "has_shape m s0 w' (put_doc k v c, f, b) (snd (amend good_jio (mjob m) k v s))" for k v
    using s e by (auto simp: am distinct_jset)
  have clear: "has_shape m s0 w' (NoFile, f, b) (snd (clear_entry good_jio (mjob m) s))"
  proof (cases "map_of (jfiles s) (jpath (mjob m))")
    case None
    then have "c = NoFile" using c by (simp add: jread_def)
    with None s show ?thesis by (simp add: clear_entry_def durable_remove_def)
  next
    case (Some d)
    with s show ?thesis by (simp add: clear_entry_def durable_remove_def distinct_jpop)
  qed
  show ?thesis
  proof (cases st)
    case BeginEntry
    with assms(4) s show ?thesis
      by (auto simp: sh begin_delete_def begin_upload_def journal_write_def good_write new_entry_def distinct_jset)
  next
    case MoveAside
    with s show ?thesis by (auto simp: sh safe_replace_def)
  next
    case RemoveBackup
    with s show ?thesis by (auto simp: sh silent_remove_def fun_upd_idem)
  next
    case SwitchActive
    with s assms(2,3) show ?thesis by (auto simp: sh)
  next
    case ClearEntry
    with clear show ?thesis by (simp add: sh)
  next
    case MarkMoved
    with amend show ?thesis by (simp add: sh mark_source_moved_def del: has_shape.simps)
  next
    case RecordGen
    with amend show ?thesis by (simp add: sh record_generation_def del: has_shape.simps)
  next
    case MarkCommitted
    with amend show ?thesis by (simp add: sh mark_committed_def snd_swallow del: has_shape.simps)
  next
    case Truncate
    with s show ?thesis by (simp add: sh)
  next
    case WriteNew
    with s show ?thesis by (simp add: sh)
  qed
qed

lemma shape_step_flag: "snd (snd (shape_step m old st sh)) \<longleftrightarrow> st = SwitchActive \<or> snd (snd sh)"
  by (cases sh; cases st) auto

lemma shape_fold:
  assumes "has_shape m s0 w' sh s"
    and "snd (switch_active (mkb m) (mgid m) (mretain m) good_io (kbs s0)) = w'"
    and "distinct sts" and "snd (snd sh) \<longrightarrow> SwitchActive \<notin> set sts" and "old \<or> mnew m \<noteq> None"
  shows "has_shape m s0 w' (fold (shape_step m old) sts sh) (fold (mutation_step m old) sts s)"
  using assms
proof (induction sts arbitrary: sh s)
  case (Cons st sts)
  have step: "has_shape m s0 w' (shape_step m old st sh) (mutation_step m old st s)"
    using Cons.prems by (intro shape_simulates) auto
  have "snd (snd (shape_step m old st sh)) \<longrightarrow> SwitchActive \<notin> set sts"
    using Cons.prems(3,4) by (auto simp: shape_step_flag)
  from Cons.IH [OF step Cons.prems(2) _ this Cons.prems(5)] Cons.prems(3)
  show ?case by (simp del: has_shape.simps)
qed simp

text \<open>A predicate that holds before the first step and after every step.\<close>

primrec throughout :: "('a \<Rightarrow> bool) \<Rightarrow> ('x \<Rightarrow> 'a \<Rightarrow> 'a) \<Rightarrow> 'x list \<Rightarrow> 'a \<Rightarrow> bool" where
  "throughout P g [] a = P a"
| "throughout P g (x # xs) a = (P a \<and> throughout P g xs (g x a))"

lemma throughout_take: "throughout P g xs a \<Longrightarrow> P (fold g (take n xs) a)"
proof (induction xs arbitrary: a n)
  case (Cons x xs)
  then show ?case by (cases n) auto
qed simp

text \<open>What recovery needs to know of the crash point: without an entry the target is final; with
  one, the entry names the mutation, and the target is the new one after the switch, while before
  it undoing the entry gives the old one back.\<close>

definition undone_by :: "mutation \<Rightarrow> (string \<Rightarrow> string option) \<Rightarrow> json \<Rightarrow> (string \<Rightarrow> string option) \<Rightarrow> bool" where
  "undone_by m f0 e f \<longleftrightarrow>
     jfield e ''committed'' \<noteq> JBool True \<and> jfield e ''gen_id'' \<in> {JNull, JStr (mgid m)} \<and>
     (if jfield e ''had_old'' = JBool True
      then f (mbackup m) = f0 (mdest m) \<and> f (mbackup m) \<noteq> None \<or>
           f (mbackup m) = None \<and> f (mdest m) = f0 (mdest m) \<and> jfield e ''source_moved'' = JBool False
      else f0 (mdest m) = None)"

definition entry_for :: "mutation \<Rightarrow> json \<Rightarrow> bool" where
  "entry_for m e \<longleftrightarrow> valid_entry e \<and> entry_kb e = mkb m \<and> entry_dest e = mdest m \<and>
     entry_backup e = mbackup m \<and> jfield e ''rolled_back'' \<noteq> JBool True \<and> jhas e ''source_moved''"

fun point_ok :: "mutation \<Rightarrow> (string \<Rightarrow> string option) \<Rightarrow> shape \<Rightarrow> bool" where
  "point_ok m f0 (c, f, b) \<longleftrightarrow>
     (case c of
        NoFile \<Rightarrow> f (mdest m) = (if b then mnew m else f0 (mdest m))
      | Doc e \<Rightarrow> entry_for m e \<and>
          (if b then jfield e ''gen_id'' = JStr (mgid m) \<and> f (mdest m) = mnew m else undone_by m f0 e f)
      | _ \<Rightarrow> False)"

definition mutation_ok :: "mutation \<Rightarrow> jstate \<Rightarrow> bool" where
  "mutation_ok m s \<longleftrightarrow>
     mkb m \<noteq> [] \<and> mdest m \<noteq> [] \<and> mbackup m \<noteq> [] \<and> mgid m \<noteq> [] \<and> mbackup m \<noteq> mdest m \<and>
     srcs s (mbackup m) = None \<and> (mnew m = None \<longrightarrow> srcs s (mdest m) \<noteq> None)"

lemmas entry_eval = entry_for_def undone_by_def valid_entry_def new_entry_def jput_def jfield_def jhas_def
  jdefault_def OP_UPLOAD_def OP_DELETE_DOC_def Let_def

lemma crash_points:
  assumes "mutation_ok m s"
  shows "throughout (point_ok m (srcs s)) (shape_step m (had_old m s)) (mutation_steps m (had_old m s))
    (NoFile, srcs s, False)"
proof (cases "mnew m")
  case None
  then show ?thesis
    using assms unfolding mutation_steps_def had_old_def mutation_ok_def
    by (simp add: entry_eval)
next
  case (Some new)
  moreover have "mdest m \<noteq> mbackup m" using assms unfolding mutation_ok_def by metis
  ultimately show ?thesis
    using assms unfolding mutation_steps_def had_old_def mutation_ok_def
    by (cases "srcs s (mdest m)") (simp_all add: entry_eval)
qed

lemma crash_shape:
  assumes "mutation_ok m s" "jread (jpath (mjob m)) s = NoFile" "distinct (map fst (jfiles s))"
    and "switch_active (mkb m) (mgid m) (mretain m) good_io (kbs s) = (r, w')"
  obtains sh where "has_shape m s w' sh (crash_mutation n m s)" "point_ok m (srcs s) sh"
proof
  let ?sts = "mutation_steps m (had_old m s)"
  let ?sh = "fold (shape_step m (had_old m s)) (take n ?sts) (NoFile, srcs s, False)"
  have "distinct ?sts" by (auto simp: mutation_steps_def)
  moreover have "had_old m s \<or> mnew m \<noteq> None" by (auto simp: had_old_def)
  ultimately show "has_shape m s w' ?sh (crash_mutation n m s)"
    unfolding crash_mutation_def using assms by (intro shape_fold) auto
  show "point_ok m (srcs s) ?sh" by (rule throughout_take) (rule crash_points [OF assms(1)])
qed

lemma is_entry_jpath [simp]: "is_entry_name (jpath job)"
  by (simp add: is_entry_name_def jpath_def)

lemma switch_commits:
  assumes "kb_good (states w kb)" "switch_active kb gid retain i w = (Inr prev, w')"
  shows "generation_is_committed kb gid w' = Inr True"
proof -
  from assms(1) obtain d where inv: "kb_inv d" and d: "\<And>strict. kb_load strict (states w kb) = Inr d"
    by (rule kb_goodE) blast
  from assms(2) obtain ep es where
    c: "kb_commit kb (switch_active_data gid retain ep) i (w\<lparr>epochs := es\<rparr>) = (Inr prev, w')"
    by (auto simp: switch_active_def split: sum.splits prod.splits)
  from c obtain d' where sw: "switch_active_data gid retain ep d = Inr (prev, d')"
    and w': "states w' kb = Doc (kb_doc kb d')"
    by (cases rule: kb_commit_cases) (auto simp: d)
  from preserves_switch inv sw have "kb_inv d'" by (auto simp: preserves_def)
  moreover have "active_generation d' = Some gid"
    using sw by (auto simp: switch_active_data_def Let_def)
  ultimately show ?thesis by (simp add: generation_is_committed_def w' kb_load_doc)
qed

text \<open>The evidence a recovery finds at a crash point decides in favour of the switch.\<close>

lemma point_direction:
  assumes "point_ok m f0 (Doc e, f, b)" "mutation_ok m s"
    and "generation_is_committed (mkb m) (mgid m) w = Inr b"
    and "b \<or> lc_status (mkb m) (lifecycle w) = Inr LIFECYCLE_ACTIVE"
  shows "is_committed e w = Inr b"
  using assms
  by (cases b) (auto simp: is_committed_def entry_for_def undone_by_def mutation_ok_def)

lemma point_restored:
  assumes "point_ok m f0 (Doc e, f, b)" "mutation_ok m s" "restored e b f f'"
  shows "f' (mdest m) = (if b then mnew m else f0 (mdest m))"
  using assms
  by (auto simp: restored_def entry_for_def undone_by_def mutation_ok_def Let_def jdefault_def
      split: if_splits option.splits)

text \<open>A concrete upload over an existing file, for a generation that is ready to be switched to.\<close>

definition demo_upload :: mutation where
  "demo_upload = \<lparr>mjob = ''j1'', mkb = ''kb'', mdest = ''a.md'', mbackup = ''a.md.bak'', mgid = ''g1'',
     mnew = Some ''new'', mretain = True\<rparr>"

definition demo_journal :: jstate where
  "demo_journal = \<lparr>jdir = True, jfiles = [], jdegraded = False,
     srcs = (\<lambda>_. None)(''a.md'' := Some ''old''), kbs = ready_demo\<rparr>"

lemmas crash_eval = crash_mutation_def mutation_steps_def had_old_def demo_upload_def demo_journal_def
  begin_upload_def journal_write_def good_write safe_replace_def mark_source_moved_def amend_def jload_def
  jread_def jassign_def

text \<open>C19. Crash atomicity of an upload or a deletion.  Let the process die after any number \<open>n\<close> of the
  durable steps, and let the start-up recovery run, with whatever faults, until it returns normally.
  Then the target file holds the new content (is absent, for a deletion) exactly if the generation
  was committed before the crash, and otherwise its old content; the entry is gone.  So the crashed
  run refines the atomic specification in which either nothing or the whole mutation happened.\<close>

theorem crashed_mutation_is_atomic:
  assumes m: "mutation_ok m s" and fresh: "jread (jpath (mjob m)) s = NoFile"
    and files: "distinct (map fst (jfiles s))" and ap: "apart (jpath (mjob m)) {mdest m, mbackup m} s"
    and kb: "kb_good (states (kbs s) (mkb m))"
    and before: "generation_is_committed (mkb m) (mgid m) (kbs s) = Inr False"
    and live: "lc_status (mkb m) (lifecycle (kbs s)) = Inr LIFECYCLE_ACTIVE"
    and switch: "switch_active (mkb m) (mgid m) (mretain m) good_io (kbs s) = (Inr prev, w')"
    and recovery: "recover_all i (crash_mutation n m s) = (Inr jobs, s')"
  shows "\<exists>committed. generation_is_committed (mkb m) (mgid m) (kbs s') = Inr committed
    \<and> srcs s' (mdest m) = (if committed then mnew m else srcs s (mdest m))
    \<and> jread (jpath (mjob m)) s' = NoFile"
proof -
  let ?name = "jpath (mjob m)" and ?t = "crash_mutation n m s" and ?ps = "{mdest m, mbackup m}"
  obtain c f b where sh: "has_shape m s w' (c, f, b) ?t" and ok: "point_ok m (srcs s) (c, f, b)"
    using crash_shape [OF m fresh files switch] by (metis prod_cases3)
  have g: "generation_is_committed (mkb m) (mgid m) (kbs ?t) = Inr b"
    using sh before switch_commits [OF kb switch] by (cases b) auto
  have l: "b \<or> lc_status (mkb m) (lifecycle (kbs ?t)) = Inr LIFECYCLE_ACTIVE" using sh live by auto
  have ap': "apart ?name ?ps ?t" using ap sh unfolding apart_def by auto
  show ?thesis
  proof (cases c)
    case NoFile
    have "srcs s' (mdest m) = srcs ?t (mdest m) \<and> jread ?name s' = NoFile \<and> kbs s' = kbs ?t"
    proof (cases "jdir ?t")
      case True
      then have "recover_names i (map fst (jfiles ?t)) ([], []) ?t = (Inr (jobs, []), s')"
        using recovery by (auto simp: recover_all_def split: if_splits sum.splits prod.splits)
      from recover_names_frame [OF this _ ap'] sh NoFile show ?thesis by simp
    qed (use recovery sh NoFile in \<open>auto simp: recover_all_def split: if_splits\<close>)
    then show ?thesis using g sh ok NoFile by auto
  next
    case (Doc e)
    have d: "jdir ?t" "distinct (map fst (jfiles ?t))" "jread ?name ?t = Doc e" using sh Doc by auto
    from recover_all_one [OF recovery d is_entry_jpath ap'] obtain t t' where
      r: "recover_name i ?name t = (Inr True, t')" "jread ?name t = Doc e" "kbs t = kbs ?t"
      "\<forall>p \<in> ?ps. srcs t p = srcs ?t p" "\<forall>p \<in> ?ps. srcs s' p = srcs t' p"
      "jread ?name s' = NoFile" "kbs s' = kbs ?t"
      by blast
    from r(1) obtain e' c' where e': "jread ?name t = Doc e'" "is_committed e' (kbs t) = Inr c'"
      "restored e' c' (srcs t) (srcs t')"
      by (rule recover_name_True) blast
    have "e' = e" using e'(1) r(2) by simp
    moreover have "is_committed e (kbs t) = Inr b"
      using point_direction [OF _ m g l] ok Doc r(3) by simp
    ultimately have "restored e b (srcs t) (srcs t')" using e'(2,3) by simp
    moreover have "point_ok m (srcs s) (Doc e, srcs t, b)"
      using ok Doc sh r(4) by (auto simp: undone_by_def split: if_splits)
    ultimately have "srcs t' (mdest m) = (if b then mnew m else srcs s (mdest m))"
      using point_restored [OF _ m] by blast
    then show ?thesis using g r(5,6,7) by auto
  qed (use ok in auto)
qed

section \<open>Recovering again\<close>

text \<open>The files after an undisturbed recovery, and the entries it gives up on: the old file was moved
  aside and its backup is missing.\<close>

definition settled :: "json \<Rightarrow> bool \<Rightarrow> (string \<Rightarrow> string option) \<Rightarrow> string \<Rightarrow> string option" where
  "settled e c f =
     (let dest = entry_dest e; backup = entry_backup e in
      if jfield e ''rolled_back'' = JBool True then f
      else if c then (if jfield e ''had_old'' = JBool True then f(backup := None) else f)
      else if jfield e ''had_old'' = JBool True then
        (case f backup of Some x \<Rightarrow> (f(backup := None))(dest := Some x) | None \<Rightarrow> f)
      else f(dest := None))"

definition stuck :: "json \<Rightarrow> bool \<Rightarrow> (string \<Rightarrow> string option) \<Rightarrow> bool" where
  "stuck e c f \<longleftrightarrow>
     \<not> c \<and> jfield e ''rolled_back'' \<noteq> JBool True \<and> jfield e ''had_old'' = JBool True \<and>
     jdefault e ''source_moved'' (JBool False) = JBool True \<and> f (entry_backup e) = None"

lemma good_recover_entry:
  assumes v: "valid_entry e" and c: "is_committed e (kbs s) = Inr c"
  shows "recover_entry good_jio e s = (Inr (\<not> stuck e c (srcs s)), s\<lparr>srcs := settled e c (srcs s)\<rparr>)"
proof -
  from valid_entryD [OF v] obtain old moved where e:
    "truthy (jfield e ''dest'')" "truthy (jfield e ''backup'')"
    "jfield e ''had_old'' = JBool old" "jhas e ''had_old''"
    "jdefault e ''source_moved'' (JBool False) = JBool moved"
    "jfield e ''op'' = JStr OP_DELETE_DOC \<longrightarrow> old"
    by auto
  have h: "jdefault e ''had_old'' (JBool False) = JBool old" using e by (simp add: jdefault_def)
  show ?thesis
    using e h unfolding recover_entry_def c settled_def stuck_def
    by (auto simp: Let_def silent_remove_def safe_replace_def fun_upd_idem split: option.splits)
qed

lemma good_recover_name:
  assumes e: "jread name s = Doc e" "valid_entry e" "is_committed e (kbs s) = Inr c"
  shows "\<exists>s'. recover_name good_jio name s = (Inr (\<not> stuck e c (srcs s)), s')
    \<and> srcs s' = settled e c (srcs s) \<and> (stuck e c (srcs s) \<longrightarrow> s' = s)"
proof (cases "stuck e c (srcs s)")
  case True
  then have "settled e c (srcs s) = srcs s" by (simp add: stuck_def settled_def)
  with True show ?thesis
    by (simp add: recover_name_def jload_def e recover_valid_def good_recover_entry)
next
  case False
  have r: "fst (remove_entry good_jio name t)" "srcs (snd (remove_entry good_jio name t)) = srcs t" for t
    by (simp_all add: remove_entry_def)
  show ?thesis
    using False unfolding recover_name_def jload_def recover_valid_def
    by (simp add: e good_recover_entry good_write case_prod_beta r)
qed

theorem crashed_mutation_is_atomic_witness:
  "srcs (snd (recover_all good_jio (crash_mutation 4 demo_upload demo_journal))) ''a.md'' = Some ''old''"
proof -
  let ?t = "crash_mutation 4 demo_upload demo_journal"
  let ?e = "jput ''source_moved'' (JBool True) (new_entry OP_UPLOAD ''kb'' ''a.md'' ''a.md.bak'' True)"
  have t: "?t = demo_journal\<lparr>jfiles := [(''j1.json'', Doc ?e)],
      srcs := (\<lambda>_. None)(''a.md'' := Some [], ''a.md.bak'' := Some ''old'')\<rparr>"
    by (simp add: crash_eval jpath_def new_entry_def fun_upd_twist)
  have "is_committed ?e (kbs ?t) = Inr False" by (simp add: is_committed_def entry_eval)
  moreover have "valid_entry ?e" "jread ''j1.json'' ?t = Doc ?e"
    by (simp add: entry_eval) (simp add: t jread_def)
  moreover have "\<not> stuck ?e False (srcs ?t)" by (simp add: t stuck_def entry_eval)
  ultimately obtain s' where s': "recover_name good_jio ''j1.json'' ?t = (Inr True, s')"
    using good_recover_name [of "''j1.json''" ?t ?e False] by auto
  have sel: "kbs ?t = ready_demo" "jdir ?t" "\<not> jdegraded ?t" "map fst (jfiles ?t) = [''j1.json'']"
    unfolding t by (simp_all add: demo_journal_def)
  from s' have k: "kbs s' = ready_demo" by (rule recover_name_True) (simp add: sel)
  from s' have r: "recover_all good_jio ?t = (Inr [''j1''], s')"
    by (simp add: recover_all_def sel is_entry_name_def)
  obtain w' where w: "switch_active ''kb'' ''g1'' True good_io ready_demo = (Inr None, w')"
    using ready_demo_switch by blast
  have "apart (jpath ''j1'') {''a.md'', ''a.md.bak''} demo_journal"
    by (simp add: apart_def demo_journal_def jread_def)
  moreover have "lc_status ''kb'' (lifecycle ready_demo) = Inr LIFECYCLE_ACTIVE"
    by (simp add: ready_demo_def empty_world_def lc_status_def lc_load_or_corrupt_def lc_load_def)
  ultimately have "srcs s' ''a.md'' = Some ''old''"
    using crashed_mutation_is_atomic [OF _ _ _ _ _ _ _ _ r, of None w'] w ready_demo_good ready_demo_open k
    by (auto simp: demo_upload_def demo_journal_def mutation_ok_def jread_def)
  then show ?thesis by (simp add: r)
qed

text \<open>The mark recovery writes keeps the entry valid and its direction.\<close>

definition concluded :: "bool \<Rightarrow> json \<Rightarrow> json" where
  "concluded c e = jput (if c then ''committed'' else ''rolled_back'') (JBool True) e"

lemma jdefault_put:
  "is_obj j \<Longrightarrow> jdefault (jput k v j) k' d = (if k' = k then v else jdefault j k' d)"
  by (simp add: jdefault_def json_simps)

lemma concluded_valid:
  assumes v: "valid_entry e" and t: "\<not> entry_terminal e"
  shows "valid_entry (concluded c e)"
proof -
  note o = valid_entryD(1) [OF v]
  have "jdefault e ''committed'' (JBool False) \<noteq> JBool True" "jdefault e ''rolled_back'' (JBool False) \<noteq> JBool True"
    using t by (simp_all add: jdefault_def entry_terminal_def)
  then show ?thesis
    using v o unfolding valid_entry_def Let_def concluded_def
    by (cases c) (simp_all add: jdefault_put json_simps)
qed

lemma concluded_fields:
  assumes "valid_entry e"
  shows "jfield (concluded c e) ''dest'' = jfield e ''dest''"
    "jfield (concluded c e) ''backup'' = jfield e ''backup''"
    "jfield (concluded c e) ''had_old'' = jfield e ''had_old''"
    "jfield (concluded c e) ''kb_id'' = jfield e ''kb_id''"
    "jfield (concluded c e) ''gen_id'' = jfield e ''gen_id''"
    "jfield (concluded c e) ''committed'' = (if c then JBool True else jfield e ''committed'')"
    "jfield (concluded c e) ''rolled_back'' = (if c then jfield e ''rolled_back'' else JBool True)"
  using valid_entryD(1) [OF assms] by (simp_all add: concluded_def json_simps)

lemma concluded_direction:
  assumes "valid_entry e" "is_committed e w = Inr c"
  shows "is_committed (concluded c e) w = Inr c"
  using assms(2) unfolding is_committed_def concluded_fields [OF assms(1)] by (cases c) simp_all

text \<open>What an unresolved turn leaves behind.\<close>

lemma recover_name_False:
  assumes e: "jread name s = Doc e" "valid_entry e" "is_committed e (kbs s) = Inr c"
    and r: "recover_name i name s = (Inr False, s1)"
  obtains (untouched) "s1 = s"
  | (acted) "restored e c (srcs s) (srcs s1)" "kbs s1 = kbs s"
      "jread name s1 = Doc e \<or> \<not> entry_terminal e \<and> jread name s1 = Doc (concluded c e)"
proof -
  from r e have rv: "recover_valid i name e s = (Inr False, s1)" by (simp add: recover_name_def jload_def)
  obtain r' t where t: "recover_entry i e s = (r', t)" by (cases "recover_entry i e s")
  from recover_entry_effect [OF e(2,3) t] obtain ok f where eff: "r' = Inr ok" "t = s\<lparr>srcs := f\<rparr>"
    "\<not> ok \<longrightarrow> t = s" "ok \<longrightarrow> restored e c (srcs s) (srcs t)" by blast
  show thesis
  proof (cases ok)
    case False
    with rv eff(1) t e(3) have "s1 = t" by (simp add: recover_valid_def)
    with False eff(3) show thesis by (intro untouched) simp
  next
    case True
    have w: "write_name i name (concluded c e) t = (x, u) \<Longrightarrow> jread name u = Doc e \<or> jread name u = Doc (concluded c e)"
      for x u using write_name_effect(6) [of i name "concluded c e" t x u] eff(2) e(1) by auto
    consider (terminal) "entry_terminal e" "remove_entry i name t = (False, s1)"
      | (unwritten) x where "\<not> entry_terminal e" "write_name i name (concluded c e) t = (Inl x, s1)"
      | (unremoved) u s2 where "\<not> entry_terminal e" "write_name i name (concluded c e) t = (Inr u, s2)"
          "remove_entry i name s2 = (False, s1)"
      using rv by (auto simp: recover_valid_def e(3) t eff(1) True concluded_def split: if_splits prod.splits sum.splits)
    then show thesis
    proof cases
      case terminal
      with eff True e(1) show thesis using remove_entry_effect(6) [OF terminal(2)] by (intro acted) auto
    next
      case unwritten
      with eff True w write_name_effect(1,2) [OF unwritten(2)] show thesis by (intro acted) auto
    next
      case unremoved
      with eff True w write_name_effect(1,2) [OF unremoved(2)] remove_entry_effect(6) [OF unremoved(3)]
      show thesis by (intro acted) auto
    qed
  qed
qed

lemma settled_restored:
  assumes "restored e c f f'"
  shows "settled e c f' (entry_dest e) = settled e c f (entry_dest e)"
  using assms by (auto simp: restored_def settled_def Let_def split: if_splits option.splits)

lemma settled_concluded:
  assumes "valid_entry e" "restored e c f f'" "\<not> entry_terminal e"
  shows "settled (concluded c e) c f' (entry_dest e) = settled e c f (entry_dest e)"
  using assms by (cases c) (auto simp: restored_def settled_def Let_def concluded_fields entry_terminal_def
      split: if_splits option.splits)

lemma concluded_not_stuck: "valid_entry e \<Longrightarrow> \<not> stuck (concluded c e) c f"
  by (simp add: stuck_def concluded_fields)

text \<open>Retrying recovery.  When a turn of the recovery loop leaves a valid entry unresolved, whatever
  failed (restoring a file, recording the conclusion, removing the entry), a later undisturbed turn
  decides the same direction: the target ends as it would have without the first attempt, and the
  entry is resolved unless it records a moved file whose backup is missing.\<close>

theorem recovery_retry:
  assumes e: "jread name s = Doc e" "valid_entry e" "is_committed e (kbs s) = Inr c"
    and r: "recover_name i name s = (Inr False, s1)"
  shows "\<exists>ok s2. recover_name good_jio name s1 = (Inr ok, s2)
    \<and> srcs s2 (entry_dest e) = srcs (snd (recover_name good_jio name s)) (entry_dest e)
    \<and> (ok \<or> stuck e c (srcs s1))"
proof -
  from good_recover_name [OF e] obtain t where
    t: "recover_name good_jio name s = (Inr (\<not> stuck e c (srcs s)), t)" "srcs t = settled e c (srcs s)"
    by blast
  from e r show ?thesis
  proof (cases rule: recover_name_False)
    case untouched
    with t show ?thesis by auto
  next
    case acted
    from acted(3) show ?thesis
    proof (elim disjE conjE)
      assume "jread name s1 = Doc e"
      with good_recover_name [of name s1 e c] e acted(2)
      obtain s2 where "recover_name good_jio name s1 = (Inr (\<not> stuck e c (srcs s1)), s2)"
        "srcs s2 = settled e c (srcs s1)" by auto
      then show ?thesis using t settled_restored [OF acted(1)] by auto
    next
      assume n: "\<not> entry_terminal e" and d: "jread name s1 = Doc (concluded c e)"
      from good_recover_name [OF d concluded_valid [OF e(2) n]] concluded_direction [OF e(2,3)] acted(2)
      obtain s2 where "recover_name good_jio name s1 = (Inr True, s2)"
        "srcs s2 = settled (concluded c e) c (srcs s1)"
        using concluded_not_stuck [OF e(2)] by auto
      then show ?thesis using t settled_concluded [OF e(2) acted(1) n] by auto
    qed
  qed
qed

text \<open>The entry of the demonstration upload, found after a crash.\<close>

definition demo_entry :: json where
  "demo_entry = jput ''source_moved'' (JBool True) (new_entry OP_UPLOAD ''kb'' ''a.md'' ''a.md.bak'' True)"

definition demo_crashed :: jstate where
  "demo_crashed = demo_journal\<lparr>jfiles := [(''j1.json'', Doc demo_entry)],
     srcs := (\<lambda>_. None)(''a.md'' := Some [], ''a.md.bak'' := Some ''old'')\<rparr>"

lemma demo_entry_facts:
  "jread ''j1.json'' demo_crashed = Doc demo_entry" "valid_entry demo_entry"
  "is_committed demo_entry (kbs demo_crashed) = Inr False" "\<not> entry_terminal demo_entry"
  "jfield demo_entry ''had_old'' = JBool True" "jfield demo_entry ''source_moved'' = JBool True"
  "entry_backup demo_entry = ''a.md.bak''" "entry_dest demo_entry = ''a.md''"
  "srcs demo_crashed ''a.md.bak'' = Some ''old''"
  by (simp_all add: demo_entry_def demo_crashed_def jread_def is_committed_def entry_terminal_def entry_eval)

theorem recovery_retry_witness:
  "\<exists>ok s2. recover_name good_jio ''j1.json'' (snd (recover_name (good_jio\<lparr>sreplace := (\<lambda>_. False)\<rparr>) ''j1.json'' demo_crashed))
      = (Inr ok, s2)
    \<and> srcs s2 ''a.md'' = srcs (snd (recover_name good_jio ''j1.json'' demo_crashed)) ''a.md''
    \<and> (ok \<or> stuck demo_entry False (srcs demo_crashed))"
proof -
  have "recover_entry (good_jio\<lparr>sreplace := (\<lambda>_. False)\<rparr>) demo_entry demo_crashed = (Inr False, demo_crashed)"
    using demo_entry_facts unfolding recover_entry_def
    by (simp add: safe_replace_def demo_entry_def entry_eval)
  then have r: "recover_name (good_jio\<lparr>sreplace := (\<lambda>_. False)\<rparr>) ''j1.json'' demo_crashed
      = (Inr False, demo_crashed)"
    using demo_entry_facts by (simp add: recover_name_def jload_def recover_valid_def)
  from recovery_retry [OF demo_entry_facts(1-3) this] demo_entry_facts(8) r show ?thesis by simp
qed





end
