(* ===== verification/Tenant_Quota.thy ===== *)
theory Tenant_Quota
  imports PyJson
begin

text \<open>
  Admission-time tenant quotas (\<open>api/tenant_quota.py\<close>): usage is derived from the registry and the
  committed source files, and a reservation covers the window until an asynchronous job ends.

  The registry the manager is built on is a parameter: the rows it lists for a tenant and the source
  directory of a storage identifier.  A directory is what \<open>os.scandir\<close> and \<open>os.stat\<close> show of it.
\<close>

section \<open>Names of source files\<close>

text \<open>\<open>service/mutation_paths.py\<close>: the logical name behind a backup file.\<close>

definition MUTATION_BACKUP_SUFFIX :: string where
  "MUTATION_BACKUP_SUFFIX = ''.cogdoc-bak''"

definition py_endswith :: "string \<Rightarrow> string \<Rightarrow> bool" where
  "py_endswith s suf \<longleftrightarrow> length suf \<le> length s \<and> drop (length s - length suf) s = suf"

text \<open>\<open>str.rpartition(".")\<close>: the text before the last dot, whether there is one, the text after it.\<close>

definition after_dot :: "string \<Rightarrow> string" where
  "after_dot s = rev (takeWhile (\<lambda>c. c \<noteq> CHR ''.'') (rev s))"

definition rpartition_dot :: "string \<Rightarrow> string \<times> bool \<times> string" where
  "rpartition_dot s =
     (if CHR ''.'' \<in> set s then (take (length s - length (after_dot s) - 1) s, True, after_dot s)
      else ([], False, s))"

definition original_name_from_backup :: "string \<Rightarrow> string" where
  "original_name_from_backup filename =
     (if \<not> py_endswith filename MUTATION_BACKUP_SUFFIX then filename
      else (case rpartition_dot (take (length filename - length MUTATION_BACKUP_SUFFIX) filename) of
              (original, separator, tok) \<Rightarrow>
                if separator \<and> original \<noteq> [] \<and> tok \<noteq> [] then original else filename))"

text \<open>\<open>os.path.splitext(name)[1]\<close> of a name without a slash: leading dots are not a suffix.\<close>

definition extension :: "string \<Rightarrow> string" where
  "extension name =
     (case rpartition_dot name of
        (stem, dot, ext) \<Rightarrow> if dot \<and> (\<exists>c \<in> set stem. c \<noteq> CHR ''.'') then CHR ''.'' # ext else [])"

text \<open>\<open>str.casefold\<close> for the comparison with ASCII extensions: no other code point below 256 folds to
  a text of theirs (only the sharp s folds to ASCII letters at all, and no extension has two s).\<close>

definition fold_char :: "char \<Rightarrow> char" where
  "fold_char c = (let n = ord_char c in if 65 \<le> n \<and> n \<le> 90 then char_of (n + 32) else c)"

definition SUPPORTED_EXTENSIONS :: "string list" where
  "SUPPORTED_EXTENSIONS =
     [''.pdf'', ''.md'', ''.markdown'', ''.txt'', ''.html'', ''.htm'', ''.docx'', ''.pptx'', ''.xlsx'',
      ''.png'', ''.jpg'', ''.jpeg'', ''.webp'', ''.tif'', ''.tiff'', ''.bmp'']"

definition supported :: "string \<Rightarrow> bool" where
  "supported logical = (map fold_char (extension logical) \<in> set SUPPORTED_EXTENSIONS)"

definition py_basename :: "string \<Rightarrow> string" where
  "py_basename p = rev (takeWhile (\<lambda>c. c \<noteq> CHR ''/'') (rev p))"

section \<open>State\<close>

text \<open>A directory entry: a regular file with its size, something else, an entry that vanished since
  the scan, or one whose status cannot be read.\<close>

datatype fentry = Regular int | Special | Vanished | Denied

datatype dirstate = NoDir | DirDenied | Dir "(string \<times> fentry) list"

record kb_row =
  row_storage :: "string option"
  row_kb :: "string option"

record quota_policy =
  max_knowledge_bases :: int
  max_documents :: int
  max_storage_bytes :: int

datatype rkind = KnowledgeBase | Upload | Connector

record reservation =
  r_tenant :: string
  r_kind :: rkind
  r_storage :: string
  r_file :: string
  r_docs :: int
  r_bytes :: int

record quota_state =
  krows :: "string \<Rightarrow> kb_row list" \<comment> \<open>\<open>registry.list(tenant_id=...)\<close>\<close>
  dirs :: "string \<Rightarrow> dirstate"
  reservations :: "(string \<times> reservation) list"

section \<open>Usage\<close>

text \<open>The loop of \<open>_document_entries\<close>.\<close>

fun entries_loop :: "(string \<times> fentry) list \<Rightarrow> (string \<times> int) list \<Rightarrow> (string \<times> int) list res" where
  "entries_loop [] result = Inr result"
| "entries_loop ((name, e) # es) result =
     (let logical = original_name_from_backup name in
      if \<not> supported logical then entries_loop es result
      else (case e of
          Special \<Rightarrow> entries_loop es result
        | Vanished \<Rightarrow> entries_loop es result
        | Denied \<Rightarrow> Inl OSError
        | Regular sz \<Rightarrow>
            entries_loop es (jset logical
              (max (case map_of result logical of None \<Rightarrow> 0 | Some n \<Rightarrow> n) (max 0 sz)) result)))"

definition document_entries :: "dirstate \<Rightarrow> (string \<times> int) list res" where
  "document_entries d =
     (case d of NoDir \<Rightarrow> Inr [] | DirDenied \<Rightarrow> Inl OSError | Dir es \<Rightarrow> entries_loop es [])"

definition document_usage :: "dirstate \<Rightarrow> (int \<times> int) res" where
  "document_usage d =
     bindR (document_entries d) (\<lambda>entries. Inr (int (length entries), sum_list (map snd entries)))"

definition py_or :: "string option \<Rightarrow> string \<Rightarrow> string" where
  "py_or a b = (case a of Some s \<Rightarrow> if s = [] then b else s | None \<Rightarrow> b)"

definition row_id :: "kb_row \<Rightarrow> string" where
  "row_id row = py_or (row_storage row) (py_or (row_kb row) [])"

text \<open>\<open>_actual_usage\<close>: the loop over the rows, then the three counters.\<close>

fun rows_usage :: "(string \<Rightarrow> string) \<Rightarrow> (string \<Rightarrow> dirstate) \<Rightarrow> kb_row list \<Rightarrow> (int \<times> int) res" where
  "rows_usage sdir ds [] = Inr (0, 0)"
| "rows_usage sdir ds (row # rows) =
     (if row_id row = [] then rows_usage sdir ds rows
      else bindR (document_usage (ds (sdir (row_id row)))) (\<lambda>(count, bytes).
           bindR (rows_usage sdir ds rows) (\<lambda>(documents, storage).
             Inr (count + documents, bytes + storage))))"

definition actual_usage :: "(string \<Rightarrow> string) \<Rightarrow> quota_state \<Rightarrow> string \<Rightarrow> (int \<times> int \<times> int) res" where
  "actual_usage sdir s tenant =
     bindR (rows_usage sdir (dirs s) (krows s tenant)) (\<lambda>(documents, storage).
       Inr (int (length (krows s tenant)), documents, storage))"

text \<open>The sums over \<open>self._reservations.values()\<close> of one tenant.\<close>

definition pending :: "(reservation \<Rightarrow> int) \<Rightarrow> quota_state \<Rightarrow> string \<Rightarrow> int" where
  "pending f s tenant =
     sum_list (map (f \<circ> snd) (filter (\<lambda>(tok, r). r_tenant r = tenant) (reservations s)))"

definition r_kbs :: "reservation \<Rightarrow> int" where
  "r_kbs r = (if r_kind r = KnowledgeBase then 1 else 0)"

definition snapshot :: "(string \<Rightarrow> string) \<Rightarrow> quota_state \<Rightarrow> string \<Rightarrow> ((int \<times> int \<times> int) \<times> (int \<times> int \<times> int)) res" where
  "snapshot sdir s tenant =
     bindR (actual_usage sdir s tenant) (\<lambda>usage.
       Inr (usage, (pending r_kbs s tenant, pending r_docs s tenant, pending r_bytes s tenant)))"

section \<open>Admission\<close>

definition enforce :: "string \<Rightarrow> int \<Rightarrow> int \<Rightarrow> int \<Rightarrow> unit res" where
  "enforce resource limit used requested =
     guardR (\<not> (0 < limit \<and> limit < used + requested)) (TenantQuotaExceeded resource limit used requested)"

definition add_reservation :: "string \<Rightarrow> reservation \<Rightarrow> quota_state \<Rightarrow> quota_state" where
  "add_reservation tok r s = s\<lparr>reservations := jset tok r (reservations s)\<rparr>"

text \<open>A method that either raises and changes nothing or returns its new token.\<close>

definition admit :: "reservation res \<Rightarrow> string \<Rightarrow> quota_state \<Rightarrow> string res \<times> quota_state" where
  "admit r tok s = (case r of Inl e \<Rightarrow> (Inl e, s) | Inr v \<Rightarrow> (Inr tok, add_reservation tok v s))"

definition reserve_knowledge_base ::
  "quota_policy \<Rightarrow> (string \<Rightarrow> string) \<Rightarrow> string \<Rightarrow> string \<Rightarrow> quota_state \<Rightarrow> string res \<times> quota_state" where
  "reserve_knowledge_base pol sdir tenant tok s =
     admit (bindR (actual_usage sdir s tenant) (\<lambda>(kbs, documents, storage).
            bindR (enforce ''knowledge_bases'' (max_knowledge_bases pol) (kbs + pending r_kbs s tenant) 1) (\<lambda>_.
              Inr \<lparr>r_tenant = tenant, r_kind = KnowledgeBase, r_storage = [], r_file = [],
                   r_docs = 0, r_bytes = 0\<rparr>))) tok s"

text \<open>The documents and bytes checks an upload and a connector snapshot share.\<close>

definition enforce_growth :: "quota_policy \<Rightarrow> quota_state \<Rightarrow> string \<Rightarrow> int \<times> int \<times> int \<Rightarrow> int \<Rightarrow> int \<Rightarrow> unit res" where
  "enforce_growth pol s tenant usage ddocs dbytes =
     (case usage of (kbs, documents, storage) \<Rightarrow>
        bindR (enforce ''documents'' (max_documents pol) (documents + pending r_docs s tenant) ddocs) (\<lambda>_.
          enforce ''storage_bytes'' (max_storage_bytes pol) (storage + pending r_bytes s tenant) dbytes))"

text \<open>\<open>os.stat\<close> of the destination: the size of an existing regular file.\<close>

definition old_file :: "dirstate \<Rightarrow> string \<Rightarrow> int option" where
  "old_file d name =
     (case d of Dir es \<Rightarrow> (case map_of es name of Some (Regular n) \<Rightarrow> Some n | _ \<Rightarrow> None) | _ \<Rightarrow> None)"

definition upload_docs :: "int option \<Rightarrow> int" where
  "upload_docs old = (if old = None then 1 else 0)"

definition upload_bytes :: "int option \<Rightarrow> int \<Rightarrow> int" where
  "upload_bytes old sz = max 0 (sz - max 0 (case old of None \<Rightarrow> 0 | Some n \<Rightarrow> n))"

definition same_upload :: "string \<Rightarrow> string \<Rightarrow> reservation \<Rightarrow> bool" where
  "same_upload storage name r \<longleftrightarrow> r_kind r = Upload \<and> r_storage r = storage \<and> r_file r = name"

definition reserve_upload ::
  "quota_policy \<Rightarrow> (string \<Rightarrow> string) \<Rightarrow> string \<Rightarrow> string \<Rightarrow> string \<Rightarrow> string \<Rightarrow> int \<Rightarrow> string \<Rightarrow> quota_state \<Rightarrow> string res \<times> quota_state" where
  "reserve_upload pol sdir tenant storage source_dir filename content_bytes tok s =
     admit
      (let safe_name = py_basename filename; sz = max 0 content_bytes in
       bindR (guardR (safe_name \<noteq> [] \<and> safe_name = filename) (ValueError ''filename must be a basename'')) (\<lambda>_.
       bindR (guardR (\<not> (\<exists>(t, r) \<in> set (reservations s). same_upload storage safe_name r))
                TenantMutationInProgress) (\<lambda>_.
       bindR (actual_usage sdir s tenant) (\<lambda>usage.
       let old = old_file (dirs s source_dir) safe_name;
           ddocs = upload_docs old; dbytes = upload_bytes old sz in
       bindR (enforce_growth pol s tenant usage ddocs dbytes) (\<lambda>_.
         Inr \<lparr>r_tenant = tenant, r_kind = Upload, r_storage = storage, r_file = safe_name,
              r_docs = ddocs, r_bytes = dbytes\<rparr>))))) tok s"

definition same_connector :: "string \<Rightarrow> string \<Rightarrow> string \<Rightarrow> reservation \<Rightarrow> bool" where
  "same_connector tenant storage key r \<longleftrightarrow>
     r_kind r = Connector \<and> r_tenant r = tenant \<and> r_storage r = storage \<and> r_file r = key"

definition published_affected :: "(string \<times> int) list \<Rightarrow> (string \<times> int) list \<Rightarrow> (string \<times> int) list \<Rightarrow> (string \<times> int) list" where
  "published_affected baseline proposed published =
     filter (\<lambda>(n, v). n \<in> set (map fst baseline) \<union> set (map fst proposed)) published"

definition connector_growth :: "(string \<times> int) list \<Rightarrow> (string \<times> int) list \<Rightarrow> (string \<times> int) list \<Rightarrow> int \<times> int" where
  "connector_growth baseline proposed published =
     (let aff = published_affected baseline proposed published
      in (max 0 (int (length proposed) - int (length aff)),
          max 0 (sum_list (map snd proposed) - sum_list (map snd aff))))"

text \<open>\<open>reserve_connector_snapshot\<close>; \<open>Inr None\<close> is the \<open>None\<close> of an unlimited policy.\<close>

definition reserve_connector_snapshot ::
  "quota_policy \<Rightarrow> (string \<Rightarrow> string) \<Rightarrow> string \<Rightarrow> string \<Rightarrow> string \<Rightarrow> string \<Rightarrow> string \<Rightarrow> string \<Rightarrow> string \<Rightarrow> quota_state \<Rightarrow> string option res \<times> quota_state" where
  "reserve_connector_snapshot pol sdir tenant storage source_dir baseline_dir proposed_dir reservation_key tok s =
     (if max_documents pol = 0 \<and> max_storage_bytes pol = 0 then (Inr None, s)
      else
       (let key = py_strip reservation_key;
            r = bindR (guardR (key \<noteq> [] \<and> length key \<le> 256) (ValueError ''connector reservation key is invalid'')) (\<lambda>_.
                bindR (guardR (\<not> (\<exists>(t, r) \<in> set (reservations s). same_connector tenant storage key r))
                         TenantMutationInProgress) (\<lambda>_.
                bindR (actual_usage sdir s tenant) (\<lambda>usage.
                bindR (document_entries (dirs s baseline_dir)) (\<lambda>baseline.
                bindR (document_entries (dirs s proposed_dir)) (\<lambda>proposed.
                bindR (document_entries (dirs s source_dir)) (\<lambda>published.
                case connector_growth baseline proposed published of (ddocs, dbytes) \<Rightarrow>
                bindR (enforce_growth pol s tenant usage ddocs dbytes) (\<lambda>_.
                  Inr \<lparr>r_tenant = tenant, r_kind = Connector, r_storage = storage, r_file = key,
                       r_docs = ddocs, r_bytes = dbytes\<rparr>)))))))
        in case admit r tok s of (Inl e, s') \<Rightarrow> (Inl e, s') | (Inr t, s') \<Rightarrow> (Inr (Some t), s')))"

section \<open>Release and fencing\<close>

definition release :: "string option \<Rightarrow> quota_state \<Rightarrow> quota_state" where
  "release tok s =
     (case tok of
        None \<Rightarrow> s
      | Some t \<Rightarrow> if t = [] then s else s\<lparr>reservations := jpop t (reservations s)\<rparr>)"

definition assert_live :: "string option \<Rightarrow> quota_state \<Rightarrow> unit res" where
  "assert_live tok s =
     (case tok of
        None \<Rightarrow> Inl TenantQuotaReservationLost
      | Some t \<Rightarrow> guardR (t \<noteq> [] \<and> map_of (reservations s) t \<noteq> None) TenantQuotaReservationLost)"

end
