(* ===== verification/HA_Storage.thy ===== *)
theory HA_Storage
  imports PyJson
begin

text \<open>
  The transaction seam of the distributed control plane (\<open>ha/storage.py\<close>), the argument checks its
  stores share, and the fragment of SQL they use: a table is the list of its rows, \<open>WHERE\<close> is a
  predicate, \<open>ORDER BY\<close> a sort key, \<open>UPDATE\<close> a map over the rows that satisfy the predicate.
  A comparison with \<open>NULL\<close> is not true, as in SQL.

  \<open>lease_store\<close> is the interface the leased stores (jobs, outbox) share: a lease is a token on a row,
  tokens appear only when they are issued, and a commit needs the token to be on the row.
\<close>

section \<open>Transactions\<close>

record 'd backend =
  closed :: bool
  in_transaction :: bool
  db :: 'd

text \<open>\<open>SQLiteBackend.transaction\<close>: the body sees the data; an exception rolls back.\<close>

definition transaction :: "('d \<Rightarrow> ('r \<times> 'd) res) \<Rightarrow> 'd backend \<Rightarrow> 'r res \<times> 'd backend" where
  "transaction body b =
     (if closed b then (Inl (StorageError ''database backend is closed''), b)
      else if in_transaction b then (Inl (StorageError ''nested backend transactions are not supported''), b)
      else case body (db b) of
        Inl e \<Rightarrow> (Inl e, b)
      | Inr (r, d) \<Rightarrow> (Inr r, b\<lparr>db := d\<rparr>))"

text \<open>
  \<open>retry_transaction\<close>: the operation may behave differently at each attempt \<open>k\<close>, since what the
  database answers is not determined; the second component of the result is the list of sleeps.
\<close>

fun retry_loop :: "(nat \<Rightarrow> 'd \<Rightarrow> ('r \<times> 'd) res) \<Rightarrow> real list \<Rightarrow> nat \<Rightarrow> nat \<Rightarrow> 'd backend \<Rightarrow>
    'r res \<times> real list \<times> 'd backend" where
  "retry_loop op backoff k 0 b = (Inl AssertionError, [], b)"
| "retry_loop op backoff k (Suc n) b =
     (case transaction (op k) b of
        (Inl TransientStorageError, b') \<Rightarrow>
          (if n = 0 then (Inl TransientStorageError, [], b')
           else case retry_loop op backoff (Suc k) n b' of
             (r, sleeps, b'') \<Rightarrow> (r, backoff ! (min k (length backoff - 1)) # sleeps, b''))
      | (r, b') \<Rightarrow> (r, [], b'))"

definition retry_transaction :: "(nat \<Rightarrow> 'd \<Rightarrow> ('r \<times> 'd) res) \<Rightarrow> int \<Rightarrow> real list \<Rightarrow> 'd backend \<Rightarrow>
    'r res \<times> real list \<times> 'd backend" where
  "retry_transaction op attempts backoff b =
     (if attempts < 1 \<or> 10 < attempts then (Inl (ValueError ''attempts must be between 1 and 10''), [], b)
      else if backoff = [] \<or> list_ex (\<lambda>d. d < 0) backoff
      then (Inl (ValueError ''backoff_seconds must contain non-negative delays''), [], b)
      else retry_loop op backoff 0 (nat attempts) b)"

lemma transaction_error: "transaction body b = (Inl e, b') \<Longrightarrow> b' = b"
  by (auto simp: transaction_def split: if_splits sum.splits)

lemma transaction_ok: "transaction body b = (Inr r, b') \<Longrightarrow>
    \<not> closed b \<and> \<not> in_transaction b \<and> body (db b) = Inr (r, db b') \<and> b' = b\<lparr>db := db b'\<rparr>"
  by (auto simp: transaction_def split: if_splits sum.splits)

lemma retry_loop_outcome:
  assumes "0 < n" and "retry_loop op backoff k n b = (r, sleeps, b')"
  shows "length sleeps < n \<and>
    (\<forall>j < length sleeps. transaction (op (k + j)) b = (Inl TransientStorageError, b)) \<and>
    transaction (op (k + length sleeps)) b = (r, b') \<and>
    (r = Inl TransientStorageError \<longrightarrow> length sleeps = n - 1)"
  using assms
proof (induction op backoff k n b arbitrary: r sleeps b' rule: retry_loop.induct)
  case (2 op backoff k n b)
  obtain r0 b0 where t: "transaction (op k) b = (r0, b0)" by fastforce
  show ?case
  proof (cases "r0 = Inl TransientStorageError \<and> n \<noteq> 0")
    case False
    then show ?thesis using 2(3) t by (auto split: sum.splits exn.splits if_splits)
  next
    case True
    then have r0: "r0 = Inl TransientStorageError" and n: "n \<noteq> 0" by auto
    from t r0 have b0: "b0 = b" using transaction_error by blast
    obtain r1 sl b1 where l: "retry_loop op backoff (Suc k) n b = (r1, sl, b1)" by (cases "retry_loop op backoff (Suc k) n b") auto
    from 2(3) t r0 n b0 l have eq: "r = r1" "b' = b1" "sleeps = backoff ! (min k (length backoff - 1)) # sl" by auto
    from "2.IH" [OF t [symmetric] r0 refl n] b0 l n
    have IH: "length sl < n" "\<forall>j < length sl. transaction (op (Suc k + j)) b = (Inl TransientStorageError, b)"
      "transaction (op (Suc k + length sl)) b = (r1, b1)" "r1 = Inl TransientStorageError \<longrightarrow> length sl = n - 1"
      by auto
    have "\<forall>j < length sleeps. transaction (op (k + j)) b = (Inl TransientStorageError, b)"
    proof (intro allI impI)
      fix j assume "j < length sleeps"
      with IH(2) t r0 b0 eq show "transaction (op (k + j)) b = (Inl TransientStorageError, b)"
        by (cases j) auto
    qed
    with IH eq n show ?thesis by auto
  qed
qed simp

text \<open>The data after a transaction: the new data when it returned, the old when it raised.\<close>

definition committed :: "('a \<times> 'd) res \<Rightarrow> 'd \<Rightarrow> 'd" where
  "committed r d = (case r of Inl _ \<Rightarrow> d | Inr (_, d') \<Rightarrow> d')"

lemma committed_simps [simp]: "committed (Inl e) d = d" "committed (Inr (x, d')) d = d'"
  by (simp_all add: committed_def)

lemma committed_prop: "P d \<Longrightarrow> (\<And>x d'. r = Inr (x, d') \<Longrightarrow> P d') \<Longrightarrow> P (committed r d)"
  by (auto simp: committed_def split: sum.splits)

section \<open>Argument checks\<close>

text \<open>\<open>_clean\<close>, the same helper in \<open>ha/tasks.py\<close>, \<open>ha/outbox.py\<close> and \<open>ha/scheduler.py\<close>.\<close>

definition is_clean :: "string \<Rightarrow> nat \<Rightarrow> bool" where
  "is_clean s maximum \<longleftrightarrow> s \<noteq> [] \<and> s = py_strip s \<and> length s \<le> maximum \<and>
     \<not> list_ex (\<lambda>c. ord_char c < 32 \<or> ord_char c = 127) s"

definition clean :: "string \<Rightarrow> string \<Rightarrow> nat \<Rightarrow> string res" where
  "clean s field maximum = (if is_clean s maximum then Inr s else Inl (ValueError (field @ '' is invalid'')))"

lemma clean_Inr [simp]: "clean s field m = Inr t \<longleftrightarrow> is_clean s m \<and> t = s"
  by (auto simp: clean_def)

definition clean_opt :: "string option \<Rightarrow> string \<Rightarrow> nat \<Rightarrow> unit res" where
  "clean_opt s field maximum = (case s of None \<Rightarrow> Inr () | Some t \<Rightarrow> bindR (clean t field maximum) (\<lambda>_. Inr ()))"

lemma clean_opt_Inr [simp]: "clean_opt s field m = Inr u \<longleftrightarrow> (case s of None \<Rightarrow> True | Some t \<Rightarrow> is_clean t m)"
  by (auto simp: clean_opt_def split: option.splits)

text \<open>What the stores use of the standard library: \<open>float.__repr__\<close> inside \<open>json.dumps\<close>, and SHA-256
  (hexadecimal digest of the UTF-8 text).\<close>

record codec =
  float_repr :: "real \<Rightarrow> string"
  sha256 :: "string \<Rightarrow> string"

text \<open>\<open>_json\<close> / \<open>_payload\<close>: the canonical document, or the error.\<close>

definition encode_json :: "codec \<Rightarrow> string \<Rightarrow> json \<Rightarrow> json res" where
  "encode_json c what v =
     (case json_dumps (float_repr c) v of
        None \<Rightarrow> Inl (ValueError (what @ '' must be JSON serializable''))
      | Some t \<Rightarrow> if 1024 * 1024 < utf8_len t then Inl (ValueError (what @ '' exceeds 1 MiB''))
                  else Inr (json_canon v))"

text \<open>The stored text of a document.\<close>

definition json_body :: "codec \<Rightarrow> json \<Rightarrow> string" where
  "json_body c j = (case json_text (float_repr c) j of None \<Rightarrow> [] | Some t \<Rightarrow> t)"

definition lease_ok :: "pyfloat \<Rightarrow> unit res" where
  "lease_ok x = guardR (isfinite x \<and> 1 \<le> fin_val x \<and> fin_val x \<le> 3600)
                  (ValueError ''lease_seconds must be between 1 and 3600'')"

definition limit_ok :: "int \<Rightarrow> int \<Rightarrow> unit res" where
  "limit_ok n hi = guardR (1 \<le> n \<and> n \<le> hi) (ValueError ''limit is out of range'')"

section \<open>SQL\<close>

datatype dialect = SQLite | Postgres

text \<open>\<open>NULL\<close>-aware comparison of a nullable timestamp.\<close>

definition null_le :: "real option \<Rightarrow> real \<Rightarrow> bool" where
  "null_le x y = (case x of None \<Rightarrow> False | Some t \<Rightarrow> t \<le> y)"

definition null_gt :: "real option \<Rightarrow> real \<Rightarrow> bool" where
  "null_gt x y = (case x of None \<Rightarrow> False | Some t \<Rightarrow> y < t)"

lemma null_gt_Some [simp]: "null_gt (Some t) y \<longleftrightarrow> y < t" "\<not> null_gt None y"
  by (simp_all add: null_gt_def)

lemma null_le_Some [simp]: "null_le (Some t) y \<longleftrightarrow> t \<le> y" "\<not> null_le None y"
  by (simp_all add: null_le_def)

text \<open>\<open>ORDER BY\<close> a nullable column, on rows where it is not null.\<close>

definition the_default :: "'a \<Rightarrow> 'a option \<Rightarrow> 'a" where
  "the_default x o' = (case o' of None \<Rightarrow> x | Some y \<Rightarrow> y)"

definition sql_update :: "('r \<Rightarrow> bool) \<Rightarrow> ('r \<Rightarrow> 'r) \<Rightarrow> 'r list \<Rightarrow> 'r list" where
  "sql_update p f rows = map (\<lambda>r. if p r then f r else r) rows"

definition sql_count :: "('r \<Rightarrow> bool) \<Rightarrow> 'r list \<Rightarrow> nat" where
  "sql_count p rows = length (filter p rows)"

definition sql_first :: "('r \<Rightarrow> bool) \<Rightarrow> ('r \<Rightarrow> 'k::linorder) \<Rightarrow> 'r list \<Rightarrow> 'r option" where
  "sql_first p key rows = (case sort_key key (filter p rows) of [] \<Rightarrow> None | r # _ \<Rightarrow> Some r)"

definition sql_select :: "('r \<Rightarrow> bool) \<Rightarrow> ('r \<Rightarrow> 'k::linorder) \<Rightarrow> nat \<Rightarrow> 'r list \<Rightarrow> 'r list" where
  "sql_select p key limit rows = take limit (sort_key key (filter p rows))"

definition sql_find :: "('r \<Rightarrow> bool) \<Rightarrow> 'r list \<Rightarrow> 'r option" where
  "sql_find p rows = List.find p rows"

lemma sql_find_Some: "sql_find p rows = Some r \<Longrightarrow> r \<in> set rows \<and> p r"
  by (auto simp: sql_find_def find_Some_iff)

lemma sql_find_None: "sql_find p rows = None \<longleftrightarrow> (\<forall>r \<in> set rows. \<not> p r)"
  by (auto simp: sql_find_def find_None_iff)

lemma sql_find_append:
  "sql_find p (xs @ ys) = (case sql_find p xs of None \<Rightarrow> sql_find p ys | Some x \<Rightarrow> Some x)"
  by (induction xs) (auto simp: sql_find_def)

lemma sql_find_Cons [simp]: "sql_find p [] = None" "sql_find p (x # xs) = (if p x then Some x else sql_find p xs)"
  by (simp_all add: sql_find_def)

lemma sql_find_unique:
  assumes "distinct (map k rows)" and "r \<in> set rows"
  shows "sql_find (\<lambda>x. k x = k r) rows = Some r"
proof -
  from assms(2) obtain x where x: "sql_find (\<lambda>x. k x = k r) rows = Some x"
    by (cases "sql_find (\<lambda>x. k x = k r) rows") (auto simp: sql_find_None)
  from sql_find_Some [OF this] assms have "x = r" by (auto simp: distinct_map inj_on_def)
  with x show ?thesis by simp
qed

lemma sql_first_Some:
  assumes "sql_first p key rows = Some r"
  shows "r \<in> set rows \<and> p r \<and> (\<forall>x \<in> set rows. p x \<longrightarrow> key r \<le> key x)"
proof -
  from assms obtain rs where s: "sort_key key (filter p rows) = r # rs"
    by (auto simp: sql_first_def split: list.splits)
  have "sorted (map key (r # rs))" using sorted_sort_key [of key "filter p rows"] by (simp add: s)
  moreover have "set (r # rs) = {x \<in> set rows. p x}" using s by (metis set_filter set_sort)
  ultimately show ?thesis by auto
qed

lemma sql_first_None: "sql_first p key rows = None \<longleftrightarrow> (\<forall>r \<in> set rows. \<not> p r)"
proof -
  have "sort_key key (filter p rows) = [] \<longleftrightarrow> filter p rows = []"
    by (metis set_empty set_sort)
  then show ?thesis by (auto simp: sql_first_def filter_empty_conv split: list.splits)
qed

lemma sql_select_set: "set (sql_select p key n rows) \<subseteq> {r \<in> set rows. p r}"
  unfolding sql_select_def using set_take_subset by fastforce

lemma distinct_sort_key: "distinct (map k xs) \<Longrightarrow> distinct (map k (sort_key key xs))"
  by (metis distinct_map distinct_sort set_sort)

lemma distinct_sql_select: "distinct (map k rows) \<Longrightarrow> distinct (map k (sql_select p key n rows))"
  unfolding sql_select_def take_map [symmetric]
  by (intro distinct_take distinct_sort_key distinct_map_filter)

lemma map_sql_update: "(\<And>r. k (f r) = k r) \<Longrightarrow> map k (sql_update p f rows) = map k rows"
  by (simp add: sql_update_def)

lemma sql_update_in:
  "r' \<in> set (sql_update p f rows) \<Longrightarrow> \<exists>r \<in> set rows. r' = (if p r then f r else r)"
  by (auto simp: sql_update_def)

lemma sql_update_one:
  assumes "distinct (map k rows)" and "j \<in> set rows" and "\<And>r. k (f r) = k r"
    and "\<And>r. r \<in> set rows \<Longrightarrow> p r \<longleftrightarrow> r = j"
  shows "sql_update p f rows = sql_update (\<lambda>r. r = j) f rows" and "sql_count p rows = 1"
    and "sql_find (\<lambda>r. k r = k j) (sql_update (\<lambda>r. r = j) f rows) = Some (f j)"
proof -
  show "sql_update p f rows = sql_update (\<lambda>r. r = j) f rows"
    using assms(4) by (auto simp: sql_update_def)
  have one: "{x. x = j \<and> x \<in> set rows} = {j}" using assms(2) by auto
  have "filter p rows = filter (\<lambda>r. r = j) rows" using assms(4) by (metis (mono_tags, lifting) filter_cong)
  moreover have "length (filter (\<lambda>r. r = j) rows) = 1"
    using assms(1,2) distinct_length_filter [of rows "\<lambda>r. r = j"]
    by (auto simp: distinct_map Int_def one)
  ultimately show "sql_count p rows = 1" by (simp add: sql_count_def)
  have "f j \<in> set (sql_update (\<lambda>r. r = j) f rows)" using assms(2) by (auto simp: sql_update_def)
  with assms(1,3) show "sql_find (\<lambda>r. k r = k j) (sql_update (\<lambda>r. r = j) f rows) = Some (f j)"
    using sql_find_unique [of k "sql_update (\<lambda>r. r = j) f rows" "f j"] by (simp add: map_sql_update)
qed

text \<open>A table whose rows are rewritten in place, each by any number of steps.\<close>

definition rows_rewrote :: "('r \<Rightarrow> 'r \<Rightarrow> bool) \<Rightarrow> 'r list \<Rightarrow> 'r list \<Rightarrow> bool" where
  "rows_rewrote step rs rs' \<longleftrightarrow> (\<exists>g. rs' = map g rs \<and> (\<forall>r \<in> set rs. step\<^sup>*\<^sup>* r (g r)))"

lemma rows_rewrote_refl [simp]: "rows_rewrote step rs rs"
  unfolding rows_rewrote_def by (rule exI [of _ id]) simp

lemma rows_rewrote_update:
  "(\<And>r. r \<in> set rs \<Longrightarrow> p r \<Longrightarrow> step r (f r)) \<Longrightarrow> rows_rewrote step rs (sql_update p f rs)"
  unfolding rows_rewrote_def sql_update_def by (rule exI [of _ "\<lambda>r. if p r then f r else r"]) auto

lemma rows_rewrote_trans:
  assumes "rows_rewrote step xs ys" and "rows_rewrote step ys zs"
  shows "rows_rewrote step xs zs"
proof -
  from assms obtain g h where "ys = map g xs" "\<forall>r \<in> set xs. step\<^sup>*\<^sup>* r (g r)" "zs = map h ys" "\<forall>r \<in> set ys. step\<^sup>*\<^sup>* r (h r)"
    unfolding rows_rewrote_def by blast
  then show ?thesis unfolding rows_rewrote_def by (intro exI [of _ "h \<circ> g"]) (auto intro: rtranclp_trans)
qed

lemma rows_rewrote_back: "rows_rewrote step rs rs' \<Longrightarrow> r' \<in> set rs' \<Longrightarrow> \<exists>r \<in> set rs. step\<^sup>*\<^sup>* r r'"
  unfolding rows_rewrote_def by (metis imageE list.set_map)

lemma rows_rewrote_forth: "rows_rewrote step rs rs' \<Longrightarrow> r \<in> set rs \<Longrightarrow> \<exists>r' \<in> set rs'. step\<^sup>*\<^sup>* r r'"
  by (auto simp: rows_rewrote_def)

lemma star_keeps: "step\<^sup>*\<^sup>* r r' \<Longrightarrow> (\<And>a b. step a b \<Longrightarrow> k b = k a) \<Longrightarrow> k r' = k r"
  by (induction rule: rtranclp_induct) auto

lemma star_inv: "step\<^sup>*\<^sup>* r r' \<Longrightarrow> P r \<Longrightarrow> (\<And>a b. step a b \<Longrightarrow> P a \<Longrightarrow> P b) \<Longrightarrow> P r'"
  by (induction rule: rtranclp_induct) auto

lemma rows_rewrote_map:
  assumes "rows_rewrote step rs rs'" and k: "\<And>a b. step a b \<Longrightarrow> k b = k a"
  shows "map k rs' = map k rs"
proof -
  from assms(1) obtain g where "rs' = map g rs" "\<forall>r \<in> set rs. step\<^sup>*\<^sup>* r (g r)" unfolding rows_rewrote_def by blast
  then show ?thesis using star_keeps [of step _ _ k, OF _ k] by auto
qed

section \<open>Leased rows\<close>

locale lease_store =
  fixes inv :: "'d \<Rightarrow> bool"
    and rows :: "'d \<Rightarrow> 'r list"
    and rid :: "'r \<Rightarrow> string"
    and token :: "'r \<Rightarrow> string option"
    and exec :: "'o \<Rightarrow> 'd \<Rightarrow> 'd"
    and issued :: "'o \<Rightarrow> string option"
    and commit :: "'c \<Rightarrow> string \<Rightarrow> string \<Rightarrow> 'd \<Rightarrow> ('x \<times> 'd) res"
  assumes exec_inv: "inv d \<Longrightarrow> inv (exec op d)"
    and exec_token: "inv d \<Longrightarrow> r' \<in> set (rows (exec op d)) \<Longrightarrow> token r' = Some t \<Longrightarrow>
      issued op = Some t \<or> (\<exists>r \<in> set (rows d). rid r = rid r' \<and> token r = Some t)"
    and commit_token: "commit c i t d = Inr x \<Longrightarrow> \<exists>r \<in> set (rows d). rid r = i \<and> token r = Some t"
begin

definition run :: "'o list \<Rightarrow> 'd \<Rightarrow> 'd" where
  "run ops d = fold exec ops d"

definition holds :: "string \<Rightarrow> string \<Rightarrow> 'd \<Rightarrow> bool" where
  "holds i t d \<longleftrightarrow> (\<exists>r \<in> set (rows d). rid r = i \<and> token r = Some t)"

lemma run_inv: "inv d \<Longrightarrow> inv (run ops d)"
  unfolding run_def by (induction ops arbitrary: d) (simp_all add: exec_inv)

text \<open>A lease that is lost stays lost: whatever operations follow, as long as the token is not issued
  again, the row does not carry it and committing under it is refused.\<close>

lemma lost_exec: "inv d \<Longrightarrow> \<not> holds i t d \<Longrightarrow> issued op \<noteq> Some t \<Longrightarrow> \<not> holds i t (exec op d)"
  using exec_token by (fastforce simp: holds_def)

lemma lost_run:
  "inv d \<Longrightarrow> \<not> holds i t d \<Longrightarrow> \<forall>op \<in> set ops. issued op \<noteq> Some t \<Longrightarrow> \<not> holds i t (run ops d)"
  unfolding run_def
proof (induction ops arbitrary: d)
  case (Cons op ops)
  from Cons.prems lost_exec have "\<not> holds i t (exec op d)" by auto
  with Cons exec_inv show ?case by simp
qed simp

lemma lost_commit:
  "inv d \<Longrightarrow> \<not> holds i t d \<Longrightarrow> \<forall>op \<in> set ops. issued op \<noteq> Some t \<Longrightarrow> \<not> is_ok (commit c i t (run ops d))"
  using lost_run [of d i t ops] commit_token [of c i t "run ops d"]
  by (cases "commit c i t (run ops d)") (auto simp: holds_def)

end

section \<open>Properties\<close>

text \<open>C36. \<open>retry_transaction\<close> commits at most once: it runs the operation at most \<open>attempts\<close> times, retries
  only after a transient failure (sleeping once before each retry), leaves the data untouched unless the
  last attempt returned, in which case the data is exactly what that attempt computed, and gives up with
  the transient error only after all attempts.\<close>

theorem retry_transaction_once:
  assumes "retry_transaction op attempts backoff b = (r, sleeps, b')"
    and "1 \<le> attempts" and "attempts \<le> 10" and "backoff \<noteq> []" and "list_all (\<lambda>d. 0 \<le> d) backoff"
  shows "length sleeps < nat attempts
    \<and> (\<forall>j < length sleeps. transaction (op j) b = (Inl TransientStorageError, b))
    \<and> (r = Inl TransientStorageError \<longrightarrow> length sleeps = nat attempts - 1)
    \<and> (case r of Inl e \<Rightarrow> b' = b | Inr x \<Rightarrow> op (length sleeps) (db b) = Inr (x, db b') \<and> b' = b\<lparr>db := db b'\<rparr>)"
proof -
  from assms have l: "retry_loop op backoff 0 (nat attempts) b = (r, sleeps, b')"
    by (auto simp: retry_transaction_def list_ex_iff list_all_iff split: if_splits)
  have "0 < nat attempts" using assms(2) by simp
  from retry_loop_outcome [OF this l]
  have o: "length sleeps < nat attempts" "\<forall>j < length sleeps. transaction (op j) b = (Inl TransientStorageError, b)"
    "transaction (op (length sleeps)) b = (r, b')" "r = Inl TransientStorageError \<longrightarrow> length sleeps = nat attempts - 1"
    by auto
  have "case r of Inl e \<Rightarrow> b' = b | Inr x \<Rightarrow> op (length sleeps) (db b) = Inr (x, db b') \<and> b' = b\<lparr>db := db b'\<rparr>"
    using o(3) by (cases r) (auto dest: transaction_error transaction_ok)
  with o show ?thesis by blast
qed

theorem retry_transaction_once_witness:
  "let op = (\<lambda>k d. if k = 0 then Inl TransientStorageError else Inr (d, Suc d));
       b = \<lparr>closed = False, in_transaction = False, db = (5::nat)\<rparr>
   in retry_transaction op 3 [1/100, 5/100] b = (Inr 5, [1/100], b\<lparr>db := 6\<rparr>)
    \<and> op (length [1/100 :: real]) (db b) = Inr (5, 6)"
proof -
  let ?op = "\<lambda>k d. if k = 0 then Inl TransientStorageError else Inr (d, Suc d)"
  let ?b = "\<lparr>closed = False, in_transaction = False, db = (5::nat)\<rparr>"
  have r: "retry_transaction ?op 3 [1/100, 5/100] ?b = (Inr 5, [1/100], ?b\<lparr>db := 6\<rparr>)"
    by (simp add: retry_transaction_def transaction_def numeral_eq_Suc)
  from retry_transaction_once [OF r] r show ?thesis by simp
qed

end
