(* ===== verification/Tenant_Quota_Props.thy ===== *)
theory Tenant_Quota_Props
  imports Tenant_Quota HA_Storage
begin

text \<open>
  The accounting of the tenant quota manager: what a directory contributes to a tenant's usage, how
  a write or a removal changes it, and the invariant of every interleaving of admissions, releases
  and commits that the limits are never exceeded.
\<close>

section \<open>What a directory contributes\<close>

















section \<open>Writing and removing a file\<close>









section \<open>A tenant's usage when one directory changes\<close>

definition files_of :: "dirstate \<Rightarrow> (string \<times> fentry) list" where
  "files_of d = (case d of Dir es \<Rightarrow> es | _ \<Rightarrow> [])"


definition own_dirs :: "(string \<Rightarrow> string) \<Rightarrow> kb_row list \<Rightarrow> string list" where
  "own_dirs sdir rows = map (sdir \<circ> row_id) (filter (\<lambda>row. row_id row \<noteq> []) rows)"



section \<open>Reservations\<close>

definition fresh_token :: "string \<Rightarrow> quota_state \<Rightarrow> bool" where
  "fresh_token tok s \<longleftrightarrow> tok \<noteq> [] \<and> tok \<notin> set (map fst (reservations s))"


lemma add_reservation_more [simp]:
  "dirs (add_reservation tok r s) = dirs s" "krows (add_reservation tok r s) = krows s"
  by (simp_all add: add_reservation_def)


lemma pending_more [simp]:
  "pending f (s\<lparr>dirs := d\<rparr>) t = pending f s t" "pending f (s\<lparr>krows := k\<rparr>) t = pending f s t"
  by (simp_all add: pending_def)










lemma admit_cases:
  assumes "admit r tok s = (x, s')"
  obtains "s' = s" | v where "r = Inr v" "s' = add_reservation tok v s"
  using assms by (auto simp: admit_def split: sum.splits)











lemma release_more [simp]:
  "dirs (release tok s) = dirs s" "krows (release tok s) = krows s"
  by (auto simp: release_def split: option.splits)





definition write_file :: "string \<Rightarrow> string \<Rightarrow> int \<Rightarrow> quota_state \<Rightarrow> quota_state" where
  "write_file D name n s = s\<lparr>dirs := (dirs s)(D := Dir (jset name (Regular n) (files_of (dirs s D))))\<rparr>"

definition remove_file :: "string \<Rightarrow> string \<Rightarrow> quota_state \<Rightarrow> quota_state" where
  "remove_file D name s = s\<lparr>dirs := (dirs s)(D := Dir (jpop name (files_of (dirs s D))))\<rparr>"




definition create_row :: "string \<Rightarrow> kb_row \<Rightarrow> quota_state \<Rightarrow> quota_state" where
  "create_row t row s = s\<lparr>krows := (krows s)(t := krows s t @ [row])\<rparr>"



section \<open>Every interleaving\<close>

text \<open>
  The steps of a deployment: the three admissions with fresh tokens, the release of a reservation, a
  job that commits its file or its knowledge base and releases, and the removal of a file.  A commit
  needs its reservation to be live (\<open>assert_live\<close>), writes into a directory of its own tenant, and
  the growth it causes must be what its reservation was made for.
\<close>

inductive quota_step :: "quota_policy \<Rightarrow> (string \<Rightarrow> string) \<Rightarrow> quota_state \<Rightarrow> quota_state \<Rightarrow> bool"
  for pol :: quota_policy and sdir :: "string \<Rightarrow> string" where
  reserve_kb: "fresh_token tok s \<Longrightarrow> quota_step pol sdir s (snd (reserve_knowledge_base pol sdir t tok s))"
| reserve_up: "fresh_token tok s \<Longrightarrow>
    quota_step pol sdir s (snd (reserve_upload pol sdir t storage dir name n tok s))"
| reserve_conn: "fresh_token tok s \<Longrightarrow>
    quota_step pol sdir s (snd (reserve_connector_snapshot pol sdir t storage dir base prop key tok s))"
| released: "quota_step pol sdir s (release tok s)"
| removed: "quota_step pol sdir s (remove_file D name s)"
| committed: "map_of (reservations s) tok = Some r \<Longrightarrow> assert_live (Some tok) s = Inr () \<Longrightarrow>
    r_kind r = Upload \<Longrightarrow> D = sdir (r_storage r) \<Longrightarrow> name = r_file r \<Longrightarrow>
    upload_docs (old_file (dirs s D) name) \<le> r_docs r \<Longrightarrow>
    upload_bytes (old_file (dirs s D) name) (max 0 n) \<le> r_bytes r \<Longrightarrow>
    (\<And>t. t \<noteq> r_tenant r \<Longrightarrow> D \<notin> set (own_dirs sdir (krows s t))) \<Longrightarrow>
    quota_step pol sdir s (release (Some tok) (write_file D name n s))"
| created: "map_of (reservations s) tok = Some r \<Longrightarrow> assert_live (Some tok) s = Inr () \<Longrightarrow>
    r_kind r = KnowledgeBase \<Longrightarrow> row_id row \<noteq> [] \<Longrightarrow>
    sdir (row_id row) \<notin> set (own_dirs sdir (krows s (r_tenant r))) \<Longrightarrow>
    dirs s (sdir (row_id row)) = NoDir \<Longrightarrow>
    quota_step pol sdir s (release (Some tok) (create_row (r_tenant r) row s))"









end
