(* ===== verification/KB_Locks.thy ===== *)
theory KB_Locks
  imports Prelude
begin

text \<open>
  The in-process lock registry (\<open>service/kb_locks.py\<close>) and the reader admission gate
  (\<open>service/kb_readers.py\<close>).  Both are concurrent: the state is shared by threads, and each
  definition is one critical section of the code (the body under \<open>_registry_lock\<close> or
  \<open>_condition\<close>), so a run is any interleaving of them.
\<close>

section \<open>Write locks\<close>

text \<open>A lock object is a number, fresh for each \<open>RLock()\<close>; an \<open>RLock\<close> is owned by a thread and has a
  recursion depth.  A handle is the pair of its knowledge base and the lock it was given.\<close>

type_synonym lock = nat
type_synonym thread = nat

datatype hphase = Constructed | Entered | Released

record handle =
  h_kb :: string
  h_lock :: lock
  h_thread :: thread
  h_phase :: hphase

record lock_state =
  locks :: "string \<Rightarrow> lock option"
  refs :: "string \<Rightarrow> int option"
  owners :: "lock \<Rightarrow> (thread \<times> nat) option"
  fresh_lock :: lock
  handles :: "handle list" \<comment> \<open>the live handles: constructed and not yet dereferenced\<close>

definition no_locks :: lock_state where
  "no_locks = \<lparr>locks = (\<lambda>_. None), refs = (\<lambda>_. None), owners = (\<lambda>_. None), fresh_lock = 0, handles = []\<rparr>"

definition ref_count :: "string \<Rightarrow> lock_state \<Rightarrow> int" where
  "ref_count kb s = (case refs s kb of None \<Rightarrow> 0 | Some n \<Rightarrow> n)"

text \<open>\<open>_KbLock.__init__\<close>, which \<open>kb_write_lock\<close> calls.\<close>

definition kb_write_lock :: "thread \<Rightarrow> string \<Rightarrow> lock_state \<Rightarrow> lock_state" where
  "kb_write_lock th kb s =
     (let (lk, s1) = (case locks s kb of
              Some lk \<Rightarrow> (lk, s)
            | None \<Rightarrow> (fresh_lock s, s\<lparr>locks := (locks s)(kb \<mapsto> fresh_lock s), fresh_lock := Suc (fresh_lock s)\<rparr>))
      in s1\<lparr>refs := (refs s1)(kb \<mapsto> ref_count kb s1 + 1),
            handles := handles s1 @ [\<lparr>h_kb = kb, h_lock = lk, h_thread = th, h_phase = Constructed\<rparr>]\<rparr>)"

text \<open>\<open>RLock.acquire\<close> and \<open>release\<close>: \<open>None\<close> is a thread that has to wait.\<close>

definition rlock_acquire :: "thread \<Rightarrow> (thread \<times> nat) option \<Rightarrow> (thread \<times> nat) option option" where
  "rlock_acquire th ow =
     (case ow of
        None \<Rightarrow> Some (Some (th, 1))
      | Some (th', n) \<Rightarrow> if th' = th then Some (Some (th, Suc n)) else None)"

definition rlock_release :: "(thread \<times> nat) option \<Rightarrow> (thread \<times> nat) option" where
  "rlock_release ow = (case ow of Some (th, Suc (Suc n)) \<Rightarrow> Some (th, Suc n) | _ \<Rightarrow> None)"

text \<open>\<open>__enter__\<close> of the handle at a position.\<close>

definition lock_enter :: "nat \<Rightarrow> lock_state \<Rightarrow> lock_state option" where
  "lock_enter j s =
     (let h = handles s ! j in
      case rlock_acquire (h_thread h) (owners s (h_lock h)) of
        None \<Rightarrow> None
      | Some ow \<Rightarrow> Some (s\<lparr>owners := (owners s)(h_lock h := ow), handles := (handles s)[j := h\<lparr>h_phase := Entered\<rparr>]\<rparr>))"

definition drop_ref :: "string \<Rightarrow> lock_state \<Rightarrow> lock_state" where
  "drop_ref kb s =
     (let n = (case refs s kb of None \<Rightarrow> 1 | Some m \<Rightarrow> m) - 1
      in s\<lparr>refs := (refs s)(kb := if n \<le> 0 then None else Some n)\<rparr>)"

definition remove_at :: "nat \<Rightarrow> 'a list \<Rightarrow> 'a list" where
  "remove_at j xs = take j xs @ drop (Suc j) xs"

text \<open>\<open>__exit__\<close>: the lock is released first, and the reference dropped in a second critical section.\<close>

definition lock_release :: "nat \<Rightarrow> lock_state \<Rightarrow> lock_state" where
  "lock_release j s =
     (let h = handles s ! j
      in s\<lparr>owners := (owners s)(h_lock h := rlock_release (owners s (h_lock h))),
           handles := (handles s)[j := h\<lparr>h_phase := Released\<rparr>]\<rparr>)"

definition lock_deref :: "nat \<Rightarrow> lock_state \<Rightarrow> lock_state" where
  "lock_deref j s = (drop_ref (h_kb (handles s ! j)) s)\<lparr>handles := remove_at j (handles s)\<rparr>"

text \<open>\<open>compact_locks\<close>; its argument is the set of knowledge bases to keep.\<close>

definition compact_locks :: "(string \<Rightarrow> bool) \<Rightarrow> lock_state \<Rightarrow> lock_state" where
  "compact_locks keep s =
     s\<lparr>locks := (\<lambda>kb. if locks s kb \<noteq> None \<and> \<not> keep kb \<and> ref_count kb s = 0 then None else locks s kb)\<rparr>"

section \<open>Readers and drains\<close>

text \<open>The two shared tables of \<open>kb_readers.py\<close>.\<close>

record reader_state =
  readers :: "string \<Rightarrow> int option"
  draining :: "string \<Rightarrow> bool"

definition reader_count :: "string \<Rightarrow> reader_state \<Rightarrow> int" where
  "reader_count kb s = (case readers s kb of None \<Rightarrow> 0 | Some n \<Rightarrow> n)"

text \<open>\<open>kb_read_lease\<close>: the admission and the \<open>finally\<close> clause.\<close>

definition read_enter :: "string \<Rightarrow> reader_state \<Rightarrow> unit res \<times> reader_state" where
  "read_enter kb s =
     (if draining s kb then (Inl KBReadUnavailable, s)
      else (Inr (), s\<lparr>readers := (readers s)(kb \<mapsto> reader_count kb s + 1)\<rparr>))"

definition read_exit :: "string \<Rightarrow> reader_state \<Rightarrow> reader_state" where
  "read_exit kb s =
     (let n = (case readers s kb of None \<Rightarrow> 1 | Some m \<Rightarrow> m) - 1
      in s\<lparr>readers := (readers s)(kb := if n \<le> 0 then None else Some n)\<rparr>)"

definition has_readers :: "string \<Rightarrow> reader_state \<Rightarrow> bool" where
  "has_readers kb s \<longleftrightarrow> 0 < reader_count kb s"

text \<open>\<open>drain_kb_readers\<close>.  A turn of its first loop either has to wait for another drain, times out, or
  claims the drain; a turn of the second waits, times out (and gives the drain up), or is done.\<close>

datatype drain_turn = Wait | Claimed | Drained | TimedOut

definition drain_claim :: "bool \<Rightarrow> string \<Rightarrow> reader_state \<Rightarrow> drain_turn \<times> reader_state" where
  "drain_claim expired kb s =
     (if draining s kb then (if expired then TimedOut else Wait, s)
      else (Claimed, s\<lparr>draining := (draining s)(kb := True)\<rparr>))"

definition drain_wait :: "bool \<Rightarrow> string \<Rightarrow> reader_state \<Rightarrow> drain_turn \<times> reader_state" where
  "drain_wait expired kb s =
     (if 0 < reader_count kb s
      then (if expired then (TimedOut, s\<lparr>draining := (draining s)(kb := False)\<rparr>) else (Wait, s))
      else (Drained, s))"

definition drain_finish :: "string \<Rightarrow> reader_state \<Rightarrow> reader_state" where
  "drain_finish kb s = s\<lparr>draining := (draining s)(kb := False)\<rparr>"

text \<open>\<open>wait_for_no_readers\<close>, one turn: \<open>None\<close> is waiting.\<close>

definition wait_turn :: "bool \<Rightarrow> string \<Rightarrow> reader_state \<Rightarrow> bool option" where
  "wait_turn expired kb s = (if 0 < reader_count kb s then (if expired then Some False else None) else Some True)"

end
