(* ===== verification/KB_Lock_Props.thy ===== *)
theory KB_Lock_Props
  imports KB_Locks
begin

text \<open>
  Interleavings of the lock registry and of the reader gate: mutual exclusion of writers of one
  knowledge base although locks are recycled, and exclusion of readers while a drain runs.
\<close>

section \<open>Counting\<close>

definition cnt :: "('a \<Rightarrow> bool) \<Rightarrow> 'a list \<Rightarrow> int" where
  "cnt P xs = sum_list (map (\<lambda>x. if P x then 1 else 0) xs)"

lemma cnt_simps [simp]:
  "cnt P [] = 0" "cnt P (x # xs) = (if P x then 1 else 0) + cnt P xs" "cnt P (xs @ ys) = cnt P xs + cnt P ys"
  by (simp_all add: cnt_def)

lemma cnt_nonneg [simp]: "0 \<le> cnt P xs"
  by (induction xs) auto

lemma cnt_0: "cnt P xs = 0 \<longleftrightarrow> (\<forall>x \<in> set xs. \<not> P x)"
  by (induction xs) (auto simp: add_nonneg_eq_0_iff)

lemma cnt_update:
  "j < length xs \<Longrightarrow> cnt P (xs[j := y]) = cnt P xs + (if P y then 1 else 0) - (if P (xs ! j) then 1 else 0)"
  by (induction xs arbitrary: j) (auto split: nat.splits)

lemma cnt_remove:
  "j < length xs \<Longrightarrow> cnt P (remove_at j xs) = cnt P xs - (if P (xs ! j) then 1 else 0)"
proof -
  assume j: "j < length xs"
  have "cnt P xs = cnt P (take j xs @ xs ! j # drop (Suc j) xs)" using j by (simp add: id_take_nth_drop [symmetric])
  then show ?thesis by (simp add: remove_at_def)
qed

lemma set_remove_at: "set (remove_at j xs) \<subseteq> set xs"
  using set_take_subset [of j xs] set_drop_subset [of "Suc j" xs] by (auto simp: remove_at_def)

section \<open>Writers\<close>

inductive lock_step :: "lock_state \<Rightarrow> lock_state \<Rightarrow> bool" where
  construct: "lock_step s (kb_write_lock th kb s)"
| enter: "j < length (handles s) \<Longrightarrow> h_phase (handles s ! j) = Constructed \<Longrightarrow> lock_enter j s = Some s' \<Longrightarrow> lock_step s s'"
| release: "j < length (handles s) \<Longrightarrow> h_phase (handles s ! j) = Entered \<Longrightarrow> lock_step s (lock_release j s)"
| deref: "j < length (handles s) \<Longrightarrow> h_phase (handles s ! j) = Released \<Longrightarrow> lock_step s (lock_deref j s)"
| compact: "lock_step s (compact_locks keep s)"

definition inside :: "lock \<Rightarrow> handle \<Rightarrow> bool" where
  "inside lk h \<longleftrightarrow> h_phase h = Entered \<and> h_lock h = lk"

definition handles_ok :: "lock_state \<Rightarrow> bool" where
  "handles_ok s \<longleftrightarrow> (\<forall>h \<in> set (handles s). locks s (h_kb h) = Some (h_lock h))"

definition refs_ok :: "lock_state \<Rightarrow> bool" where
  "refs_ok s \<longleftrightarrow> (\<forall>kb. ref_count kb s = cnt (\<lambda>h. h_kb h = kb) (handles s))"

definition names_ok :: "lock_state \<Rightarrow> bool" where
  "names_ok s \<longleftrightarrow> (\<forall>kb kb' lk. locks s kb = Some lk \<longrightarrow> lk < fresh_lock s \<and> (locks s kb' = Some lk \<longrightarrow> kb' = kb)) \<and>
     (\<forall>lk. fresh_lock s \<le> lk \<longrightarrow> owners s lk = None)"

definition owned :: "(thread \<times> nat) option \<Rightarrow> lock \<Rightarrow> handle list \<Rightarrow> bool" where
  "owned ow lk hs \<longleftrightarrow> (case ow of
       None \<Rightarrow> cnt (inside lk) hs = 0
     | Some (th, n) \<Rightarrow> 0 < n \<and> cnt (inside lk) hs = int n \<and>
         (\<forall>h \<in> set hs. inside lk h \<longrightarrow> h_thread h = th))"

definition owners_ok :: "lock_state \<Rightarrow> bool" where
  "owners_ok s \<longleftrightarrow> (\<forall>lk. owned (owners s lk) lk (handles s))"

definition lock_inv :: "lock_state \<Rightarrow> bool" where
  "lock_inv s \<longleftrightarrow> handles_ok s \<and> refs_ok s \<and> names_ok s \<and> owners_ok s"

lemma lock_inv_init: "lock_inv no_locks"
  by (simp add: lock_inv_def handles_ok_def refs_ok_def names_ok_def owners_ok_def owned_def no_locks_def ref_count_def)

lemma handle_at: "lock_inv s \<Longrightarrow> j < length (handles s) \<Longrightarrow> locks s (h_kb (handles s ! j)) = Some (h_lock (handles s ! j))"
  by (simp add: lock_inv_def handles_ok_def)

lemma owned_append: "h_phase h \<noteq> Entered \<Longrightarrow> owned ow lk (hs @ [h]) = owned ow lk hs"
  by (auto simp: owned_def inside_def split: option.splits)

lemma owned_other:
  assumes "j < length hs" "\<not> inside lk (hs ! j)" "\<not> inside lk h"
  shows "owned ow lk hs \<Longrightarrow> owned ow lk (hs[j := h])"
  using assms by (auto simp: owned_def cnt_update split: option.splits dest!: set_update_subset_insert [THEN subsetD])

lemma owned_remove:
  assumes "j < length hs" "\<not> inside lk (hs ! j)"
  shows "owned ow lk hs \<Longrightarrow> owned ow lk (remove_at j hs)"
  using assms set_remove_at [of j hs] by (auto simp: owned_def cnt_remove split: option.splits)

lemma owned_acquire:
  assumes "j < length hs" "h_phase (hs ! j) = Constructed" "h_lock (hs ! j) = lk"
    and "rlock_acquire (h_thread (hs ! j)) ow = Some ow'" "owned ow lk hs"
  shows "owned ow' lk (hs[j := (hs ! j)\<lparr>h_phase := Entered\<rparr>])"
proof -
  let ?h = "(hs ! j)\<lparr>h_phase := Entered\<rparr>"
  have c: "cnt (inside lk) (hs[j := ?h]) = cnt (inside lk) hs + 1"
    using assms(1-3) by (simp add: cnt_update inside_def)
  have m: "h \<in> set (hs[j := ?h]) \<Longrightarrow> h = ?h \<or> h \<in> set hs" for h
    using set_update_subset_insert [of hs j ?h] by auto
  show ?thesis
  proof (cases ow)
    case None
    then have o: "ow' = Some (h_thread (hs ! j), 1)" "\<forall>h \<in> set hs. \<not> inside lk h" "cnt (inside lk) hs = 0"
      using assms(4,5) by (simp_all add: rlock_acquire_def owned_def cnt_0)
    have "h_thread h = h_thread (hs ! j)" if "h \<in> set (hs[j := ?h])" "inside lk h" for h
      using m [OF that(1)] o(2) that(2) by auto
    then show ?thesis using c o by (simp add: owned_def)
  next
    case (Some p)
    obtain th n where p: "p = (th, n)" by (cases p)
    from assms(4) Some p have th: "th = h_thread (hs ! j)" "ow' = Some (th, Suc n)"
      by (auto simp: rlock_acquire_def split: if_splits)
    from assms(5) Some p have o: "cnt (inside lk) hs = int n" "\<forall>h \<in> set hs. inside lk h \<longrightarrow> h_thread h = th"
      by (simp_all add: owned_def)
    have "h_thread h = th" if "h \<in> set (hs[j := ?h])" "inside lk h" for h
      using m [OF that(1)] o(2) that(2) th(1) by auto
    then show ?thesis using c o th(2) by (simp add: owned_def)
  qed
qed

lemma owned_release:
  assumes "j < length hs" "h_phase (hs ! j) = Entered" "h_lock (hs ! j) = lk" "owned ow lk hs"
  shows "owned (rlock_release ow) lk (hs[j := (hs ! j)\<lparr>h_phase := Released\<rparr>])"
proof -
  have "inside lk (hs ! j)" using assms by (simp add: inside_def)
  moreover from this assms(1) have "cnt (inside lk) hs \<noteq> 0" by (auto simp: cnt_0)
  ultimately obtain th n where ow: "ow = Some (th, n)" "0 < n" "cnt (inside lk) hs = int n"
    "\<forall>h \<in> set hs. inside lk h \<longrightarrow> h_thread h = th"
    using assms(4) by (auto simp: owned_def split: option.splits)
  have "cnt (inside lk) (hs[j := (hs ! j)\<lparr>h_phase := Released\<rparr>]) = int n - 1"
    using assms(1-3) ow(3) by (simp add: cnt_update inside_def)
  moreover have "\<forall>h \<in> set (hs[j := (hs ! j)\<lparr>h_phase := Released\<rparr>]). inside lk h \<longrightarrow> h_thread h = th"
    using ow(4) by (auto simp: inside_def dest!: set_update_subset_insert [THEN subsetD])
  ultimately show ?thesis using ow(1,2) by (cases n rule: nat.exhaust; cases "n - 1")
      (auto simp: owned_def rlock_release_def split: nat.splits)
qed

lemma inv_construct:
  assumes "lock_inv s" shows "lock_inv (kb_write_lock th kb s)"
proof (cases "locks s kb")
  case None
  have no: "\<forall>h \<in> set (handles s). h_kb h \<noteq> kb \<and> h_lock h < fresh_lock s"
    using assms None by (auto simp: lock_inv_def handles_ok_def names_ok_def)
  have "owners_ok (kb_write_lock th kb s)"
    using assms None by (auto simp: lock_inv_def owners_ok_def kb_write_lock_def owned_append)
  moreover have "names_ok (kb_write_lock th kb s)"
    using assms None by (auto simp: lock_inv_def names_ok_def kb_write_lock_def less_Suc_eq split: if_splits)
  moreover have "refs_ok (kb_write_lock th kb s)" "handles_ok (kb_write_lock th kb s)"
    using assms None no by (auto simp: lock_inv_def refs_ok_def handles_ok_def kb_write_lock_def ref_count_def)
  ultimately show ?thesis by (simp add: lock_inv_def)
next
  case (Some lk)
  with assms show ?thesis
    by (auto simp: lock_inv_def owners_ok_def names_ok_def refs_ok_def handles_ok_def kb_write_lock_def ref_count_def
        owned_append)
qed

lemma inv_enter:
  assumes "lock_inv s" "j < length (handles s)" "h_phase (handles s ! j) = Constructed" "lock_enter j s = Some s'"
  shows "lock_inv s'"
proof -
  let ?h = "handles s ! j" and ?hs = "(handles s)[j := (handles s ! j)\<lparr>h_phase := Entered\<rparr>]"
  from assms(4) obtain ow where ow: "rlock_acquire (h_thread ?h) (owners s (h_lock ?h)) = Some ow"
    and s': "s' = s\<lparr>owners := (owners s)(h_lock ?h := ow), handles := ?hs\<rparr>"
    by (auto simp: lock_enter_def Let_def split: option.splits)
  have "owned (owners s' lk) lk ?hs" for lk
  proof (cases "lk = h_lock ?h")
    case True
    with owned_acquire [OF assms(2,3) _ ow] assms(1) show ?thesis
      by (simp add: s' lock_inv_def owners_ok_def)
  next
    case False
    then show ?thesis using assms(1,2) by (auto simp: s' lock_inv_def owners_ok_def inside_def intro!: owned_other)
  qed
  then have "owners_ok s'" by (simp add: owners_ok_def s')
  moreover have "names_ok s'"
  proof -
    have "h_lock ?h < fresh_lock s" using assms(1) handle_at [OF assms(1,2)] by (auto simp: lock_inv_def names_ok_def)
    then show ?thesis using assms(1) by (auto simp: s' lock_inv_def names_ok_def)
  qed
  moreover have "refs_ok s'" using assms(1,2) by (simp add: s' lock_inv_def refs_ok_def ref_count_def cnt_update)
  moreover have "handles_ok s'"
    using assms(1) handle_at [OF assms(1,2)]
    by (auto simp: s' lock_inv_def handles_ok_def dest!: set_update_subset_insert [THEN subsetD])
  ultimately show ?thesis by (simp add: lock_inv_def)
qed

lemma inv_release:
  assumes "lock_inv s" "j < length (handles s)" "h_phase (handles s ! j) = Entered"
  shows "lock_inv (lock_release j s)"
proof -
  let ?h = "handles s ! j" and ?s = "lock_release j s"
  have "owned (owners ?s lk) lk (handles ?s)" for lk
  proof (cases "lk = h_lock ?h")
    case True
    with owned_release [OF assms(2,3)] assms(1) show ?thesis
      by (simp add: lock_release_def Let_def lock_inv_def owners_ok_def)
  next
    case False
    then show ?thesis using assms(1,2)
      by (auto simp: lock_release_def Let_def lock_inv_def owners_ok_def inside_def intro!: owned_other)
  qed
  then have "owners_ok ?s" by (simp add: owners_ok_def)
  moreover have "names_ok ?s"
  proof -
    have "h_lock ?h < fresh_lock s" using assms(1) handle_at [OF assms(1,2)] by (auto simp: lock_inv_def names_ok_def)
    then show ?thesis using assms(1) by (auto simp: lock_release_def Let_def lock_inv_def names_ok_def)
  qed
  moreover have "refs_ok ?s"
    using assms(1,2) by (simp add: lock_release_def Let_def lock_inv_def refs_ok_def ref_count_def cnt_update)
  moreover have "handles_ok ?s"
    using assms(1) handle_at [OF assms(1,2)]
    by (auto simp: lock_release_def Let_def lock_inv_def handles_ok_def dest!: set_update_subset_insert [THEN subsetD])
  ultimately show ?thesis by (simp add: lock_inv_def)
qed

lemma inv_deref:
  assumes "lock_inv s" "j < length (handles s)" "h_phase (handles s ! j) = Released"
  shows "lock_inv (lock_deref j s)"
proof -
  let ?kb = "h_kb (handles s ! j)" and ?s = "lock_deref j s"
  have "owners_ok ?s"
    using assms by (auto simp: lock_deref_def drop_ref_def Let_def lock_inv_def owners_ok_def inside_def intro!: owned_remove)
  moreover have "refs_ok ?s"
  proof -
    have c: "ref_count kb s = cnt (\<lambda>h. h_kb h = kb) (handles s)" for kb using assms(1) by (simp add: lock_inv_def refs_ok_def)
    have "refs s ?kb \<noteq> None"
    proof
      assume "refs s ?kb = None"
      then have "cnt (\<lambda>h. h_kb h = ?kb) (handles s) = 0" using c [of ?kb] by (simp add: ref_count_def)
      then show False using assms(2) by (auto simp: cnt_0)
    qed
    then obtain n where n: "refs s ?kb = Some n" by blast
    have "ref_count kb ?s = cnt (\<lambda>h. h_kb h = kb) (handles ?s)" for kb
      using c [of kb] n cnt_nonneg [of "\<lambda>h. h_kb h = kb" "remove_at j (handles s)"]
      by (auto simp: lock_deref_def drop_ref_def Let_def ref_count_def cnt_remove [OF assms(2)] split: if_splits)
    then show ?thesis by (simp add: refs_ok_def)
  qed
  moreover have "handles_ok ?s" "names_ok ?s"
    using assms(1) set_remove_at [of j "handles s"]
    by (auto simp: lock_deref_def drop_ref_def Let_def lock_inv_def handles_ok_def names_ok_def)
  ultimately show ?thesis by (simp add: lock_inv_def)
qed

lemma inv_compact:
  assumes "lock_inv s" shows "lock_inv (compact_locks keep s)"
proof -
  have "ref_count (h_kb h) s \<noteq> 0" if "h \<in> set (handles s)" for h
    using assms that by (auto simp: lock_inv_def refs_ok_def cnt_0)
  then show ?thesis
    using assms unfolding lock_inv_def
    by (auto simp: handles_ok_def refs_ok_def names_ok_def owners_ok_def compact_locks_def ref_count_def split: if_splits)
qed

lemma lock_step_inv: "lock_step s s' \<Longrightarrow> lock_inv s \<Longrightarrow> lock_inv s'"
  by (induction rule: lock_step.induct) (auto intro: inv_construct inv_enter inv_release inv_deref inv_compact)

text \<open>C25. Writers of one knowledge base exclude each other: in every interleaving of handle construction,
  acquisition, release, dereference and lock-table compaction, all live handles of a knowledge base
  carry the same lock, although unused locks are discarded and re-created, and two handles of it that
  are both inside their \<open>with\<close> block belong to the same thread.\<close>

theorem kb_writers_exclude:
  assumes "lock_step\<^sup>*\<^sup>* no_locks s" and "h \<in> set (handles s)" "h' \<in> set (handles s)" and "h_kb h = h_kb h'"
  shows "h_lock h = h_lock h' \<and> (h_phase h = Entered \<and> h_phase h' = Entered \<longrightarrow> h_thread h = h_thread h')"
proof -
  from assms(1) have inv: "lock_inv s"
    by (induction rule: rtranclp_induct) (auto intro: lock_inv_init lock_step_inv)
  then have same: "h_lock h = h_lock h'" using assms(2-4) unfolding lock_inv_def handles_ok_def by (metis option.inject)
  moreover have "h_thread h = h_thread h'" if "h_phase h = Entered" "h_phase h' = Entered"
  proof -
    let ?lk = "h_lock h"
    have i: "inside ?lk h" "inside ?lk h'" using that same by (simp_all add: inside_def)
    have "owned (owners s ?lk) ?lk (handles s)" using inv by (simp add: lock_inv_def owners_ok_def)
    with i assms(2,3) show ?thesis by (auto simp: owned_def cnt_0 split: option.splits)
  qed
  ultimately show ?thesis by blast
qed

theorem kb_writers_exclude_witness:
  "handles (kb_write_lock 2 ''kb'' (kb_write_lock 1 ''kb'' no_locks)) =
     [\<lparr>h_kb = ''kb'', h_lock = 0, h_thread = 1, h_phase = Constructed\<rparr>,
      \<lparr>h_kb = ''kb'', h_lock = 0, h_thread = 2, h_phase = Constructed\<rparr>]
   \<and> h_lock (handles (kb_write_lock 2 ''kb'' (kb_write_lock 1 ''kb'' no_locks)) ! 0)
     = h_lock (handles (kb_write_lock 2 ''kb'' (kb_write_lock 1 ''kb'' no_locks)) ! 1)"
proof -
  let ?s = "kb_write_lock 2 ''kb'' (kb_write_lock 1 ''kb'' no_locks)"
  have hs: "handles ?s = [\<lparr>h_kb = ''kb'', h_lock = 0, h_thread = 1, h_phase = Constructed\<rparr>,
      \<lparr>h_kb = ''kb'', h_lock = 0, h_thread = 2, h_phase = Constructed\<rparr>]"
    by (simp add: kb_write_lock_def no_locks_def)
  have "lock_step\<^sup>*\<^sup>* no_locks ?s"
    by (meson converse_rtranclp_into_rtranclp lock_step.construct rtranclp.rtrancl_refl)
  from kb_writers_exclude [OF this, of "handles ?s ! 0" "handles ?s ! 1"] hs show ?thesis by simp
qed

section \<open>Readers and drains\<close>

text \<open>
  The ghost state of a run: how many read leases of each knowledge base are open, and the drains in
  progress, each with whether its body has started.
\<close>

record gate =
  shared :: reader_state
  leases :: "string \<Rightarrow> int"
  drains :: "(string \<times> bool) list"

definition no_readers :: gate where
  "no_readers = \<lparr>shared = \<lparr>readers = (\<lambda>_. None), draining = (\<lambda>_. False)\<rparr>, leases = (\<lambda>_. 0), drains = []\<rparr>"

inductive gate_step :: "gate \<Rightarrow> gate \<Rightarrow> bool" where
  admitted: "read_enter kb (shared g) = (Inr (), s') \<Longrightarrow>
    gate_step g (g\<lparr>shared := s', leases := (leases g)(kb := leases g kb + 1)\<rparr>)"
| refused: "read_enter kb (shared g) = (Inl e, s') \<Longrightarrow> gate_step g (g\<lparr>shared := s'\<rparr>)"
| left: "0 < leases g kb \<Longrightarrow>
    gate_step g (g\<lparr>shared := read_exit kb (shared g), leases := (leases g)(kb := leases g kb - 1)\<rparr>)"
| claimed: "drain_claim expired kb (shared g) = (Claimed, s') \<Longrightarrow>
    gate_step g (g\<lparr>shared := s', drains := (kb, False) # drains g\<rparr>)"
| drained: "(kb, False) \<in> set (drains g) \<Longrightarrow> drain_wait expired kb (shared g) = (Drained, s') \<Longrightarrow>
    gate_step g (g\<lparr>shared := s', drains := (kb, True) # remove1 (kb, False) (drains g)\<rparr>)"
| gave_up: "(kb, False) \<in> set (drains g) \<Longrightarrow> drain_wait expired kb (shared g) = (TimedOut, s') \<Longrightarrow>
    gate_step g (g\<lparr>shared := s', drains := remove1 (kb, False) (drains g)\<rparr>)"
| finished: "(kb, True) \<in> set (drains g) \<Longrightarrow>
    gate_step g (g\<lparr>shared := drain_finish kb (shared g), drains := remove1 (kb, True) (drains g)\<rparr>)"

definition gate_inv :: "gate \<Rightarrow> bool" where
  "gate_inv g \<longleftrightarrow> (\<forall>kb. reader_count kb (shared g) = leases g kb \<and> 0 \<le> leases g kb) \<and>
     distinct (map fst (drains g)) \<and> (\<forall>kb. draining (shared g) kb \<longleftrightarrow> kb \<in> fst ` set (drains g)) \<and>
     (\<forall>kb. (kb, True) \<in> set (drains g) \<longrightarrow> leases g kb = 0)"

lemma reader_count_enter: "read_enter kb s = (Inr (), s') \<Longrightarrow>
    reader_count k s' = reader_count k s + (if k = kb then 1 else 0) \<and> draining s' = draining s"
  by (auto simp: read_enter_def reader_count_def split: if_splits)

lemma reader_count_exit: "0 < reader_count kb s \<Longrightarrow>
    reader_count k (read_exit kb s) = reader_count k s - (if k = kb then 1 else 0) \<and> draining (read_exit kb s) = draining s"
  by (auto simp: read_exit_def reader_count_def Let_def split: option.splits)

lemma fst_remove1:
  assumes "distinct (map fst xs)" "(k, b) \<in> set xs"
  shows "fst ` set (remove1 (k, b) xs) = fst ` set xs - {k}" "distinct (map fst (remove1 (k, b) xs))"
    "set (remove1 (k, b) xs) \<subseteq> set xs"
proof -
  have d: "distinct xs" using assms(1) distinct_map by blast
  have s: "set (remove1 (k, b) xs) = set xs - {(k, b)}" using d by (rule set_remove1_eq)
  have inj: "inj_on fst (set xs)" using assms(1) by (simp add: distinct_map)
  show "fst ` set (remove1 (k, b) xs) = fst ` set xs - {k}"
    unfolding s using inj_on_image_set_diff [OF inj, of "set xs" "{(k, b)}"] assms(2) by simp
  show "set (remove1 (k, b) xs) \<subseteq> set xs" using s by auto
  show "distinct (map fst (remove1 (k, b) xs))"
    using assms(1) d s by (auto simp: distinct_map distinct_remove1 intro: inj_on_subset)
qed

lemma gate_step_inv: "gate_step g g' \<Longrightarrow> gate_inv g \<Longrightarrow> gate_inv g'"
proof (induction rule: gate_step.induct)
  case (admitted kb g s')
  then have "\<not> draining (shared g) kb" by (auto simp: read_enter_def split: if_splits)
  then have "(kb, True) \<notin> set (drains g)" using admitted.prems by (force simp: gate_inv_def)
  with admitted reader_count_enter [OF admitted.hyps] show ?case by (auto simp: gate_inv_def)
next
  case (refused kb g e s')
  then have "s' = shared g" by (auto simp: read_enter_def split: if_splits)
  with refused show ?case by simp
next
  case (left g kb)
  then have "0 < reader_count kb (shared g)" by (simp add: gate_inv_def)
  with left reader_count_exit [OF this] show ?case by (auto simp: gate_inv_def)
next
  case (claimed expired kb g s')
  then have s: "\<not> draining (shared g) kb" "s' = (shared g)\<lparr>draining := (draining (shared g))(kb := True)\<rparr>"
    by (auto simp: drain_claim_def split: if_splits)
  with claimed show ?case by (auto simp: gate_inv_def reader_count_def)
next
  case (drained kb g expired s')
  then have s: "reader_count kb (shared g) \<le> 0" "s' = shared g" by (auto simp: drain_wait_def split: if_splits)
  have d: "distinct (map fst (drains g))" using drained.prems by (simp add: gate_inv_def)
  note r = fst_remove1 [OF d drained.hyps(1)]
  have "kb \<in> fst ` set (drains g)" using drained.hyps(1) by force
  moreover have "leases g kb = 0" using s(1) drained.prems by (simp add: gate_inv_def order_antisym)
  ultimately show ?case using r s(2) drained.prems by (auto simp: gate_inv_def dest: subsetD [OF r(3)])
next
  case (gave_up kb g expired s')
  then have s: "s' = (shared g)\<lparr>draining := (draining (shared g))(kb := False)\<rparr>"
    by (auto simp: drain_wait_def split: if_splits)
  have d: "distinct (map fst (drains g))" using gave_up.prems by (simp add: gate_inv_def)
  note r = fst_remove1 [OF d gave_up.hyps(1)]
  from r s gave_up.prems show ?case by (auto simp: gate_inv_def reader_count_def dest: subsetD [OF r(3)])
next
  case (finished kb g)
  have d: "distinct (map fst (drains g))" using finished.prems by (simp add: gate_inv_def)
  note r = fst_remove1 [OF d finished.hyps(1)]
  from r finished.prems show ?case
    by (auto simp: gate_inv_def reader_count_def drain_finish_def dest: subsetD [OF r(3)])
qed

lemma one_occurrence: "distinct (map fst xs) \<Longrightarrow> k \<in> fst ` set xs \<Longrightarrow> length (filter (\<lambda>p. fst p = k) xs) = 1"
proof (induction xs)
  case (Cons x xs)
  show ?case
  proof (cases "fst x = k")
    case True
    then have "k \<notin> fst ` set xs" using Cons.prems(1) by simp
    then have "filter (\<lambda>p. fst p = k) xs = []" by (auto simp: filter_empty_conv image_iff)
    with True show ?thesis by simp
  next
    case False
    with Cons show ?thesis by auto
  qed
qed simp

text \<open>C26. A drain excludes readers: in every interleaving of read leases and drains, with any timeouts,
  while the body of a drain of a knowledge base runs no read lease of it is open, no further one is
  admitted, and no other drain of it is in progress; the counter \<open>has_readers\<close> reads is exactly the
  number of open leases.\<close>

theorem drain_excludes_readers:
  assumes "gate_step\<^sup>*\<^sup>* no_readers g"
  shows "(has_readers kb (shared g) \<longleftrightarrow> 0 < leases g kb) \<and>
    ((kb, True) \<in> set (drains g) \<longrightarrow> leases g kb = 0 \<and> fst (read_enter kb (shared g)) = Inl KBReadUnavailable
       \<and> fst (drain_claim expired kb (shared g)) \<noteq> Claimed
       \<and> length (filter (\<lambda>d. fst d = kb) (drains g)) = 1)"
proof -
  have "gate_inv no_readers" by (simp add: gate_inv_def no_readers_def reader_count_def)
  with assms have inv: "gate_inv g"
    by (induction rule: rtranclp_induct) (auto intro: gate_step_inv)
  have "leases g kb = 0 \<and> fst (read_enter kb (shared g)) = Inl KBReadUnavailable
       \<and> fst (drain_claim expired kb (shared g)) \<noteq> Claimed
       \<and> length (filter (\<lambda>d. fst d = kb) (drains g)) = 1" if d: "(kb, True) \<in> set (drains g)"
  proof -
    have "draining (shared g) kb" using inv d by (force simp: gate_inv_def)
    moreover have "leases g kb = 0" using inv d by (simp add: gate_inv_def)
    moreover have "length (filter (\<lambda>p. fst p = kb) (drains g)) = 1"
      using inv d by (intro one_occurrence) (force simp: gate_inv_def)+
    ultimately show ?thesis by (simp add: read_enter_def drain_claim_def)
  qed
  then show ?thesis using inv by (simp add: has_readers_def gate_inv_def)
qed

theorem drain_excludes_readers_witness:
  "fst (read_enter ''kb'' (snd (drain_claim False ''kb'' (shared no_readers)))) = Inl KBReadUnavailable"
proof -
  let ?s1 = "snd (drain_claim False ''kb'' (shared no_readers))"
  let ?g1 = "no_readers\<lparr>shared := ?s1, drains := [(''kb'', False)]\<rparr>"
  let ?g2 = "?g1\<lparr>shared := ?s1, drains := [(''kb'', True)]\<rparr>"
  have "drain_claim False ''kb'' (shared no_readers) = (Claimed, ?s1)"
    by (simp add: drain_claim_def no_readers_def)
  from gate_step.claimed [OF this] have "gate_step no_readers ?g1" by (simp add: no_readers_def)
  moreover have "drain_wait False ''kb'' (shared ?g1) = (Drained, ?s1)"
    by (simp add: drain_wait_def drain_claim_def no_readers_def reader_count_def)
  from gate_step.drained [OF _ this] have "gate_step ?g1 ?g2" by simp
  ultimately have "gate_step\<^sup>*\<^sup>* no_readers ?g2" by (meson converse_rtranclp_into_rtranclp rtranclp.rtrancl_refl)
  from drain_excludes_readers [OF this, of "''kb''" False] show ?thesis by simp
qed

end
