(* ===== verification/Index_Plan.thy ===== *)
theory Index_Plan
  imports PyJson
begin

text \<open>
  Planning of an incremental index build (\<open>plan_incremental\<close> of \<open>service/ingest_service.py\<close>): which
  documents to parse again and whose old chunks to drop, from the document hashes of the previous
  and the current manifest.
\<close>

record index_manifest =
  mf_doc_id :: json
  mf_build_version :: json
  mf_documents :: "(string \<times> string) list" \<comment> \<open>\<open>name\<close> and \<open>sha256\<close> of each document\<close>

text \<open>\<open>_documents_by_name\<close>: a dictionary comprehension, in which a later entry overrides.\<close>

definition documents_by_name :: "index_manifest \<Rightarrow> (string \<times> string) list" where
  "documents_by_name m = foldl (\<lambda>d p. jset (fst p) (snd p) d) [] (mf_documents m)"

record incremental_plan =
  to_parse :: "string list"
  removed_sources :: "string set"

text \<open>\<open>None\<close> asks for a full rebuild; an empty previous manifest is \<open>None\<close>.\<close>

definition plan_incremental :: "index_manifest option \<Rightarrow> index_manifest \<Rightarrow> incremental_plan option" where
  "plan_incremental previous current =
     (case previous of
        None \<Rightarrow> None
      | Some p \<Rightarrow>
          if \<not> py_eq (mf_doc_id p) (mf_doc_id current) then None
          else if \<not> py_eq (mf_build_version p) (mf_build_version current) then None
          else
           (let prev = documents_by_name p; cur = documents_by_name current;
                added = filter (\<lambda>n. map_of prev n = None) (map fst cur);
                changed = filter (\<lambda>n. map_of prev n \<noteq> None \<and> map_of prev n \<noteq> map_of cur n) (map fst cur);
                removed = filter (\<lambda>n. map_of cur n = None) (map fst prev)
            in Some \<lparr>to_parse = sort (added @ changed), removed_sources = set removed \<union> set changed\<rparr>))"

text \<open>What applying a plan does to the indexed documents: the chunks of the removed sources go, the
  parsed documents are added with their current hash.\<close>

definition apply_plan :: "incremental_plan \<Rightarrow> (string \<Rightarrow> string option) \<Rightarrow> (string \<Rightarrow> string option) \<Rightarrow> string \<Rightarrow> string option" where
  "apply_plan plan cur prev n =
     (if n \<in> set (to_parse plan) then cur n else if n \<in> removed_sources plan then None else prev n)"

lemma distinct_documents: "distinct (map fst (documents_by_name m))"
proof -
  have "distinct (map fst d) \<Longrightarrow> distinct (map fst (foldl (\<lambda>d p. jset (fst p) (snd p) d) d ps))" for d and ps :: "(string \<times> string) list"
    by (induction ps arbitrary: d) (simp_all add: distinct_jset)
  then show ?thesis by (simp add: documents_by_name_def)
qed

lemma map_of_keys: "set (map fst d) = {n. map_of d n \<noteq> None}"
  by (auto simp: map_of_eq_None_iff simp del: not_None_eq)

text \<open>C27. An incremental build gives the index of a full one: dropping the chunks of the removed sources
  and adding the re-parsed documents turns the previous documents into exactly the current ones; the
  list to parse is sorted, free of duplicates and minimal (only new documents and documents whose hash
  changed), and every source to drop was indexed before.\<close>

theorem incremental_plan_exact:
  assumes "plan_incremental (Some previous) current = Some plan"
  shows "apply_plan plan (map_of (documents_by_name current)) (map_of (documents_by_name previous))
      = map_of (documents_by_name current)
    \<and> sorted (to_parse plan) \<and> distinct (to_parse plan)
    \<and> set (to_parse plan) = {n. map_of (documents_by_name current) n \<noteq> None \<and>
        map_of (documents_by_name previous) n \<noteq> map_of (documents_by_name current) n}
    \<and> removed_sources plan = {n. map_of (documents_by_name previous) n \<noteq> None \<and>
        map_of (documents_by_name previous) n \<noteq> map_of (documents_by_name current) n}"
proof -
  let ?prev = "documents_by_name previous" and ?cur = "documents_by_name current"
  from assms have plan: "plan = \<lparr>to_parse = sort (filter (\<lambda>n. map_of ?prev n = None) (map fst ?cur) @
      filter (\<lambda>n. map_of ?prev n \<noteq> None \<and> map_of ?prev n \<noteq> map_of ?cur n) (map fst ?cur)),
      removed_sources = set (filter (\<lambda>n. map_of ?cur n = None) (map fst ?prev)) \<union>
        set (filter (\<lambda>n. map_of ?prev n \<noteq> None \<and> map_of ?prev n \<noteq> map_of ?cur n) (map fst ?cur))\<rparr>"
    by (auto simp: plan_incremental_def Let_def split: if_splits)
  have tp: "set (to_parse plan) = {n. map_of ?cur n \<noteq> None \<and> map_of ?prev n \<noteq> map_of ?cur n}"
    by (auto simp: plan map_of_keys simp del: set_map)
  have rs: "removed_sources plan = {n. map_of ?prev n \<noteq> None \<and> map_of ?prev n \<noteq> map_of ?cur n}"
    by (auto simp: plan map_of_keys simp del: set_map)
  have "apply_plan plan (map_of ?cur) (map_of ?prev) n = map_of ?cur n" for n
    by (auto simp: apply_plan_def tp rs)
  moreover have "sorted (to_parse plan)" "distinct (to_parse plan)"
    using distinct_documents [of current] by (auto simp: plan distinct_filter)
  ultimately show ?thesis using tp rs by auto
qed

definition demo_manifest :: "(string \<times> string) list \<Rightarrow> index_manifest" where
  "demo_manifest docs = \<lparr>mf_doc_id = JStr ''kb'', mf_build_version = JStr ''v1'', mf_documents = docs\<rparr>"

theorem incremental_plan_exact_witness:
  "\<exists>plan. plan_incremental (Some (demo_manifest [(''a.md'', ''1''), (''b.md'', ''2'')]))
      (demo_manifest [(''b.md'', ''3''), (''c.md'', ''4'')]) = Some plan
    \<and> set (to_parse plan) = {''b.md'', ''c.md''} \<and> sorted (to_parse plan)"
proof -
  let ?p = "demo_manifest [(''a.md'', ''1''), (''b.md'', ''2'')]" and ?c = "demo_manifest [(''b.md'', ''3''), (''c.md'', ''4'')]"
  obtain plan where plan: "plan_incremental (Some ?p) ?c = Some plan"
    by (simp add: plan_incremental_def demo_manifest_def Let_def)
  have "{n. map_of (documents_by_name ?c) n \<noteq> None \<and> map_of (documents_by_name ?p) n \<noteq> map_of (documents_by_name ?c) n}
      = {''b.md'', ''c.md''}"
    by (auto simp: documents_by_name_def demo_manifest_def split: if_splits)
  with incremental_plan_exact [OF plan] plan show ?thesis by auto
qed

end
