(* ===== verification/HA_Jobs.thy ===== *)
theory HA_Jobs
  imports HA_Storage
begin

text \<open>
  The lease-based job queue (\<open>ha/tasks.py\<close>, \<open>LeaseJobStore\<close>).  The tables \<open>ha_jobs\<close> and
  \<open>ha_job_keys\<close> are lists of rows; every method is the transaction it runs, a function from the
  tables to its result and the new tables, or to the exception (which rolls the transaction back).
  Transactions are serial.  What a method draws from outside (the clock reading, the new identifier,
  the lease token, and for PostgreSQL the rows other transactions have locked) is an argument.
\<close>

section \<open>Rows\<close>

datatype job_status = JOB_QUEUED | JOB_RUNNING | JOB_RETRY_WAIT | JOB_SUCCEEDED | JOB_FAILED
  | JOB_DEAD_LETTER | JOB_CANCELLED

definition JOB_TERMINAL :: "job_status list" where
  "JOB_TERMINAL = [JOB_SUCCEEDED, JOB_FAILED, JOB_DEAD_LETTER, JOB_CANCELLED]"

text \<open>A row of \<open>ha_jobs\<close>.  The two text columns with JSON hold the tree of their text.\<close>

record job =
  j_id :: string
  j_queue :: string
  j_tenant :: string
  j_payload :: json
  j_status :: job_status
  j_priority :: int
  j_available_at :: real
  j_lease_owner :: "string option"
  j_lease_token :: "string option"
  j_lease_expires_at :: "real option"
  j_cancel_requested :: bool
  j_attempt :: int
  j_max_attempts :: int
  j_result :: "json option"
  j_error_code :: "string option"
  j_key :: "string option"
  j_replay_of :: "string option"
  j_created_at :: real
  j_updated_at :: real
  j_finished_at :: "real option"
  j_revision :: int

text \<open>A row of \<open>ha_job_keys\<close>.\<close>

record job_key =
  k_queue :: string
  k_tenant :: string
  k_key :: string
  k_job_id :: string
  k_fingerprint :: string
  k_terminal_status :: "job_status option"
  k_created_at :: real

record jobs_db =
  jobs :: "job list"
  job_keys :: "job_key list"

text \<open>What \<open>enqueue\<close> returns: the row, or the stub of a job whose row has been pruned.  The stub's
  status is the recorded one, or \<open>"pruned"\<close> (\<open>None\<close>).\<close>

datatype job_view =
    EmptyView \<comment> \<open>the empty dictionary\<close>
  | JobRow job
  | PrunedRow (p_id: string) (p_queue: string) (p_tenant: string) (p_payload: json)
      (p_status: "job_status option") (p_key: string)

fun view_id :: "job_view \<Rightarrow> string" where
  "view_id EmptyView = []"
| "view_id (JobRow j) = j_id j"
| "view_id (PrunedRow i _ _ _ _ _) = i"

fun view_replay_of :: "job_view \<Rightarrow> string option" where
  "view_replay_of EmptyView = None"
| "view_replay_of (JobRow j) = j_replay_of j"
| "view_replay_of (PrunedRow _ _ _ _ _ _) = None"

definition job_kid :: "job \<Rightarrow> string \<times> string \<times> string option" where
  "job_kid j = (j_queue j, j_tenant j, j_key j)"

definition key_kid :: "job_key \<Rightarrow> string \<times> string \<times> string option" where
  "key_kid k = (k_queue k, k_tenant k, Some (k_key k))"

section \<open>Enqueue\<close>

text \<open>The inserted row: the columns not listed take their defaults.\<close>

definition new_job :: "string \<Rightarrow> string \<Rightarrow> string \<Rightarrow> json \<Rightarrow> int \<Rightarrow> real \<Rightarrow> int \<Rightarrow> string option \<Rightarrow>
    string option \<Rightarrow> real \<Rightarrow> job" where
  "new_job i queue tenant payload prio ready max_att key replay now =
     \<lparr>j_id = i, j_queue = queue, j_tenant = tenant, j_payload = payload, j_status = JOB_QUEUED,
      j_priority = prio, j_available_at = ready, j_lease_owner = None, j_lease_token = None,
      j_lease_expires_at = None, j_cancel_requested = False, j_attempt = 0, j_max_attempts = max_att,
      j_result = None, j_error_code = None, j_key = key, j_replay_of = replay, j_created_at = now,
      j_updated_at = now, j_finished_at = None, j_revision = 1\<rparr>"

text \<open>\<open>INSERT OR IGNORE\<close> (SQLite) ignores a violation of either key; \<open>ON CONFLICT(queue, tenant,
  idempotency key) DO NOTHING\<close> (PostgreSQL) only one of the unique constraint.  A \<open>NULL\<close> idempotency
  key violates nothing.  The result says whether \<open>rowcount\<close> is 1.\<close>

definition insert_job :: "dialect \<Rightarrow> job \<Rightarrow> job list \<Rightarrow> (bool \<times> job list) res" where
  "insert_job dia j rows =
     (if j_key j \<noteq> None \<and> job_kid j \<in> set (map job_kid rows) then Inr (False, rows)
      else if j_id j \<in> set (map j_id rows)
      then (case dia of SQLite \<Rightarrow> Inr (False, rows) | Postgres \<Rightarrow> Inl IntegrityError)
      else Inr (True, rows @ [j]))"

definition by_kid :: "string \<Rightarrow> string \<Rightarrow> string \<Rightarrow> job \<Rightarrow> bool" where
  "by_kid queue tenant key j \<longleftrightarrow> job_kid j = (queue, tenant, Some key)"

definition find_key :: "string \<Rightarrow> string \<Rightarrow> string \<Rightarrow> jobs_db \<Rightarrow> job_key option" where
  "find_key queue tenant key d = sql_find (\<lambda>k. key_kid k = (queue, tenant, Some key)) (job_keys d)"

definition find_job :: "string \<Rightarrow> jobs_db \<Rightarrow> job option" where
  "find_job i d = sql_find (\<lambda>j. j_id j = i) (jobs d)"

definition conflict_msg :: string where
  "conflict_msg = ''idempotency key was reused with a different payload''"

text \<open>The lookups under an idempotency key, before the insertion; \<open>Inr None\<close> goes on to insert.\<close>

definition enqueue_existing :: "codec \<Rightarrow> string \<Rightarrow> string \<Rightarrow> json \<Rightarrow> string \<Rightarrow> jobs_db \<Rightarrow> job_view option res" where
  "enqueue_existing c queue tenant payload key d =
     (case find_key queue tenant key d of
        Some kr \<Rightarrow>
          if k_fingerprint kr \<noteq> sha256 c (json_body c payload) then Inl (JobConflict conflict_msg)
          else (case find_job (k_job_id kr) d of
                  Some j \<Rightarrow> Inr (Some (JobRow j))
                | None \<Rightarrow> Inr (Some (PrunedRow (k_job_id kr) queue tenant payload (k_terminal_status kr) key)))
      | None \<Rightarrow>
          (case sql_find (by_kid queue tenant key) (jobs d) of
             Some j \<Rightarrow> if \<not> py_eq (j_payload j) payload then Inl (JobConflict conflict_msg)
                       else Inr (Some (JobRow j))
           | None \<Rightarrow> Inr None))"

text \<open>The insertion into \<open>ha_job_keys\<close>, an \<open>IntegrityError\<close> when the key is there.\<close>

definition insert_key :: "job_key \<Rightarrow> jobs_db \<Rightarrow> jobs_db res" where
  "insert_key k d = (if key_kid k \<in> set (map key_kid (job_keys d)) then Inl IntegrityError
                     else Inr (d\<lparr>job_keys := job_keys d @ [k]\<rparr>))"

definition enqueue_insert :: "dialect \<Rightarrow> codec \<Rightarrow> job \<Rightarrow> jobs_db \<Rightarrow> (job_view \<times> jobs_db) res" where
  "enqueue_insert dia c j d =
     bindR (insert_job dia j (jobs d)) (\<lambda>(inserted, rows).
       if inserted then
         bindR (case j_key j of
                  None \<Rightarrow> Inr (d\<lparr>jobs := rows\<rparr>)
                | Some key \<Rightarrow> insert_key \<lparr>k_queue = j_queue j, k_tenant = j_tenant j, k_key = key, k_job_id = j_id j,
                     k_fingerprint = sha256 c (json_body c (j_payload j)), k_terminal_status = None,
                     k_created_at = j_created_at j\<rparr> (d\<lparr>jobs := rows\<rparr>))
           (\<lambda>d'. case find_job (j_id j) d' of
                   Some r \<Rightarrow> Inr (JobRow r, d') | None \<Rightarrow> Inr (EmptyView, d'))
       else case j_key j of
         None \<Rightarrow> Inl (JobConflict ''job identifier collision'')
       | Some key \<Rightarrow>
           (case sql_find (by_kid (j_queue j) (j_tenant j) key) rows of
              None \<Rightarrow> Inl (JobConflict ''idempotent job disappeared during enqueue'')
            | Some r \<Rightarrow> if \<not> py_eq (j_payload r) (j_payload j) then Inl (JobConflict conflict_msg)
                        else Inr (JobRow r, d)))"

text \<open>\<open>enqueue\<close>; \<open>i\<close> is \<open>haj-\<close> and the hexadecimal digits of the new UUID.\<close>

definition enqueue :: "dialect \<Rightarrow> codec \<Rightarrow> string \<Rightarrow> string \<Rightarrow> json \<Rightarrow> int \<Rightarrow> int \<Rightarrow> pyfloat option \<Rightarrow> string option \<Rightarrow>
    real \<Rightarrow> string \<Rightarrow> jobs_db \<Rightarrow> (job_view \<times> jobs_db) res" where
  "enqueue dia c queue tenant payload prio max_att available key now i d =
     bindR (clean queue ''queue'' 128) (\<lambda>_.
     bindR (clean tenant ''tenant_id'' 255) (\<lambda>_.
     bindR (encode_json c ''job payload'' payload) (\<lambda>body.
     bindR (guardR (-1000 \<le> prio \<and> prio \<le> 1000) (ValueError ''priority must be between -1000 and 1000'')) (\<lambda>_.
     bindR (guardR (1 \<le> max_att \<and> max_att \<le> 100) (ValueError ''max_attempts must be between 1 and 100'')) (\<lambda>_.
     bindR (clean_opt key ''idempotency_key'' 512) (\<lambda>_.
     let ready = (case available of None \<Rightarrow> Fin now | Some x \<Rightarrow> x) in
     bindR (guardR (isfinite ready \<and> 0 \<le> fin_val ready) (ValueError ''available_at is invalid'')) (\<lambda>_.
     let j = new_job i queue tenant body prio (fin_val ready) max_att key None now in
     case key of
       None \<Rightarrow> enqueue_insert dia c j d
     | Some k \<Rightarrow>
         bindR (enqueue_existing c queue tenant body k d) (\<lambda>found.
           case found of Some v \<Rightarrow> Inr (v, d) | None \<Rightarrow> enqueue_insert dia c j d))))))))"

section \<open>Claim, heartbeat and completion\<close>

definition claimable :: "string \<Rightarrow> real \<Rightarrow> job \<Rightarrow> bool" where
  "claimable queue now j \<longleftrightarrow> j_queue j = queue \<and> \<not> j_cancel_requested j \<and> j_attempt j < j_max_attempts j \<and>
     ((j_status j = JOB_QUEUED \<or> j_status j = JOB_RETRY_WAIT) \<and> j_available_at j \<le> now \<or>
      j_status j = JOB_RUNNING \<and> null_le (j_lease_expires_at j) now)"

text \<open>\<open>ORDER BY priority DESC, available_at, created_at, job_id\<close>\<close>

definition claim_key :: "job \<Rightarrow> int \<times> real \<times> real \<times> string" where
  "claim_key j = (- j_priority j, j_available_at j, j_created_at j, j_id j)"

definition set_claimed :: "string \<Rightarrow> string \<Rightarrow> real \<Rightarrow> real \<Rightarrow> job \<Rightarrow> job" where
  "set_claimed worker token expires now j =
     j\<lparr>j_status := JOB_RUNNING, j_lease_owner := Some worker, j_lease_token := Some token,
       j_lease_expires_at := Some expires, j_attempt := j_attempt j + 1, j_updated_at := now,
       j_revision := j_revision j + 1\<rparr>"

text \<open>\<open>locked\<close> are the rows that \<open>FOR UPDATE SKIP LOCKED\<close> passes over; SQLite has a single writer.\<close>

definition claim :: "dialect \<Rightarrow> string \<Rightarrow> string \<Rightarrow> pyfloat \<Rightarrow> real \<Rightarrow> string \<Rightarrow> string list \<Rightarrow> jobs_db \<Rightarrow>
    (job option \<times> jobs_db) res" where
  "claim dia queue worker lease now token locked d =
     bindR (clean queue ''queue'' 128) (\<lambda>_.
     bindR (clean worker ''worker_id'' 255) (\<lambda>_.
     bindR (lease_ok lease) (\<lambda>_.
     let upd = set_claimed worker token (now + fin_val lease) now in
     case dia of
       Postgres \<Rightarrow>
         (case sql_first (\<lambda>j. claimable queue now j \<and> j_id j \<notin> set locked) claim_key (jobs d) of
            None \<Rightarrow> Inr (None, d)
          | Some j \<Rightarrow>
              (let d' = d\<lparr>jobs := sql_update (\<lambda>r. j_id r = j_id j) upd (jobs d)\<rparr>
               in Inr (find_job (j_id j) d', d')))
     | SQLite \<Rightarrow>
         (case sql_first (claimable queue now) claim_key (jobs d) of
            None \<Rightarrow> Inr (None, d)
          | Some j \<Rightarrow>
              (let p = (\<lambda>r. j_id r = j_id j \<and> \<not> j_cancel_requested r \<and> j_attempt r < j_max_attempts r \<and>
                     ((j_status r = JOB_QUEUED \<or> j_status r = JOB_RETRY_WAIT) \<and> j_available_at r \<le> now \<or>
                      j_status r = JOB_RUNNING \<and> null_le (j_lease_expires_at r) now));
                   d' = d\<lparr>jobs := sql_update p upd (jobs d)\<rparr>
               in if sql_count p (jobs d) \<noteq> 1 then Inr (None, d')
                  else Inr (find_job (j_id j) d', d'))))))"

definition heartbeat :: "string \<Rightarrow> string \<Rightarrow> pyfloat \<Rightarrow> real \<Rightarrow> jobs_db \<Rightarrow> (job option \<times> jobs_db) res" where
  "heartbeat i token lease now d =
     bindR (clean i ''job_id'' 255) (\<lambda>_.
     bindR (clean token ''lease_token'' 512) (\<lambda>_.
     bindR (lease_ok lease) (\<lambda>_.
     let p = (\<lambda>r. j_id r = i \<and> j_status r = JOB_RUNNING \<and> j_lease_token r = Some token \<and>
                  null_gt (j_lease_expires_at r) now \<and> \<not> j_cancel_requested r);
         d' = d\<lparr>jobs := sql_update p (\<lambda>r. r\<lparr>j_lease_expires_at := Some (now + fin_val lease),
                                        j_updated_at := now, j_revision := j_revision r + 1\<rparr>) (jobs d)\<rparr>
     in if sql_count p (jobs d) \<noteq> 1 then Inl StaleJobLease
        else Inr (find_job i d', d'))))"

definition finish_status :: "job \<Rightarrow> string option \<Rightarrow> bool \<Rightarrow> job_status" where
  "finish_status j error retryable =
     (if j_cancel_requested j then JOB_CANCELLED
      else if error = None then JOB_SUCCEEDED
      else if retryable \<and> j_attempt j < j_max_attempts j then JOB_RETRY_WAIT
      else if retryable then JOB_DEAD_LETTER
      else JOB_FAILED)"

definition set_finished :: "job_status \<Rightarrow> json option \<Rightarrow> string option \<Rightarrow> real \<Rightarrow> real \<Rightarrow> job \<Rightarrow> job" where
  "set_finished st body error delay now r =
     r\<lparr>j_status := st, j_result := (if st = JOB_SUCCEEDED then body else None), j_error_code := error,
       j_available_at := (if st = JOB_RETRY_WAIT then now + delay else now),
       j_lease_owner := None, j_lease_token := None, j_lease_expires_at := None,
       j_finished_at := (if st \<in> set JOB_TERMINAL then Some now else None),
       j_updated_at := now, j_revision := j_revision r + 1\<rparr>"

text \<open>\<open>_finish\<close>; the result \<open>None\<close> of Python is \<^const>\<open>JNull\<close>.\<close>

definition finish :: "codec \<Rightarrow> string \<Rightarrow> string \<Rightarrow> json \<Rightarrow> string option \<Rightarrow> bool \<Rightarrow> real \<Rightarrow> real \<Rightarrow> jobs_db \<Rightarrow>
    (job option \<times> jobs_db) res" where
  "finish c i token value error retryable delay now d =
     bindR (clean i ''job_id'' 255) (\<lambda>_.
     bindR (clean token ''lease_token'' 512) (\<lambda>_.
     bindR (if value = JNull then Inr None
            else bindR (encode_json c ''job payload'' value) (\<lambda>b. Inr (Some b))) (\<lambda>body.
     case find_job i d of
       None \<Rightarrow> Inl StaleJobLease
     | Some j \<Rightarrow>
         if j_status j \<noteq> JOB_RUNNING \<or> j_lease_token j \<noteq> Some token
            \<or> (case j_lease_expires_at j of None \<Rightarrow> 0 | Some t \<Rightarrow> t) \<le> now
         then Inl StaleJobLease
         else
           (let st = finish_status j error retryable;
                d' = d\<lparr>jobs := sql_update
                      (\<lambda>r. j_id r = i \<and> j_lease_token r = Some token \<and> j_status r = JOB_RUNNING)
                      (set_finished st body error delay now) (jobs d)\<rparr>
            in Inr (find_job i d', d')))))"

definition complete :: "codec \<Rightarrow> string \<Rightarrow> string \<Rightarrow> json \<Rightarrow> real \<Rightarrow> jobs_db \<Rightarrow> (job option \<times> jobs_db) res" where
  "complete c i token value now d = finish c i token value None False 0 now d"

definition fail :: "codec \<Rightarrow> string \<Rightarrow> string \<Rightarrow> string \<Rightarrow> bool \<Rightarrow> pyfloat \<Rightarrow> real \<Rightarrow> jobs_db \<Rightarrow>
    (job option \<times> jobs_db) res" where
  "fail c i token error retryable delay now d =
     bindR (clean error ''error_code'' 128) (\<lambda>_.
     bindR (guardR (isfinite delay \<and> 0 \<le> fin_val delay) (ValueError ''retry_delay_seconds is invalid'')) (\<lambda>_.
     finish c i token JNull (Some error) retryable (fin_val delay) now d))"

section \<open>Cancellation, replay and maintenance\<close>

definition find_scoped :: "string \<Rightarrow> string option \<Rightarrow> jobs_db \<Rightarrow> job option" where
  "find_scoped i tenant d =
     sql_find (\<lambda>j. j_id j = i \<and> (case tenant of None \<Rightarrow> True | Some t \<Rightarrow> j_tenant j = t)) (jobs d)"

definition request_cancel :: "string \<Rightarrow> string option \<Rightarrow> real \<Rightarrow> jobs_db \<Rightarrow> (job option \<times> jobs_db) res" where
  "request_cancel i tenant now d =
     bindR (clean i ''job_id'' 255) (\<lambda>_.
     bindR (clean_opt tenant ''tenant_id'' 255) (\<lambda>_.
     case find_scoped i tenant d of
       None \<Rightarrow> Inr (None, d)
     | Some j \<Rightarrow>
         if j_status j \<in> set JOB_TERMINAL then Inr (Some j, d)
         else
           (let f = (if j_status j = JOB_QUEUED \<or> j_status j = JOB_RETRY_WAIT
                     then (\<lambda>r. r\<lparr>j_status := JOB_CANCELLED, j_cancel_requested := True, j_finished_at := Some now,
                                 j_updated_at := now, j_revision := j_revision r + 1\<rparr>)
                     else (\<lambda>r. r\<lparr>j_cancel_requested := True, j_updated_at := now, j_revision := j_revision r + 1\<rparr>));
                d' = d\<lparr>jobs := sql_update (\<lambda>r. j_id r = i) f (jobs d)\<rparr>
            in Inr (find_job i d', d'))))"

definition replay_key_of :: "string \<Rightarrow> string \<Rightarrow> string" where
  "replay_key_of i key = ''replay:'' @ i @ '':'' @ key"

definition replay_dead_letter :: "dialect \<Rightarrow> codec \<Rightarrow> string \<Rightarrow> string \<Rightarrow> string option \<Rightarrow> real \<Rightarrow> string \<Rightarrow> jobs_db \<Rightarrow>
    (job option \<times> jobs_db) res" where
  "replay_dead_letter dia c i key tenant now new_id d =
     bindR (clean i ''job_id'' 255) (\<lambda>_.
     bindR (clean key ''replay_key'' 200) (\<lambda>_.
     bindR (clean_opt tenant ''tenant_id'' 255) (\<lambda>_.
     case find_scoped i tenant d of
       None \<Rightarrow> Inl (JobConflict ''only dead-letter jobs can be replayed'')
     | Some src \<Rightarrow>
         if j_status src \<noteq> JOB_DEAD_LETTER then Inl (JobConflict ''only dead-letter jobs can be replayed'')
         else bindR (encode_json c ''job payload'' (j_payload src)) (\<lambda>body.
           bindR (insert_job dia (new_job new_id (j_queue src) (j_tenant src) body (j_priority src) now
                    (j_max_attempts src) (Some (replay_key_of i key)) (Some i) now) (jobs d)) (\<lambda>(inserted, rows).
             if \<not> inserted then
               (case sql_find (by_kid (j_queue src) (j_tenant src) (replay_key_of i key)) rows of
                  None \<Rightarrow> Inl (JobConflict ''dead-letter replay key is already in use'')
                | Some r \<Rightarrow> if j_replay_of r \<noteq> Some i
                            then Inl (JobConflict ''dead-letter replay key is already in use'')
                            else Inr (Some r, d))
             else Inr (find_job new_id (d\<lparr>jobs := rows\<rparr>), d\<lparr>jobs := rows\<rparr>))))))"

definition reap_status :: "job \<Rightarrow> job_status" where
  "reap_status j = (if j_cancel_requested j then JOB_CANCELLED
                    else if j_max_attempts j \<le> j_attempt j then JOB_DEAD_LETTER else JOB_RETRY_WAIT)"

definition set_reaped :: "real \<Rightarrow> job_status \<Rightarrow> job \<Rightarrow> job" where
  "set_reaped now st r =
     r\<lparr>j_status := st, j_available_at := now, j_lease_owner := None, j_lease_token := None,
       j_lease_expires_at := None,
       j_error_code := (if st = JOB_DEAD_LETTER then Some ''LEASE_EXPIRED'' else None),
       j_finished_at := (if st \<in> set JOB_TERMINAL then Some now else None), j_updated_at := now,
       j_revision := j_revision r + 1\<rparr>"

definition overdue :: "real \<Rightarrow> job \<Rightarrow> bool" where
  "overdue now r \<longleftrightarrow> j_status r = JOB_RUNNING \<and> null_le (j_lease_expires_at r) now"

definition reap_one :: "real \<Rightarrow> job \<Rightarrow> jobs_db \<Rightarrow> jobs_db" where
  "reap_one now row d =
     d\<lparr>jobs := sql_update (\<lambda>r. j_id r = j_id row \<and> overdue now r) (set_reaped now (reap_status row)) (jobs d)\<rparr>"

definition reap_expired :: "int \<Rightarrow> real \<Rightarrow> jobs_db \<Rightarrow> (nat \<times> jobs_db) res" where
  "reap_expired limit now d =
     bindR (guardR (1 \<le> limit \<and> limit \<le> 10000) (ValueError ''limit must be between 1 and 10000'')) (\<lambda>_.
     let rows = sql_select (overdue now) (\<lambda>r. (the_default 0 (j_lease_expires_at r), j_id r))
                  (nat limit) (jobs d)
     in Inr (length rows, fold (reap_one now) rows d))"

text \<open>One row of \<open>prune_terminal\<close>: the key row is kept (inserted if missing, and given the final
  status), the job row is deleted; \<open>clock\<close> is the reading taken for that row.\<close>

definition keep_key :: "codec \<Rightarrow> real \<Rightarrow> job \<Rightarrow> string \<Rightarrow> jobs_db \<Rightarrow> jobs_db" where
  "keep_key c clock row key d =
     (let k = \<lparr>k_queue = j_queue row, k_tenant = j_tenant row, k_key = key, k_job_id = j_id row,
               k_fingerprint = sha256 c (json_body c (j_payload row)), k_terminal_status = Some (j_status row),
               k_created_at = clock\<rparr>;
          keys = (if key_kid k \<in> set (map key_kid (job_keys d)) then job_keys d else job_keys d @ [k])
      in d\<lparr>job_keys := sql_update (\<lambda>x. key_kid x = key_kid k \<and> k_job_id x = j_id row)
                         (\<lambda>x. x\<lparr>k_terminal_status := Some (j_status row)\<rparr>) keys\<rparr>)"

definition prunable :: "real \<Rightarrow> job \<Rightarrow> bool" where
  "prunable before r \<longleftrightarrow> j_status r \<in> set JOB_TERMINAL \<and> null_le (j_finished_at r) before"

definition prune_one :: "codec \<Rightarrow> (string \<Rightarrow> real) \<Rightarrow> real \<Rightarrow> job \<Rightarrow> nat \<times> jobs_db \<Rightarrow> nat \<times> jobs_db" where
  "prune_one c clock before row acc =
     (let d = (case j_key row of
                 Some key \<Rightarrow> if key \<noteq> [] then keep_key c (clock (j_id row)) row key (snd acc) else snd acc
               | None \<Rightarrow> snd acc);
          p = (\<lambda>r. j_id r = j_id row \<and> prunable before r)
      in (fst acc + (if sql_count p (jobs d) = 1 then 1 else 0),
          d\<lparr>jobs := filter (\<lambda>r. \<not> p r) (jobs d)\<rparr>))"

definition prune_terminal :: "codec \<Rightarrow> pyfloat \<Rightarrow> int \<Rightarrow> (string \<Rightarrow> real) \<Rightarrow> jobs_db \<Rightarrow> (nat \<times> jobs_db) res" where
  "prune_terminal c before limit clock d =
     bindR (guardR (isfinite before) (ValueError ''job prune cutoff must be finite'')) (\<lambda>_.
     bindR (guardR (1 \<le> limit \<and> limit \<le> 10000) (ValueError ''job prune limit must be between 1 and 10000'')) (\<lambda>_.
     let rows = sql_select (prunable (fin_val before)) (\<lambda>r. (the_default 0 (j_finished_at r), j_id r))
                  (nat limit) (jobs d)
     in Inr (fold (prune_one c clock (fin_val before)) rows (0, d))))"

definition get_job :: "string \<Rightarrow> jobs_db \<Rightarrow> job option res" where
  "get_job i d = bindR (clean i ''job_id'' 255) (\<lambda>_. Inr (find_job i d))"

definition page_match :: "string option \<Rightarrow> string option \<Rightarrow> job_status option \<Rightarrow> (real \<times> string) option \<Rightarrow> job \<Rightarrow> bool" where
  "page_match queue tenant st before j \<longleftrightarrow>
     (case queue of None \<Rightarrow> True | Some q \<Rightarrow> j_queue j = q) \<and>
     (case tenant of None \<Rightarrow> True | Some t \<Rightarrow> j_tenant j = t) \<and>
     (case st of None \<Rightarrow> True | Some s \<Rightarrow> j_status j = s) \<and>
     (case before of None \<Rightarrow> True
      | Some (t, i) \<Rightarrow> j_created_at j < t \<or> j_created_at j = t \<and> j_id j < i)"

text \<open>The status filter is text, one of the seven statuses.\<close>

definition status_texts :: "(string \<times> job_status) list" where
  "status_texts = [(''queued'', JOB_QUEUED), (''running'', JOB_RUNNING), (''retry_wait'', JOB_RETRY_WAIT),
     (''succeeded'', JOB_SUCCEEDED), (''failed'', JOB_FAILED), (''dead_letter'', JOB_DEAD_LETTER),
     (''cancelled'', JOB_CANCELLED)]"

definition list_jobs :: "string option \<Rightarrow> string option \<Rightarrow> string option \<Rightarrow> (pyfloat \<times> string) option \<Rightarrow> int \<Rightarrow>
    jobs_db \<Rightarrow> job list res" where
  "list_jobs queue tenant status before limit d =
     bindR (guardR (1 \<le> limit \<and> limit \<le> 1000) (ValueError ''limit must be between 1 and 1000'')) (\<lambda>_.
     bindR (clean_opt queue ''queue'' 128) (\<lambda>_.
     bindR (clean_opt tenant ''tenant_id'' 255) (\<lambda>_.
     bindR (case status of
              None \<Rightarrow> Inr None
            | Some s \<Rightarrow> (case map_of status_texts s of
                          None \<Rightarrow> Inl (ValueError ''job status is invalid'') | Some x \<Rightarrow> Inr (Some x))) (\<lambda>st.
     bindR (case before of
              None \<Rightarrow> Inr None
            | Some (t, i) \<Rightarrow>
                bindR (guardR (isfinite t \<and> 0 \<le> fin_val t) (ValueError ''job cursor is invalid'')) (\<lambda>_.
                bindR (clean i ''before_job_id'' 255) (\<lambda>_. Inr (Some (fin_val t, i))))) (\<lambda>cursor.
     Inr (take (nat limit) (rev (sort_key (\<lambda>j. (j_created_at j, j_id j))
            (filter (page_match queue tenant st cursor) (jobs d))))))))))"

end
