(* ===== verification/HA_Job_Machine.thy ===== *)
theory HA_Job_Machine
  imports HA_Jobs
begin

text \<open>
  The job queue as a state machine: every operation of \<open>LeaseJobStore\<close> that writes is a \<open>job_op\<close>, a
  run is a sequence of them in commit order.  \<open>row_step\<close> is what an operation may do to one row; the
  theory shows that every operation rewrites rows by \<open>row_step\<close>, appends a new row or prunes, and
  derives the invariant, lease fencing, finality and idempotency from that.
\<close>

section \<open>Operations\<close>

datatype job_op =
    Enqueue string string json int int "pyfloat option" "string option" real string
  | Claim string string pyfloat real string "string list"
  | Heartbeat string string pyfloat real
  | Complete string string json real
  | Fail string string string bool pyfloat real
  | RequestCancel string "string option" real
  | ReplayDeadLetter string string "string option" real string
  | ReapExpired int real
  | PruneTerminal pyfloat int "string \<Rightarrow> real"

fun job_exec :: "dialect \<Rightarrow> codec \<Rightarrow> job_op \<Rightarrow> jobs_db \<Rightarrow> jobs_db" where
  "job_exec dia c (Enqueue q t p pr m av k now i) d = committed (enqueue dia c q t p pr m av k now i d) d"
| "job_exec dia c (Claim q w l now tok lk) d = committed (claim dia q w l now tok lk d) d"
| "job_exec dia c (Heartbeat i tok l now) d = committed (heartbeat i tok l now d) d"
| "job_exec dia c (Complete i tok v now) d = committed (complete c i tok v now d) d"
| "job_exec dia c (Fail i tok e rt dl now) d = committed (fail c i tok e rt dl now d) d"
| "job_exec dia c (RequestCancel i t now) d = committed (request_cancel i t now d) d"
| "job_exec dia c (ReplayDeadLetter i k t now new) d = committed (replay_dead_letter dia c i k t now new d) d"
| "job_exec dia c (ReapExpired n now) d = committed (reap_expired n now d) d"
| "job_exec dia c (PruneTerminal b n cl) d = committed (prune_terminal c b n cl d) d"

definition job_run :: "dialect \<Rightarrow> codec \<Rightarrow> job_op list \<Rightarrow> jobs_db \<Rightarrow> jobs_db" where
  "job_run dia c ops d = fold (job_exec dia c) ops d"

lemma job_run_simps [simp]:
  "job_run dia c [] d = d" "job_run dia c (op # ops) d = job_run dia c ops (job_exec dia c op d)"
  by (simp_all add: job_run_def)

definition empty_jobs :: jobs_db where
  "empty_jobs = \<lparr>jobs = [], job_keys = []\<rparr>"

text \<open>The token an operation puts on a row, the row identifier it may create, its clock reading, and
  the token it acts under.\<close>

fun issued_token :: "job_op \<Rightarrow> string option" where
  "issued_token (Claim q w l now tok lk) = Some tok"
| "issued_token _ = None"

fun new_id :: "job_op \<Rightarrow> string option" where
  "new_id (Enqueue q t p pr m av k now i) = Some i"
| "new_id (ReplayDeadLetter i k t now new) = Some new"
| "new_id _ = None"

fun used_token :: "job_op \<Rightarrow> string option" where
  "used_token (Heartbeat i tok l now) = Some tok"
| "used_token (Complete i tok v now) = Some tok"
| "used_token (Fail i tok e rt dl now) = Some tok"
| "used_token _ = None"

fun op_now :: "job_op \<Rightarrow> real" where
  "op_now (Enqueue q t p pr m av k now i) = now"
| "op_now (Claim q w l now tok lk) = now"
| "op_now (Heartbeat i tok l now) = now"
| "op_now (Complete i tok v now) = now"
| "op_now (Fail i tok e rt dl now) = now"
| "op_now (RequestCancel i t now) = now"
| "op_now (ReplayDeadLetter i k t now new) = now"
| "op_now (ReapExpired n now) = now"
| "op_now (PruneTerminal b n cl) = 0"

section \<open>The invariant\<close>

abbreviation terminal :: "job \<Rightarrow> bool" where
  "terminal j \<equiv> j_status j \<in> set JOB_TERMINAL"

definition job_ok :: "job \<Rightarrow> bool" where
  "job_ok j \<longleftrightarrow>
     (j_status j = JOB_RUNNING \<longleftrightarrow> j_lease_token j \<noteq> None) \<and>
     (j_lease_expires_at j \<noteq> None \<longleftrightarrow> j_lease_token j \<noteq> None) \<and>
     (j_lease_owner j \<noteq> None \<longleftrightarrow> j_lease_token j \<noteq> None) \<and>
     (j_finished_at j \<noteq> None \<longleftrightarrow> terminal j) \<and>
     0 \<le> j_attempt j \<and> j_attempt j \<le> j_max_attempts j \<and> j_max_attempts j \<le> 100 \<and>
     (j_status j = JOB_QUEUED \<longrightarrow> j_attempt j = 0) \<and>
     (j_status j \<in> {JOB_RUNNING, JOB_SUCCEEDED, JOB_FAILED, JOB_DEAD_LETTER} \<longrightarrow> 1 \<le> j_attempt j) \<and>
     (j_status j = JOB_RETRY_WAIT \<longrightarrow> j_attempt j < j_max_attempts j) \<and>
     (j_status j = JOB_DEAD_LETTER \<longrightarrow> j_attempt j = j_max_attempts j) \<and>
     (j_result j \<noteq> None \<longrightarrow> j_status j = JOB_SUCCEEDED) \<and>
     (j_cancel_requested j \<longrightarrow> j_status j \<in> {JOB_RUNNING, JOB_CANCELLED}) \<and>
     (j_status j = JOB_CANCELLED \<longrightarrow> j_cancel_requested j) \<and>
     1 \<le> j_max_attempts j \<and> 1 \<le> j_revision j \<and> j_key j \<noteq> Some [] \<and>
     (j_replay_of j \<noteq> None \<longrightarrow> (\<exists>x. j_key j = Some (''replay:'' @ x)))"

definition keyed_by :: "codec \<Rightarrow> job_key list \<Rightarrow> job \<Rightarrow> bool" where
  "keyed_by c keys j \<longleftrightarrow> (\<exists>k \<in> set keys. key_kid k = job_kid j \<and> k_job_id k = j_id j \<and>
     k_fingerprint k = sha256 c (json_body c (j_payload j)))"

definition jobs_inv :: "codec \<Rightarrow> jobs_db \<Rightarrow> bool" where
  "jobs_inv c d \<longleftrightarrow> distinct (map j_id (jobs d)) \<and> distinct (map key_kid (job_keys d)) \<and>
     (\<forall>a \<in> set (jobs d). \<forall>b \<in> set (jobs d). j_key a \<noteq> None \<and> job_kid a = job_kid b \<longrightarrow> a = b) \<and>
     (\<forall>j \<in> set (jobs d). job_ok j \<and>
        (j_key j \<noteq> None \<and> j_replay_of j = None \<longrightarrow> keyed_by c (job_keys d) j))"

section \<open>What an operation does to a row\<close>

definition same_job :: "job \<Rightarrow> job \<Rightarrow> bool" where
  "same_job r r' \<longleftrightarrow> j_id r' = j_id r \<and> job_kid r' = job_kid r \<and> j_payload r' = j_payload r \<and>
     j_replay_of r' = j_replay_of r \<and> j_max_attempts r' = j_max_attempts r \<and> j_priority r' = j_priority r \<and>
     j_created_at r' = j_created_at r"

inductive row_step :: "job_op \<Rightarrow> job \<Rightarrow> job \<Rightarrow> bool" where
  claimed: "claimable q now r \<Longrightarrow> 1 \<le> fin_val l \<Longrightarrow>
    row_step (Claim q w l now tok lk) r (set_claimed w tok (now + fin_val l) now r)"
| beaten: "j_id r = i \<Longrightarrow> j_status r = JOB_RUNNING \<Longrightarrow> j_lease_token r = Some tok \<Longrightarrow>
    null_gt (j_lease_expires_at r) now \<Longrightarrow> 1 \<le> fin_val l \<Longrightarrow>
    row_step (Heartbeat i tok l now) r (r\<lparr>j_lease_expires_at := Some (now + fin_val l), j_updated_at := now,
      j_revision := j_revision r + 1\<rparr>)"
| finished: "j_id r = i \<Longrightarrow> j_status r = JOB_RUNNING \<Longrightarrow> j_lease_token r = Some tok \<Longrightarrow>
    st = finish_status r err rt \<Longrightarrow> used_token op = Some tok \<Longrightarrow>
    row_step op r (set_finished st body err dl now r)"
| cancelled: "j_status r = JOB_QUEUED \<or> j_status r = JOB_RETRY_WAIT \<Longrightarrow>
    row_step (RequestCancel i t now) r (r\<lparr>j_status := JOB_CANCELLED, j_cancel_requested := True,
      j_finished_at := Some now, j_updated_at := now, j_revision := j_revision r + 1\<rparr>)"
| flagged: "j_status r = JOB_RUNNING \<Longrightarrow>
    row_step (RequestCancel i t now) r (r\<lparr>j_cancel_requested := True, j_updated_at := now,
      j_revision := j_revision r + 1\<rparr>)"
| reaped: "overdue now r \<Longrightarrow> st = reap_status r \<Longrightarrow>
    row_step (ReapExpired n now) r (set_reaped now st r)"

lemmas row_updates = set_claimed_def set_finished_def set_reaped_def

inductive_cases claim_stepE: "row_step (Claim q w l now tok lk) r r'"

lemma not_terminal: "\<not> terminal j \<longleftrightarrow> j_status j \<in> {JOB_QUEUED, JOB_RUNNING, JOB_RETRY_WAIT}"
  by (cases "j_status j") (auto simp: JOB_TERMINAL_def)

lemma row_step_same: "row_step op r r' \<Longrightarrow> same_job r r'"
  by (induction rule: row_step.induct) (auto simp: same_job_def job_kid_def row_updates)

lemma row_step_live: "row_step op r r' \<Longrightarrow> \<not> terminal r"
  by (induction rule: row_step.induct) (auto simp: claimable_def overdue_def JOB_TERMINAL_def)

lemma row_step_ok: "row_step op r r' \<Longrightarrow> job_ok r \<Longrightarrow> job_ok r'"
proof (induction rule: row_step.induct)
  case (claimed q now r l w tok lk)
  then show ?case
    by (cases "j_status r"; simp add: job_ok_def set_claimed_def claimable_def JOB_TERMINAL_def)
next
  case (finished r i tok st err rt op body dl now)
  then show ?case by (simp add: job_ok_def finish_status_def set_finished_def JOB_TERMINAL_def)
next
  case (reaped now r st n)
  then show ?case by (simp add: job_ok_def reap_status_def set_reaped_def overdue_def JOB_TERMINAL_def)
next
  case (cancelled r i t now)
  then show ?case by (elim disjE) (simp_all add: job_ok_def JOB_TERMINAL_def)
qed (simp_all add: job_ok_def JOB_TERMINAL_def)

lemma row_step_token: "row_step op r r' \<Longrightarrow> j_lease_token r' = Some t \<Longrightarrow>
    issued_token op = Some t \<or> j_lease_token r = Some t"
  by (induction rule: row_step.induct) (auto simp: row_updates)

lemma row_step_attempt: "row_step op r r' \<Longrightarrow>
    j_attempt r' = j_attempt r + (if issued_token op = None then 0 else 1)"
  by (induction rule: row_step.induct) (auto simp: row_updates elim: used_token.elims)

text \<open>A live lease is not taken away: before it expires, only its holder changes the row's lease.\<close>

lemma row_step_live_lease:
  assumes "row_step op r r'" and "j_status r = JOB_RUNNING" and "j_lease_token r = Some t"
    and "j_lease_expires_at r = Some e" and "op_now op < e" and "used_token op \<noteq> Some t"
  shows "j_status r' = JOB_RUNNING \<and> j_lease_token r' = Some t \<and> j_lease_expires_at r' = Some e"
  using assms by (induction rule: row_step.induct) (auto simp: claimable_def overdue_def)


section \<open>Every operation rewrites, appends or prunes\<close>

definition rewrote :: "job_op \<Rightarrow> jobs_db \<Rightarrow> jobs_db \<Rightarrow> bool" where
  "rewrote op d d' \<longleftrightarrow> (\<exists>g. d' = d\<lparr>jobs := map g (jobs d)\<rparr> \<and>
     (\<forall>r \<in> set (jobs d). g r = r \<or> row_step op r (g r)))"

definition appended :: "codec \<Rightarrow> job_op \<Rightarrow> jobs_db \<Rightarrow> jobs_db \<Rightarrow> bool" where
  "appended c op d d' \<longleftrightarrow> (\<exists>j. new_id op = Some (j_id j) \<and> j_id j \<notin> j_id ` set (jobs d) \<and>
     (j_key j \<noteq> None \<longrightarrow> job_kid j \<notin> job_kid ` set (jobs d)) \<and> job_ok j \<and> j_attempt j = 0 \<and> jobs d' = jobs d @ [j] \<and>
     (job_keys d' = job_keys d \<and> (j_key j = None \<or> j_replay_of j \<noteq> None) \<or>
      (\<exists>k. job_keys d' = job_keys d @ [k] \<and> key_kid k \<notin> key_kid ` set (job_keys d) \<and> keyed_by c [k] j)))"

lemma rewrites_refl [simp]: "rewrote op d d"
  unfolding rewrote_def by (rule exI [of _ id]) simp

lemma rewrites_update:
  "(\<And>r. r \<in> set (jobs d) \<Longrightarrow> p r \<Longrightarrow> row_step op r (f r)) \<Longrightarrow>
   rewrote op d (d\<lparr>jobs := sql_update p f (jobs d)\<rparr>)"
  unfolding rewrote_def sql_update_def by (rule exI [of _ "\<lambda>r. if p r then f r else r"]) auto

lemma rows_by_id: "distinct (map j_id rows) \<Longrightarrow> r \<in> set rows \<Longrightarrow> s \<in> set rows \<Longrightarrow> j_id r = j_id s \<Longrightarrow> r = s"
  by (auto simp: distinct_map inj_on_def)

lemma find_jobD: "find_job i d = Some j \<Longrightarrow> j \<in> set (jobs d) \<and> j_id j = i"
  unfolding find_job_def by (drule sql_find_Some) auto

lemma find_scopedD: "find_scoped i t d = Some j \<Longrightarrow> j \<in> set (jobs d) \<and> j_id j = i"
  unfolding find_scoped_def by (drule sql_find_Some) auto

lemma set_claimed_id [simp]: "j_id (set_claimed w tok e now r) = j_id r"
  by (simp add: set_claimed_def)

lemma claim_key_le:
  "claim_key r \<le> claim_key s \<longleftrightarrow> j_priority s < j_priority r \<or> j_priority r = j_priority s \<and>
     (j_available_at r < j_available_at s \<or> j_available_at r = j_available_at s \<and>
     (j_created_at r < j_created_at s \<or> j_created_at r = j_created_at s \<and> j_id r \<le> j_id s))"
  by (auto simp: claim_key_def)

text \<open>Both dialects take the first claimable row that no other transaction has locked and update just it.\<close>

lemma claim_eq:
  assumes "distinct (map j_id (jobs d))" and "is_clean q 128" and "is_clean w 255" and "lease_ok l = Inr ()"
  shows "claim dia q w l now tok lk d =
    (case sql_first (\<lambda>j. claimable q now j \<and> (dia = Postgres \<longrightarrow> j_id j \<notin> set lk)) claim_key (jobs d) of
       None \<Rightarrow> Inr (None, d)
     | Some j \<Rightarrow> Inr (Some (set_claimed w tok (now + fin_val l) now j),
         d\<lparr>jobs := sql_update (\<lambda>r. r = j) (set_claimed w tok (now + fin_val l) now) (jobs d)\<rparr>))"
proof -
  define upd where "upd = set_claimed w tok (now + fin_val l) now"
  define pick where "pick = (\<lambda>j. claimable q now j \<and> (dia = Postgres \<longrightarrow> j_id j \<notin> set lk))"
  have upd_id: "j_id (upd r) = j_id r" for r by (simp add: upd_def)
  show ?thesis
  proof (cases "sql_first pick claim_key (jobs d)")
    case None
    with assms show ?thesis by (cases dia) (auto simp: claim_def clean_def Let_def pick_def)
  next
    case (Some j)
    then have j: "j \<in> set (jobs d)" "claimable q now j" by (auto dest: sql_first_Some simp: pick_def)
    define p :: "job \<Rightarrow> bool" where "p = (\<lambda>r. j_id r = j_id j \<and> \<not> j_cancel_requested r \<and> j_attempt r < j_max_attempts r \<and>
       ((j_status r = JOB_QUEUED \<or> j_status r = JOB_RETRY_WAIT) \<and> j_available_at r \<le> now \<or>
        j_status r = JOB_RUNNING \<and> null_le (j_lease_expires_at r) now))"
    have eq: "j_id r = j_id j \<longleftrightarrow> r = j" if "r \<in> set (jobs d)" for r
      using rows_by_id [OF assms(1) that j(1)] by auto
    have p: "p r \<longleftrightarrow> r = j" if "r \<in> set (jobs d)" for r
      using eq [OF that] j(2) by (auto simp: p_def claimable_def)
    note u = sql_update_one [OF assms(1) j(1) upd_id p]
    note v = sql_update_one(1) [OF assms(1) j(1) upd_id eq]
    show ?thesis
    proof (cases dia)
      case SQLite
      with Some assms(2-4) u show ?thesis
        unfolding pick_def [symmetric] upd_def [symmetric]
        by (simp add: claim_def clean_def Let_def pick_def find_job_def p_def [symmetric] upd_def [symmetric])
    next
      case Postgres
      with Some assms(2-4) u v show ?thesis
        unfolding pick_def [symmetric] upd_def [symmetric]
        by (simp add: claim_def clean_def Let_def pick_def find_job_def upd_def [symmetric])
    qed
  qed
qed

lemma claim_checks: "claim dia q w l now tok lk d = Inr x \<Longrightarrow>
    is_clean q 128 \<and> is_clean w 255 \<and> lease_ok l = Inr () \<and> 1 \<le> fin_val l"
  by (auto simp: claim_def lease_ok_def)

lemma claim_rewrites:
  assumes "distinct (map j_id (jobs d))" and "claim dia q w l now tok lk d = Inr (x, d')"
  shows "rewrote (Claim q w l now tok lk) d d'"
  using assms(2) claim_eq [OF assms(1), of q w l dia now tok lk] claim_checks [OF assms(2)]
  by (auto split: option.splits dest: sql_first_Some intro!: rewrites_update row_step.claimed)

lemma heartbeat_rewrites:
  "heartbeat i tok l now d = Inr (x, d') \<Longrightarrow> rewrote (Heartbeat i tok l now) d d'"
  by (auto simp: heartbeat_def Let_def lease_ok_def split: if_splits intro!: rewrites_update row_step.beaten)

lemma finish_rewrites:
  assumes "distinct (map j_id (jobs d))" and "finish c i tok v err rt dl now d = Inr (x, d')"
    and "used_token op = Some tok"
  shows "rewrote op d d'"
proof -
  from assms(2) obtain j where j: "find_job i d = Some j"
    by (auto simp: finish_def split: option.splits)
  have eq: "r = j" if "r \<in> set (jobs d)" "j_id r = i" for r
    using rows_by_id [OF assms(1)] find_jobD [OF j] that by auto
  from assms(2) j show ?thesis
    by (auto simp: finish_def Let_def split: if_splits option.splits
        intro!: rewrites_update row_step.finished [OF _ _ _ _ assms(3)] dest: eq)
qed

lemma cancel_rewrites:
  assumes "distinct (map j_id (jobs d))" and "request_cancel i t now d = Inr (x, d')"
  shows "rewrote (RequestCancel i t now) d d'"
proof (cases "find_scoped i t d")
  case None
  with assms show ?thesis by (auto simp: request_cancel_def)
next
  case (Some j)
  have eq: "r = j" if "r \<in> set (jobs d)" "j_id r = i" for r
    using rows_by_id [OF assms(1)] find_scopedD [OF Some] that by auto
  from assms(2) Some show ?thesis
    by (auto simp: request_cancel_def Let_def not_terminal split: if_splits
        intro!: rewrites_update row_step.cancelled row_step.flagged dest!: eq)
qed

abbreviation reap_row :: "real \<Rightarrow> job \<Rightarrow> job" where
  "reap_row now r \<equiv> set_reaped now (reap_status r) r"

lemma set_reaped_id [simp]: "j_id (set_reaped now st r) = j_id r"
  by (simp add: set_reaped_def)

lemma reap_one_eq:
  assumes "distinct (map j_id (jobs d))" and "row \<in> set (jobs d)" and "overdue now row"
  shows "reap_one now row d = d\<lparr>jobs := sql_update (\<lambda>r. r = row) (reap_row now) (jobs d)\<rparr>"
  using assms(2,3) rows_by_id [OF assms(1) _ assms(2)]
  by (auto simp: reap_one_def sql_update_def)

lemma reap_fold:
  assumes "distinct (map j_id (jobs d))" and "distinct (map j_id rows)" and "set rows \<subseteq> set (jobs d)"
    and "\<forall>r \<in> set rows. overdue now r"
  shows "fold (reap_one now) rows d = d\<lparr>jobs := sql_update (\<lambda>r. r \<in> set rows) (reap_row now) (jobs d)\<rparr>"
  using assms
proof (induction rows arbitrary: d)
  case Nil
  then show ?case by (simp add: sql_update_def)
next
  case (Cons row rows)
  define d1 where "d1 = d\<lparr>jobs := sql_update (\<lambda>r. r = row) (reap_row now) (jobs d)\<rparr>"
  have d1: "reap_one now row d = d1"
    unfolding d1_def using Cons.prems by (intro reap_one_eq) auto
  have ne: "reap_row now row \<notin> set rows" "row \<notin> set rows"
    using Cons.prems(2) set_reaped_id [of now "reap_status row" row] by (auto simp: image_iff)
  have ids: "distinct (map j_id (jobs d1))"
    using Cons.prems(1) by (simp add: d1_def map_sql_update)
  moreover have "set rows \<subseteq> set (jobs d1)"
    using Cons.prems(3) ne by (auto simp: d1_def sql_update_def image_iff)
  ultimately have "fold (reap_one now) rows d1 = d1\<lparr>jobs := sql_update (\<lambda>r. r \<in> set rows) (reap_row now) (jobs d1)\<rparr>"
    using Cons.IH Cons.prems by simp
  with d1 ne show ?case by (auto simp: d1_def sql_update_def)
qed

lemma reap_rewrites:
  assumes "distinct (map j_id (jobs d))" and "reap_expired n now d = Inr (x, d')"
  shows "rewrote (ReapExpired n now) d d'"
proof -
  define rows where "rows = sql_select (overdue now) (\<lambda>r. (the_default 0 (j_lease_expires_at r), j_id r)) (nat n) (jobs d)"
  have in_rows: "set rows \<subseteq> {r \<in> set (jobs d). overdue now r}"
    unfolding rows_def by (rule sql_select_set)
  from assms(2) have "d' = fold (reap_one now) rows d"
    by (auto simp: reap_expired_def rows_def Let_def)
  also have "\<dots> = d\<lparr>jobs := sql_update (\<lambda>r. r \<in> set rows) (reap_row now) (jobs d)\<rparr>"
    using in_rows assms(1) by (intro reap_fold) (auto simp: rows_def distinct_sql_select)
  finally show ?thesis
    using in_rows by (auto intro!: rewrites_update row_step.reaped)
qed

text \<open>Insertions.\<close>

lemma insert_job_cases:
  assumes "insert_job dia j rows = Inr (ins, rows')"
  shows "if ins then rows' = rows @ [j] \<and> j_id j \<notin> j_id ` set rows \<and> (j_key j \<noteq> None \<longrightarrow> job_kid j \<notin> job_kid ` set rows)
         else rows' = rows"
  using assms by (auto simp: insert_job_def split: if_splits dialect.splits)

lemma new_job_sel [simp]:
  "j_id (new_job i q t b pr rd m k rp now) = i" "j_queue (new_job i q t b pr rd m k rp now) = q"
  "j_tenant (new_job i q t b pr rd m k rp now) = t" "j_payload (new_job i q t b pr rd m k rp now) = b"
  "j_key (new_job i q t b pr rd m k rp now) = k" "j_replay_of (new_job i q t b pr rd m k rp now) = rp"
  "j_created_at (new_job i q t b pr rd m k rp now) = now" "j_attempt (new_job i q t b pr rd m k rp now) = 0"
  "j_status (new_job i q t b pr rd m k rp now) = JOB_QUEUED"
  by (simp_all add: new_job_def)

lemma new_job_ok: "1 \<le> m \<Longrightarrow> m \<le> 100 \<Longrightarrow> k \<noteq> Some [] \<Longrightarrow> rp \<noteq> None \<longrightarrow> (\<exists>x. k = Some (''replay:'' @ x)) \<Longrightarrow>
    job_ok (new_job i q t b pr rd m k rp now)"
  by (simp add: job_ok_def new_job_def JOB_TERMINAL_def)

lemma enqueue_insert_cases:
  assumes "enqueue_insert dia c j d = Inr (v, d')" and "job_ok j" and "j_attempt j = 0" and "new_id op = Some (j_id j)"
  shows "d' = d \<or> appended c op d d'"
proof -
  from assms(1) obtain ins rows where i: "insert_job dia j (jobs d) = Inr (ins, rows)"
    by (auto simp: enqueue_insert_def)
  note c = insert_job_cases [OF i]
  show ?thesis
  proof (cases ins)
    case False
    with assms(1) i show ?thesis by (auto simp: enqueue_insert_def split: option.splits if_splits)
  next
    case True
    with assms(1) i c have "jobs d' = jobs d @ [j]"
      by (auto simp: enqueue_insert_def insert_key_def split: option.splits if_splits)
    moreover from True assms(1) i have "job_keys d' = job_keys d \<and> j_key j = None \<or>
      (\<exists>k. job_keys d' = job_keys d @ [k] \<and> key_kid k \<notin> key_kid ` set (job_keys d) \<and> keyed_by c [k] j)"
      by (auto simp: enqueue_insert_def insert_key_def keyed_by_def job_kid_def key_kid_def split: option.splits if_splits)
    ultimately show ?thesis
      using True c assms(2-4) unfolding appended_def by auto
  qed
qed

lemma enqueue_ok:
  assumes "enqueue dia c q t p pr m av k now i d = Inr (v, d')"
  obtains body rd where "encode_json c ''job payload'' p = Inr body" "1 \<le> m" "m \<le> 100" "k \<noteq> Some []"
    "enqueue_insert dia c (new_job i q t body pr rd m k None now) d = Inr (v, d') \<and>
       (\<forall>key. k = Some key \<longrightarrow> enqueue_existing c q t body key d = Inr None) \<or>
     (\<exists>key. k = Some key \<and> enqueue_existing c q t body key d = Inr (Some v) \<and> d' = d)"
proof -
  have "k \<noteq> Some []" using assms by (auto simp: enqueue_def is_clean_def split: option.splits)
  with assms that show thesis
    by (cases k) (fastforce simp: enqueue_def Let_def split: option.splits)+
qed

lemma enqueue_cases:
  assumes "enqueue dia c q t p pr m av k now i d = Inr (v, d')"
  shows "d' = d \<or> appended c (Enqueue q t p pr m av k now i) d d'"
proof -
  from assms obtain body rd where b: "1 \<le> m" "m \<le> 100" "k \<noteq> Some []"
    "enqueue_insert dia c (new_job i q t body pr rd m k None now) d = Inr (v, d') \<or> d' = d"
    by (rule enqueue_ok) blast
  from b(4) show ?thesis
  proof
    assume "enqueue_insert dia c (new_job i q t body pr rd m k None now) d = Inr (v, d')"
    then show ?thesis by (rule enqueue_insert_cases) (simp_all add: new_job_ok b)
  qed simp
qed

lemma replay_cases:
  assumes "replay_dead_letter dia c i k t now new d = Inr (v, d')" and "\<forall>j \<in> set (jobs d). job_ok j"
  shows "d' = d \<or> appended c (ReplayDeadLetter i k t now new) d d'"
proof -
  from assms(1) obtain src body ins rows where src: "find_scoped i t d = Some src"
    and ins: "insert_job dia (new_job new (j_queue src) (j_tenant src) body (j_priority src) now
        (j_max_attempts src) (Some (replay_key_of i k)) (Some i) now) (jobs d) = Inr (ins, rows)"
    and d': "d' = d \<or> ins \<and> d' = d\<lparr>jobs := rows\<rparr>"
    by (auto simp: replay_dead_letter_def split: option.splits if_splits)
  have "job_ok src" using find_scopedD [OF src] assms(2) by blast
  then have "job_ok (new_job new (j_queue src) (j_tenant src) body (j_priority src) now
        (j_max_attempts src) (Some (replay_key_of i k)) (Some i) now)"
    by (intro new_job_ok) (auto simp: job_ok_def replay_key_of_def)
  with d' insert_job_cases [OF ins] show ?thesis by (auto simp: appended_def)
qed

text \<open>Pruning.\<close>

definition keys_kept :: "jobs_db \<Rightarrow> jobs_db \<Rightarrow> bool" where
  "keys_kept d d' \<longleftrightarrow> (\<forall>k \<in> set (job_keys d). \<exists>k' \<in> set (job_keys d').
     key_kid k' = key_kid k \<and> k_job_id k' = k_job_id k \<and> k_fingerprint k' = k_fingerprint k)"

lemma keys_kept_trans: "keys_kept d d' \<Longrightarrow> keys_kept d' d'' \<Longrightarrow> keys_kept d d''"
  unfolding keys_kept_def by metis

lemma keys_kept_same: "set (job_keys d) \<subseteq> set (job_keys d') \<Longrightarrow> keys_kept d d'"
  by (auto simp: keys_kept_def)

lemma keyed_by_kept: "keyed_by c (job_keys d) j \<Longrightarrow> keys_kept d d' \<Longrightarrow> keyed_by c (job_keys d') j"
  unfolding keyed_by_def keys_kept_def by metis

lemma key_kid_status [simp]: "key_kid (k\<lparr>k_terminal_status := s\<rparr>) = key_kid k"
  by (simp add: key_kid_def)

lemma keys_kept_update:
  assumes "set (job_keys d) \<subseteq> set ks"
  shows "keys_kept d (d\<lparr>job_keys := sql_update p (\<lambda>x. x\<lparr>k_terminal_status := s\<rparr>) ks\<rparr>)"
proof -
  have "\<exists>k' \<in> set (sql_update p (\<lambda>x. x\<lparr>k_terminal_status := s\<rparr>) ks).
      key_kid k' = key_kid k \<and> k_job_id k' = k_job_id k \<and> k_fingerprint k' = k_fingerprint k"
    if "k \<in> set ks" for k
    using that by (intro bexI [of _ "if p k then k\<lparr>k_terminal_status := s\<rparr> else k"]) (auto simp: sql_update_def)
  with assms show ?thesis by (auto simp: keys_kept_def)
qed

lemma keep_key_props:
  "jobs (keep_key c t row key d) = jobs d"
  "keys_kept d (keep_key c t row key d)"
  "distinct (map key_kid (job_keys d)) \<Longrightarrow> distinct (map key_kid (job_keys (keep_key c t row key d)))"
  by (auto simp: keep_key_def Let_def map_sql_update intro!: keys_kept_update)

definition pruned_by :: "codec \<Rightarrow> job list \<Rightarrow> real \<Rightarrow> jobs_db \<Rightarrow> jobs_db \<Rightarrow> bool" where
  "pruned_by c rows before d d' \<longleftrightarrow> keys_kept d d' \<and>
     (distinct (map key_kid (job_keys d)) \<longrightarrow> distinct (map key_kid (job_keys d'))) \<and>
     jobs d' = filter (\<lambda>r. \<not> (j_id r \<in> j_id ` set rows \<and> prunable before r)) (jobs d)"

lemma prune_one_pruned: "pruned_by c [row] before (snd acc) (snd (prune_one c clock before row acc))"
proof -
  define d where "d = (case j_key row of
      Some key \<Rightarrow> if key \<noteq> [] then keep_key c (clock (j_id row)) row key (snd acc) else snd acc
    | None \<Rightarrow> snd acc)"
  have "jobs d = jobs (snd acc)" "keys_kept (snd acc) d"
    "distinct (map key_kid (job_keys (snd acc))) \<Longrightarrow> distinct (map key_kid (job_keys d))"
    by (auto simp: d_def keep_key_props keys_kept_same split: option.splits)
  moreover have "snd (prune_one c clock before row acc) =
      d\<lparr>jobs := filter (\<lambda>r. \<not> (j_id r = j_id row \<and> prunable before r)) (jobs d)\<rparr>"
    by (simp add: prune_one_def d_def Let_def)
  ultimately show ?thesis by (simp add: pruned_by_def keys_kept_def)
qed

lemma prune_fold_pruned: "pruned_by c rows before (snd acc) (snd (fold (prune_one c clock before) rows acc))"
proof (induction rows arbitrary: acc)
  case Nil
  then show ?case by (simp add: pruned_by_def keys_kept_same)
next
  case (Cons row rows)
  note 1 = prune_one_pruned [of c row before acc clock]
  note 2 = Cons [of "prune_one c clock before row acc"]
  from 1 2 keys_kept_trans show ?case
    by (auto simp: pruned_by_def intro!: filter_cong)
qed

lemma prune_pruned:
  assumes "prune_terminal c before n clock d = Inr (x, d')"
  shows "\<exists>rows. set rows \<subseteq> {r \<in> set (jobs d). prunable (fin_val before) r} \<and> pruned_by c rows (fin_val before) d d'"
proof -
  define rows where "rows = sql_select (prunable (fin_val before)) (\<lambda>r. (the_default 0 (j_finished_at r), j_id r)) (nat n) (jobs d)"
  from assms have "d' = snd (fold (prune_one c clock (fin_val before)) rows (0, d))"
    by (auto simp: prune_terminal_def rows_def Let_def)
  with prune_fold_pruned [of c rows "fin_val before" "(0, d)" clock]
    sql_select_set [of "prunable (fin_val before)" "\<lambda>r. (the_default 0 (j_finished_at r), j_id r)" "nat n" "jobs d"]
  show ?thesis
    by (intro exI [of _ rows]) (simp add: rows_def)
qed

text \<open>One case distinction covers every operation.\<close>

lemma committed_rewrote: "(\<And>x d'. r = Inr (x, d') \<Longrightarrow> rewrote op d d') \<Longrightarrow> rewrote op d (committed r d)"
  by (auto simp: committed_def split: sum.splits)

lemma committed_appended:
  "committed r d \<noteq> d \<Longrightarrow> (\<And>x d'. r = Inr (x, d') \<Longrightarrow> d' = d \<or> appended c op d d') \<Longrightarrow> appended c op d (committed r d)"
  by (auto simp: committed_def split: sum.splits)

lemma job_exec_cases:
  assumes "jobs_inv c d"
  obtains (rewrote) "rewrote op d (job_exec dia c op d)"
  | (appended) "appended c op d (job_exec dia c op d)"
  | (pruned) rows before where "set rows \<subseteq> set (jobs d)" "pruned_by c rows before d (job_exec dia c op d)"
proof (cases "job_exec dia c op d = d")
  case True
  then show thesis using rewrote by simp
next
  case False
  have ids: "distinct (map j_id (jobs d))" and ok: "\<forall>j \<in> set (jobs d). job_ok j"
    using assms by (auto simp: jobs_inv_def)
  show thesis
  proof (cases op)
    case (Enqueue q t p pr m av k now i)
    with False show thesis by (intro appended) (auto intro!: committed_appended dest: enqueue_cases)
  next
    case (Claim q w l now tok lk)
    then show thesis using claim_rewrites [OF ids] by (intro rewrote) (auto intro!: committed_rewrote)
  next
    case (Heartbeat i tok l now)
    then show thesis using heartbeat_rewrites by (intro rewrote) (auto intro!: committed_rewrote)
  next
    case (Complete i tok v now)
    then show thesis using finish_rewrites [OF ids, of c i tok v None False 0 now _ _ op]
      by (intro rewrote) (auto simp: complete_def intro!: committed_rewrote)
  next
    case (Fail i tok e rt dl now)
    then show thesis using finish_rewrites [OF ids, of c i tok JNull "Some e" rt "fin_val dl" now _ _ op]
      by (intro rewrote) (auto simp: fail_def intro!: committed_rewrote)
  next
    case (RequestCancel i t now)
    then show thesis using cancel_rewrites [OF ids] by (intro rewrote) (auto intro!: committed_rewrote)
  next
    case (ReplayDeadLetter i k t now new)
    with False show thesis by (intro appended) (auto intro!: committed_appended dest: replay_cases [OF _ ok])
  next
    case (ReapExpired n now)
    then show thesis using reap_rewrites [OF ids] by (intro rewrote) (auto intro!: committed_rewrote)
  next
    case (PruneTerminal b n cl)
    with False obtain x d' where "prune_terminal c b n cl d = Inr (x, d')" "job_exec dia c op d = d'"
      by (auto simp: committed_def split: sum.splits prod.splits)
    with prune_pruned show thesis using pruned by blast
  qed
qed

section \<open>The invariant is kept\<close>

lemma jobs_invD:
  assumes "jobs_inv c d"
  shows "distinct (map j_id (jobs d))" and "distinct (map key_kid (job_keys d))"
    and "a \<in> set (jobs d) \<Longrightarrow> b \<in> set (jobs d) \<Longrightarrow> j_key a \<noteq> None \<Longrightarrow> job_kid a = job_kid b \<Longrightarrow> a = b"
    and "a \<in> set (jobs d) \<Longrightarrow> job_ok a"
    and "a \<in> set (jobs d) \<Longrightarrow> j_key a \<noteq> None \<Longrightarrow> j_replay_of a = None \<Longrightarrow> keyed_by c (job_keys d) a"
  using assms unfolding jobs_inv_def by blast+

lemma rewrote_row:
  assumes "rewrote op d d'"
  shows "r \<in> set (jobs d) \<Longrightarrow> \<exists>r' \<in> set (jobs d'). j_id r' = j_id r \<and> (r' = r \<or> row_step op r r')"
    and "r' \<in> set (jobs d') \<Longrightarrow> \<exists>r \<in> set (jobs d). r' = r \<or> row_step op r r'"
proof -
  from assms obtain g where "d' = d\<lparr>jobs := map g (jobs d)\<rparr>"
    and g: "\<And>r. r \<in> set (jobs d) \<Longrightarrow> g r = r \<or> row_step op r (g r)" unfolding rewrote_def by blast
  then have d': "jobs d' = map g (jobs d)" by simp
  show "\<exists>r' \<in> set (jobs d'). j_id r' = j_id r \<and> (r' = r \<or> row_step op r r')" if "r \<in> set (jobs d)"
    using g [OF that] that row_step_same [of op r "g r"] by (intro bexI [of _ "g r"]) (auto simp: d' same_job_def)
  show "\<exists>r \<in> set (jobs d). r' = r \<or> row_step op r r'" if "r' \<in> set (jobs d')"
    using that g d' by auto
qed

lemma jobs_inv_rewrote: 
  assumes "jobs_inv c d" and "rewrote op d d'"
  shows "jobs_inv c d'"
proof -
  from assms(2) obtain g where d': "d' = d\<lparr>jobs := map g (jobs d)\<rparr>"
    and g: "\<And>r. r \<in> set (jobs d) \<Longrightarrow> g r = r \<or> row_step op r (g r)" unfolding rewrote_def by blast
  note inv = jobs_invD [OF assms(1)]
  have same: "same_job r (g r)" "job_ok (g r)" if "r \<in> set (jobs d)" for r
    using g [OF that] inv(4) [OF that] row_step_same row_step_ok by (auto simp: same_job_def)
  have ids: "map j_id (jobs d') = map j_id (jobs d)" using same by (auto simp: d' same_job_def)
  have key: "j_key (g r) = j_key r" "job_kid (g r) = job_kid r" "j_replay_of (g r) = j_replay_of r"
    "keyed_by c ks (g r) = keyed_by c ks r" if "r \<in> set (jobs d)" for r ks
    using same(1) [OF that] by (auto simp: same_job_def job_kid_def keyed_by_def)
  have "a = b" if "a \<in> set (jobs d')" "b \<in> set (jobs d')" "j_key a \<noteq> None" "job_kid a = job_kid b" for a b
  proof -
    from that(1,2) obtain x y where xy: "x \<in> set (jobs d)" "a = g x" "y \<in> set (jobs d)" "b = g y" by (auto simp: d')
    with inv(3) [of x y] that(3,4) key [of x] key [of y] show ?thesis by simp
  qed
  moreover have "job_ok j \<and> (j_key j \<noteq> None \<and> j_replay_of j = None \<longrightarrow> keyed_by c (job_keys d') j)"
    if "j \<in> set (jobs d')" for j
    using that key inv(5) same(2) by (auto simp: d')
  moreover have "distinct (map j_id (jobs d'))" unfolding ids by (rule inv(1))
  moreover have "distinct (map key_kid (job_keys d'))" using inv(2) by (simp add: d')
  ultimately show ?thesis unfolding jobs_inv_def by blast
qed

lemma jobs_inv_appended: 
  assumes "jobs_inv c d" and "appended c op d d'"
  shows "jobs_inv c d'"
proof -
  from assms(2) obtain j where j: "j_id j \<notin> j_id ` set (jobs d)"
    "j_key j \<noteq> None \<longrightarrow> job_kid j \<notin> job_kid ` set (jobs d)" "job_ok j" and js: "jobs d' = jobs d @ [j]"
    and ks: "job_keys d' = job_keys d \<and> (j_key j = None \<or> j_replay_of j \<noteq> None) \<or>
      (\<exists>k. job_keys d' = job_keys d @ [k] \<and> key_kid k \<notin> key_kid ` set (job_keys d) \<and> keyed_by c [k] j)"
    unfolding appended_def by blast
  note inv = jobs_invD [OF assms(1)]
  have keys: "distinct (map key_kid (job_keys d'))" "set (job_keys d) \<subseteq> set (job_keys d')"
    "j_key j \<noteq> None \<and> j_replay_of j = None \<longrightarrow> keyed_by c (job_keys d') j"
    using ks inv(2) by (auto simp: keyed_by_def)
  have old: "keyed_by c (job_keys d') r" if "keyed_by c (job_keys d) r" for r
    using keyed_by_kept [OF that keys_kept_same [OF keys(2)]] .
  have kid: "a = b" if ab: "a \<in> set (jobs d')" "b \<in> set (jobs d')" "j_key a \<noteq> None" "job_kid a = job_kid b" for a b
  proof -
    have kb: "j_key b = j_key a" using ab(4) by (simp add: job_kid_def)
    consider "a \<in> set (jobs d)" "b \<in> set (jobs d)" | "a = j" "b = j" | "a = j" "b \<in> set (jobs d)" | "a \<in> set (jobs d)" "b = j"
      using ab(1,2) js by auto
    then show ?thesis
    proof cases
      case 1
      then show ?thesis using inv(3) ab(3,4) by blast
    next
      case 3
      then have "job_kid j \<in> job_kid ` set (jobs d)" using ab(4) by simp
      with j(2) ab(3) 3 show ?thesis by simp
    next
      case 4
      then have "job_kid j \<in> job_kid ` set (jobs d)" using ab(4) by (metis image_eqI)
      with j(2) ab(3) kb 4 show ?thesis by simp
    qed simp
  qed
  have "distinct (map j_id (jobs d'))" using inv(1) j(1) js by simp
  moreover have "job_ok r \<and> (j_key r \<noteq> None \<and> j_replay_of r = None \<longrightarrow> keyed_by c (job_keys d') r)"
    if "r \<in> set (jobs d')" for r
    using that js inv(4,5) j(3) keys(3) old by auto
  ultimately show ?thesis using keys(1) kid unfolding jobs_inv_def by blast
qed

lemma jobs_inv_pruned: 
  assumes "jobs_inv c d" and "pruned_by c rows before d d'"
  shows "jobs_inv c d'"
proof -
  note inv = jobs_invD [OF assms(1)]
  from assms(2) have k: "keys_kept d d'" "distinct (map key_kid (job_keys d'))" and sub: "set (jobs d') \<subseteq> set (jobs d)"
    "distinct (map j_id (jobs d'))"
    using inv(1,2) by (auto simp: pruned_by_def distinct_map_filter)
  have "job_ok r \<and> (j_key r \<noteq> None \<and> j_replay_of r = None \<longrightarrow> keyed_by c (job_keys d') r)"
    if "r \<in> set (jobs d')" for r
    using that sub(1) inv(4,5) keyed_by_kept [OF _ k(1)] by auto
  moreover have "a = b" if "a \<in> set (jobs d')" "b \<in> set (jobs d')" "j_key a \<noteq> None" "job_kid a = job_kid b" for a b
    using that sub(1) inv(3) [of a b] by auto
  ultimately show ?thesis using sub(2) k(2) unfolding jobs_inv_def by blast
qed

lemma jobs_inv_exec:
  assumes "jobs_inv c d"
  shows "jobs_inv c (job_exec dia c op d)"
  using assms
proof (cases rule: job_exec_cases [of c d op dia])
  case rewrote
  with assms show ?thesis by (rule jobs_inv_rewrote)
next
  case appended
  with assms show ?thesis by (rule jobs_inv_appended)
next
  case pruned
  with assms show ?thesis by (blast intro: jobs_inv_pruned)
qed

lemma jobs_inv_run: "jobs_inv c d \<Longrightarrow> jobs_inv c (job_run dia c ops d)"
  by (induction ops arbitrary: d) (simp_all add: jobs_inv_exec)

lemma jobs_inv_empty: "jobs_inv c empty_jobs"
  by (simp add: jobs_inv_def empty_jobs_def)

lemma keys_kept_exec: 
  assumes "jobs_inv c d"
  shows "keys_kept d (job_exec dia c op d)"
  using assms
proof (cases rule: job_exec_cases [of c d op dia])
  case appended
  then show ?thesis by (intro keys_kept_same) (auto simp: appended_def)
qed (auto simp: rewrote_def pruned_by_def intro: keys_kept_same)

lemma keys_kept_run: "jobs_inv c d \<Longrightarrow> keys_kept d (job_run dia c ops d)"
proof (induction ops arbitrary: d)
  case (Cons op ops)
  have "keys_kept d (job_exec dia c op d)" using Cons.prems by (rule keys_kept_exec)
  moreover have "keys_kept (job_exec dia c op d) (job_run dia c ops (job_exec dia c op d))"
    using Cons jobs_inv_exec by simp
  ultimately show ?case using keys_kept_trans by simp
qed (simp add: keys_kept_same)

text \<open>Where a row of the next state comes from, and what becomes of a row.\<close>

lemma row_origin:
  assumes "jobs_inv c d" and "r' \<in> set (jobs (job_exec dia c op d))"
  shows "(\<exists>r \<in> set (jobs d). r' = r \<or> row_step op r r') \<or>
    new_id op = Some (j_id r') \<and> j_id r' \<notin> j_id ` set (jobs d) \<and> j_attempt r' = 0 \<and> j_lease_token r' = None"
  using assms(1)
proof (cases rule: job_exec_cases [of c d op dia])
  case rewrote
  then show ?thesis using rewrote_row(2) [OF rewrote assms(2)] by blast
next
  case appended
  then obtain j where "new_id op = Some (j_id j)" "j_id j \<notin> j_id ` set (jobs d)" "job_ok j" "j_attempt j = 0"
    "jobs (job_exec dia c op d) = jobs d @ [j]" by (auto simp: appended_def)
  with assms(2) show ?thesis by (auto simp: job_ok_def)
next
  case pruned
  then show ?thesis using assms(2) by (auto simp: pruned_by_def)
qed

lemma row_next:
  assumes "jobs_inv c d" and "r \<in> set (jobs d)" and "r' \<in> set (jobs (job_exec dia c op d))" and "j_id r' = j_id r"
  shows "r' = r \<or> row_step op r r'"
proof -
  from row_origin [OF assms(1,3)] obtain s where s: "s \<in> set (jobs d)" "r' = s \<or> row_step op s r'"
    using assms(2,4) by (auto simp: image_iff)
  then have "j_id s = j_id r" using assms(4) row_step_same by (auto simp: same_job_def)
  with rows_by_id [OF jobs_invD(1) [OF assms(1)] s(1) assms(2)] have "s = r" by blast
  with s show ?thesis by simp
qed

lemma row_kept:
  assumes "jobs_inv c d" and "r \<in> set (jobs d)" and "\<not> terminal r"
  shows "\<exists>r' \<in> set (jobs (job_exec dia c op d)). j_id r' = j_id r"
  using assms(1)
proof (cases rule: job_exec_cases [of c d op dia])
  case rewrote
  then show ?thesis using rewrote_row(1) [OF rewrote assms(2)] by blast
next
  case appended
  then show ?thesis using assms(2) by (auto simp: appended_def)
next
  case pruned
  then show ?thesis using assms by (auto simp: pruned_by_def prunable_def)
qed

end
