(* ===== verification/HA_Job_Props.thy ===== *)
theory HA_Job_Props
  imports HA_Job_Machine
begin

text \<open>
  What the job queue promises: the invariant of every reachable state, lease fencing in both
  directions, finality of terminal statuses, the bound on the number of claims, idempotent
  submission across any later operations, and the choice a claim makes.
\<close>

section \<open>Leases\<close>

text \<open>The calls a worker makes under its lease token.\<close>

datatype job_commit = CommitComplete json real | CommitFail string bool pyfloat real | CommitBeat pyfloat real

fun job_commit_exec :: "codec \<Rightarrow> job_commit \<Rightarrow> string \<Rightarrow> string \<Rightarrow> jobs_db \<Rightarrow> (job option \<times> jobs_db) res" where
  "job_commit_exec c (CommitComplete v now) i tok d = complete c i tok v now d"
| "job_commit_exec c (CommitFail e rt dl now) i tok d = fail c i tok e rt dl now d"
| "job_commit_exec c (CommitBeat l now) i tok d = heartbeat i tok l now d"

definition holds_lease :: "string \<Rightarrow> string \<Rightarrow> jobs_db \<Rightarrow> bool" where
  "holds_lease i tok d \<longleftrightarrow> (\<exists>r \<in> set (jobs d). j_id r = i \<and> j_lease_token r = Some tok)"

lemma finish_holds: "finish c i tok v e rt dl now d = Inr x \<Longrightarrow> holds_lease i tok d"
  by (cases "find_job i d") (auto simp: finish_def holds_lease_def dest: find_jobD split: if_splits)

lemma heartbeat_holds:
  assumes "heartbeat i tok l now d = Inr x"
  shows "holds_lease i tok d"
proof -
  define p :: "job \<Rightarrow> bool" where "p = (\<lambda>r. j_id r = i \<and> j_status r = JOB_RUNNING \<and> j_lease_token r = Some tok \<and>
    null_gt (j_lease_expires_at r) now \<and> \<not> j_cancel_requested r)"
  from assms have "sql_count p (jobs d) = 1"
    by (auto simp: heartbeat_def Let_def p_def split: if_splits)
  then have "filter p (jobs d) \<noteq> []" by (auto simp: sql_count_def)
  then show ?thesis by (auto simp: filter_empty_conv holds_lease_def p_def)
qed

lemma commit_holds: "job_commit_exec c k i tok d = Inr x \<Longrightarrow> holds_lease i tok d"
  by (cases k) (auto simp: complete_def fail_def intro: finish_holds heartbeat_holds)

lemma exec_token:
  assumes "jobs_inv c d" and "r' \<in> set (jobs (job_exec dia c op d))" and "j_lease_token r' = Some t"
  shows "issued_token op = Some t \<or> (\<exists>r \<in> set (jobs d). j_id r = j_id r' \<and> j_lease_token r = Some t)"
  using row_origin [OF assms(1,2)] assms(3) row_step_token row_step_same
  by (fastforce simp: same_job_def)

interpretation job_leases: lease_store "jobs_inv c" jobs j_id j_lease_token "job_exec dia c" issued_token
    "job_commit_exec c" for dia c
  using commit_holds by unfold_locales (auto simp: holds_lease_def jobs_inv_exec dest: exec_token)

lemma job_run_eq: "job_leases.run dia c ops d = job_run dia c ops d"
  by (simp add: job_leases.run_def job_run_def)

text \<open>A live lease survives every operation that does not act under its token.\<close>

definition live_lease :: "string \<Rightarrow> string \<Rightarrow> real \<Rightarrow> jobs_db \<Rightarrow> bool" where
  "live_lease i tok e d \<longleftrightarrow> (\<exists>r \<in> set (jobs d). j_id r = i \<and> j_status r = JOB_RUNNING \<and>
     j_lease_token r = Some tok \<and> j_lease_expires_at r = Some e)"

lemma live_lease_exec:
  assumes "jobs_inv c d" and "live_lease i tok e d" and "op_now op < e" and "used_token op \<noteq> Some tok"
  shows "live_lease i tok e (job_exec dia c op d)"
proof -
  from assms(2) obtain r where r: "r \<in> set (jobs d)" "j_id r = i" "j_status r = JOB_RUNNING"
    "j_lease_token r = Some tok" "j_lease_expires_at r = Some e" by (auto simp: live_lease_def)
  from row_kept [OF assms(1) r(1), of dia op] r(3) obtain r' where r': "r' \<in> set (jobs (job_exec dia c op d))" "j_id r' = i"
    by (auto simp: JOB_TERMINAL_def r(2))
  from row_next [OF assms(1) r(1) r'(1)] r r' row_step_live_lease [OF _ r(3-5) assms(3,4)] show ?thesis
    by (auto simp: live_lease_def)
qed

lemma live_lease_run:
  "jobs_inv c d \<Longrightarrow> live_lease i tok e d \<Longrightarrow> \<forall>op \<in> set ops. op_now op < e \<and> used_token op \<noteq> Some tok \<Longrightarrow>
   live_lease i tok e (job_run dia c ops d)"
  by (induction ops arbitrary: d) (auto intro: live_lease_exec jobs_inv_exec)

lemma complete_live:
  assumes "jobs_inv c d" and "live_lease i tok e d" and "now < e" and "is_clean i 255" and "is_clean tok 512"
    and "v = JNull \<or> is_ok (encode_json c ''job payload'' v)"
  shows "\<exists>x. complete c i tok v now d = Inr x"
proof -
  from assms(2) obtain r where r: "r \<in> set (jobs d)" "j_id r = i" "j_status r = JOB_RUNNING"
    "j_lease_token r = Some tok" "j_lease_expires_at r = Some e" by (auto simp: live_lease_def)
  then have "find_job i d = Some r"
    using sql_find_unique [OF jobs_invD(1) [OF assms(1)] r(1)] by (simp add: find_job_def)
  moreover from assms(6) obtain body where
    "(if v = JNull then Inr None else bindR (encode_json c ''job payload'' v) (\<lambda>b. Inr (Some b))) = Inr body"
    by (cases "v = JNull"; cases "encode_json c ''job payload'' v") auto
  ultimately show ?thesis
    using r assms(3-5) by (simp add: complete_def finish_def clean_def Let_def)
qed

section \<open>Claims\<close>

fun claimed_id :: "dialect \<Rightarrow> job_op \<Rightarrow> jobs_db \<Rightarrow> string option" where
  "claimed_id dia (Claim q w l now tok lk) d =
     (case claim dia q w l now tok lk d of Inr (Some j, _) \<Rightarrow> Some (j_id j) | _ \<Rightarrow> None)"
| "claimed_id dia _ d = None"

text \<open>How often job \<open>i\<close> is handed to a worker during a run.\<close>

fun claims_of :: "dialect \<Rightarrow> codec \<Rightarrow> string \<Rightarrow> job_op list \<Rightarrow> jobs_db \<Rightarrow> nat" where
  "claims_of dia c i [] d = 0"
| "claims_of dia c i (op # ops) d =
     (if claimed_id dia op d = Some i then 1 else 0) + claims_of dia c i ops (job_exec dia c op d)"

lemma claim_result:
  assumes "distinct (map j_id (jobs d))" and "claim dia q w l now tok lk d = Inr (Some j, d')"
  shows "\<exists>r \<in> set (jobs d). claimable q now r \<and> j = set_claimed w tok (now + fin_val l) now r \<and> j \<in> set (jobs d')"
  using assms(2) claim_eq [OF assms(1), of q w l dia now tok lk] claim_checks [OF assms(2)]
  by (auto split: option.splits dest!: sql_first_Some simp: sql_update_def)

lemma claimed_step:
  assumes "jobs_inv c d" and "claimed_id dia op d = Some i"
  shows "\<exists>r \<in> set (jobs d). j_id r = i \<and>
    (\<exists>r' \<in> set (jobs (job_exec dia c op d)). j_id r' = i \<and> j_attempt r' = j_attempt r + 1 \<and> j_max_attempts r' = j_max_attempts r)"
proof -
  from assms(2) obtain q w l now tok lk j d' where op: "op = Claim q w l now tok lk"
    and cl: "claim dia q w l now tok lk d = Inr (Some j, d')" and j: "j_id j = i"
    by (cases op) (auto split: sum.splits option.splits prod.splits)
  from claim_result [OF jobs_invD(1) [OF assms(1)] cl] obtain r where r: "r \<in> set (jobs d)"
    "j = set_claimed w tok (now + fin_val l) now r" "j \<in> set (jobs d')" by blast
  have "job_exec dia c op d = d'" by (simp add: op cl)
  with r j show ?thesis by (intro bexI [of _ r] conjI bexI [of _ j]) (auto simp: set_claimed_def)
qed

lemma no_row_no_claims:
  assumes "jobs_inv c d" and "i \<notin> j_id ` set (jobs d)" and "\<forall>op \<in> set ops. new_id op \<noteq> Some i"
  shows "claims_of dia c i ops d = 0"
  using assms
proof (induction ops arbitrary: d)
  case (Cons op ops)
  have "i \<notin> j_id ` set (jobs (job_exec dia c op d))"
  proof
    assume "i \<in> j_id ` set (jobs (job_exec dia c op d))"
    then obtain r' where "r' \<in> set (jobs (job_exec dia c op d))" "j_id r' = i" by auto
    with row_origin [OF Cons.prems(1) this(1)] Cons.prems(2,3) row_step_same show False
      by (fastforce simp: same_job_def)
  qed
  with Cons jobs_inv_exec claimed_step [OF Cons.prems(1), of dia op i] show ?case by auto
qed simp

lemma claims_bound:
  assumes "jobs_inv c d" and "r \<in> set (jobs d)" and "j_id r = i" and "\<forall>op \<in> set ops. new_id op \<noteq> Some i"
  shows "j_attempt r + int (claims_of dia c i ops d) \<le> j_max_attempts r"
  using assms
proof (induction ops arbitrary: d r)
  case Nil
  then show ?case using jobs_invD(4) by (fastforce simp: job_ok_def)
next
  case (Cons op ops)
  let ?d = "job_exec dia c op d"
  note inv = jobs_inv_exec [OF Cons.prems(1), of dia op]
  show ?case
  proof (cases "\<exists>r' \<in> set (jobs ?d). j_id r' = i")
    case False
    then have "claims_of dia c i ops ?d = 0" using inv Cons.prems(4) by (intro no_row_no_claims) auto
    moreover have "claimed_id dia op d \<noteq> Some i" using False claimed_step [OF Cons.prems(1)] by blast
    ultimately show ?thesis using jobs_invD(4) [OF Cons.prems(1,2)] by (simp add: job_ok_def)
  next
    case True
    then obtain r' where r': "r' \<in> set (jobs ?d)" "j_id r' = i" by blast
    have IH: "j_attempt r' + int (claims_of dia c i ops ?d) \<le> j_max_attempts r'"
      using Cons.IH [OF inv r'] Cons.prems(4) by simp
    have step: "r' = r \<or> row_step op r r'" using row_next [OF Cons.prems(1,2) r'(1)] r'(2) Cons.prems(3) by simp
    have max: "j_max_attempts r' = j_max_attempts r" using step row_step_same by (auto simp: same_job_def)
    have "j_attempt r + (if claimed_id dia op d = Some i then 1 else 0) \<le> j_attempt r'"
    proof (cases "claimed_id dia op d = Some i")
      case True
      from claimed_step [OF Cons.prems(1) True] obtain s s' where "s \<in> set (jobs d)" "j_id s = i"
        "s' \<in> set (jobs ?d)" "j_id s' = i" "j_attempt s' = j_attempt s + 1" by blast
      moreover from this have "s = r" "s' = r'"
        using rows_by_id [OF jobs_invD(1) [OF Cons.prems(1)]] rows_by_id [OF jobs_invD(1) [OF inv]] Cons.prems(2,3) r' by auto
      ultimately show ?thesis using True by simp
    next
      case False
      then show ?thesis using step row_step_attempt by auto
    qed
    with IH max show ?thesis by (cases "claimed_id dia op d = Some i") simp_all
  qed
qed

section \<open>Idempotency keys\<close>

definition key_bound :: "string \<Rightarrow> string \<Rightarrow> string \<Rightarrow> string \<Rightarrow> string \<Rightarrow> jobs_db \<Rightarrow> bool" where
  "key_bound q t k i fp d \<longleftrightarrow> (\<exists>kr \<in> set (job_keys d).
     key_kid kr = (q, t, Some k) \<and> k_job_id kr = i \<and> k_fingerprint kr = fp)"

lemma find_key_bound:
  assumes "jobs_inv c d" and "key_bound q t k i fp d"
  shows "\<exists>kr. find_key q t k d = Some kr \<and> k_job_id kr = i \<and> k_fingerprint kr = fp"
proof -
  from assms(2) obtain kr where kr: "kr \<in> set (job_keys d)" "key_kid kr = (q, t, Some k)" "k_job_id kr = i" "k_fingerprint kr = fp"
    by (auto simp: key_bound_def)
  from sql_find_unique [OF jobs_invD(2) [OF assms(1)] kr(1)] kr show ?thesis by (simp add: find_key_def)
qed

lemma key_bound_run: "jobs_inv c d \<Longrightarrow> key_bound q t k i fp d \<Longrightarrow> key_bound q t k i fp (job_run dia c ops d)"
  using keys_kept_run [of c d dia ops] unfolding key_bound_def keys_kept_def by metis

lemma enqueue_insert_binds:
  assumes "enqueue_insert dia c j d = Inr (v, d')" and "j_key j = Some k"
    and "sql_find (by_kid (j_queue j) (j_tenant j) k) (jobs d) = None"
  shows "key_bound (j_queue j) (j_tenant j) k (view_id v) (sha256 c (json_body c (j_payload j))) d'"
proof -
  from assms(1) obtain ins rows where i: "insert_job dia j (jobs d) = Inr (ins, rows)" by (auto simp: enqueue_insert_def)
  note c = insert_job_cases [OF i]
  have ins: ins
  proof (rule ccontr)
    assume "\<not> ins"
    with assms c i show False by (auto simp: enqueue_insert_def)
  qed
  have "sql_find (\<lambda>x. j_id x = j_id j) (jobs d) = None" using c ins by (auto simp: sql_find_None image_iff)
  with c ins have "sql_find (\<lambda>x. j_id x = j_id j) rows = Some j" by (simp add: sql_find_append)
  with assms i ins c show ?thesis
    by (auto simp: enqueue_insert_def insert_key_def find_job_def key_bound_def key_kid_def split: if_splits option.splits)
qed

lemma existing_binds:
  assumes "jobs_inv c d" and "enqueue_existing c q t b k d = Inr (Some v)"
    and "view_replay_of v = None \<or> (\<forall>x. k \<noteq> ''replay:'' @ x)"
  shows "key_bound q t k (view_id v) (sha256 c (json_body c b)) d"
proof (cases "find_key q t k d")
  case None
  with assms(2) obtain j where j: "sql_find (by_kid q t k) (jobs d) = Some j" "v = JobRow j"
    by (auto simp: enqueue_existing_def split: option.splits if_splits)
  then have in_j: "j \<in> set (jobs d)" "job_kid j = (q, t, Some k)" by (auto simp: by_kid_def dest: sql_find_Some)
  have "j_replay_of j = None"
  proof (rule ccontr)
    assume rp: "j_replay_of j \<noteq> None"
    then obtain x where "j_key j = Some (''replay:'' @ x)"
      using jobs_invD(4) [OF assms(1) in_j(1)] unfolding job_ok_def by blast
    with in_j(2) have "k = ''replay:'' @ x" by (simp add: job_kid_def)
    with assms(3) j(2) rp show False by simp
  qed
  with in_j have "keyed_by c (job_keys d) j"
    using jobs_invD(5) [OF assms(1), of j] by (auto simp: job_kid_def)
  with in_j have "keyed_by c (job_keys d) j" "job_kid j = (q, t, Some k)" by simp_all
  with None show ?thesis by (auto simp: keyed_by_def find_key_def sql_find_None)
next
  case (Some kr)
  then have "kr \<in> set (job_keys d)" "key_kid kr = (q, t, Some k)" by (auto simp: find_key_def dest: sql_find_Some)
  with Some assms(2) show ?thesis
    by (auto simp: enqueue_existing_def key_bound_def split: option.splits if_splits dest!: find_jobD)
qed

lemma enqueue_binds:
  assumes "jobs_inv c d" and "enqueue dia c q t p pr m av (Some k) now i d = Inr (v, d')"
    and "view_replay_of v = None \<or> (\<forall>x. k \<noteq> ''replay:'' @ x)"
  shows "\<exists>b. encode_json c ''job payload'' p = Inr b \<and> key_bound q t k (view_id v) (sha256 c (json_body c b)) d'"
  using assms(2)
proof (rule enqueue_ok)
  fix body rd
  assume e: "encode_json c ''job payload'' p = Inr body"
    and "enqueue_insert dia c (new_job i q t body pr rd m (Some k) None now) d = Inr (v, d') \<and>
       (\<forall>key. Some k = Some key \<longrightarrow> enqueue_existing c q t body key d = Inr None) \<or>
     (\<exists>key. Some k = Some key \<and> enqueue_existing c q t body key d = Inr (Some v) \<and> d' = d)"
  then consider (new) "enqueue_insert dia c (new_job i q t body pr rd m (Some k) None now) d = Inr (v, d')"
      "enqueue_existing c q t body k d = Inr None"
    | (old) "enqueue_existing c q t body k d = Inr (Some v)" "d' = d" by blast
  then show ?thesis
  proof cases
    case new
    then have "sql_find (by_kid q t k) (jobs d) = None"
      by (auto simp: enqueue_existing_def split: option.splits if_splits)
    with enqueue_insert_binds [OF new(1)] e show ?thesis by auto
  next
    case old
    with existing_binds [OF assms(1) old(1) assms(3)] e show ?thesis by auto
  qed
qed

lemma enqueue_bound:
  assumes "jobs_inv c d" and "key_bound q t k i fp d" and "is_clean q 128" and "is_clean t 255"
    and "encode_json c ''job payload'' p = Inr b" and "-1000 \<le> pr" and "pr \<le> 1000" and "1 \<le> m" and "m \<le> 100"
    and "is_clean k 512" and "0 \<le> now"
  shows "if sha256 c (json_body c b) = fp
    then \<exists>v. enqueue dia c q t p pr m None (Some k) now new d = Inr (v, d) \<and> view_id v = i
    else enqueue dia c q t p pr m None (Some k) now new d = Inl (JobConflict conflict_msg)"
proof -
  from find_key_bound [OF assms(1,2)] obtain kr where kr: "find_key q t k d = Some kr" "k_job_id kr = i" "k_fingerprint kr = fp"
    by blast
  have "enqueue dia c q t p pr m None (Some k) now new d =
    bindR (enqueue_existing c q t b k d) (\<lambda>found. case found of Some v \<Rightarrow> Inr (v, d)
      | None \<Rightarrow> enqueue_insert dia c (new_job new q t b pr now m (Some k) None now) d)"
    using assms(3-11) by (simp add: enqueue_def clean_def clean_opt_def)
  with kr show ?thesis
    by (auto simp: enqueue_existing_def split: option.splits dest!: find_jobD)
qed

section \<open>An example run\<close>

text \<open>A job is submitted under a key at time 10 and claimed at time 11 for 60 seconds.\<close>

definition demo_codec :: codec where
  "demo_codec = \<lparr>float_repr = (\<lambda>_. ''0.0''), sha256 = (\<lambda>s. s)\<rparr>"

definition demo_job :: job where
  "demo_job = new_job ''haj-1'' ''q'' ''t'' (JInt 7) 0 10 3 (Some ''k'') None 10"

definition demo_queued :: jobs_db where
  "demo_queued = \<lparr>jobs = [demo_job], job_keys = [\<lparr>k_queue = ''q'', k_tenant = ''t'', k_key = ''k'',
     k_job_id = ''haj-1'', k_fingerprint = ''7'', k_terminal_status = None, k_created_at = 10\<rparr>]\<rparr>"

definition demo_claimed :: jobs_db where
  "demo_claimed = demo_queued\<lparr>jobs := [set_claimed ''w'' ''tok'' 71 11 demo_job]\<rparr>"

abbreviation demo_enqueue :: "real \<Rightarrow> string \<Rightarrow> job_op" where
  "demo_enqueue now i \<equiv> Enqueue ''q'' ''t'' (JInt 7) 0 3 None (Some ''k'') now i"

abbreviation demo_claim :: job_op where
  "demo_claim \<equiv> Claim ''q'' ''w'' (Fin 60) 11 ''tok'' []"

lemma demo_names: "is_clean ''q'' 128" "is_clean ''t'' 255" "is_clean ''k'' 512" "is_clean ''w'' 255"
  "is_clean ''haj-1'' 255" "is_clean ''tok'' 512" "is_clean ''old'' 512"
  by code_simp+

lemma demo_codec_simps: "encode_json demo_codec w (JInt 7) = Inr (JInt 7)" "encode_json demo_codec w (JInt 8) = Inr (JInt 8)"
  "json_body demo_codec (JInt 7) = ''7''" "json_body demo_codec (JInt 8) = ''8''" "sha256 demo_codec s = s"
  by (simp_all add: encode_json_def json_body_def json_dumps_def show_int_def show_nat.simps utf8_len_def demo_codec_def)
    code_simp+

lemma demo_enqueue_result:
  "enqueue SQLite demo_codec ''q'' ''t'' (JInt 7) 0 3 None (Some ''k'') 10 ''haj-1'' empty_jobs = Inr (JobRow demo_job, demo_queued)"
  by (simp add: enqueue_def clean_def clean_opt_def demo_names demo_codec_simps enqueue_existing_def find_key_def
      find_job_def empty_jobs_def enqueue_insert_def insert_job_def insert_key_def demo_job_def demo_queued_def
      key_kid_def Let_def)

lemma demo_claim_result:
  "claim SQLite ''q'' ''w'' (Fin 60) 11 ''tok'' [] demo_queued = Inr (Some (set_claimed ''w'' ''tok'' 71 11 demo_job), demo_claimed)"
  by (simp add: claim_def clean_def lease_ok_def demo_names sql_first_def sql_update_def sql_count_def claimable_def
      demo_queued_def demo_claimed_def demo_job_def new_job_def find_job_def set_claimed_def)

lemma demo_run: "job_run SQLite demo_codec [demo_enqueue 10 ''haj-1''] empty_jobs = demo_queued"
  "job_exec SQLite demo_codec demo_claim demo_queued = demo_claimed"
  by (simp_all add: demo_enqueue_result demo_claim_result)

lemma demo_inv: "jobs_inv demo_codec demo_queued" "jobs_inv demo_codec demo_claimed"
proof -
  show q: "jobs_inv demo_codec demo_queued"
    using jobs_inv_run [OF jobs_inv_empty] demo_run(1) by metis
  show "jobs_inv demo_codec demo_claimed"
    using jobs_inv_exec [OF q] demo_run(2) by metis
qed

section \<open>Properties\<close>

text \<open>C14. Every state the queue can reach from the empty tables, on either database and by any sequence of
  operations, is well formed: identifiers and idempotency keys are unique, exactly the running jobs carry
  a complete lease, exactly the terminal jobs have a finish time, attempts stay between 0 and the maximum,
  a dead letter has used all its attempts, only a succeeded job has a result, and every keyed job that is
  not a replay has its key row with the fingerprint of its payload.\<close>

theorem jobs_reachable_invariant: "jobs_inv c (job_run dia c ops empty_jobs)"
  by (intro jobs_inv_run jobs_inv_empty)

text \<open>C12. Fencing: once a job no longer carries a worker's lease token, then after any further operations that
  do not issue that same token again the worker can neither complete nor fail nor extend the job.\<close>

theorem job_lost_lease_never_commits:
  assumes "jobs_inv c d" and "\<not> holds_lease i tok d" and "\<forall>op \<in> set ops. issued_token op \<noteq> Some tok"
  shows "\<not> is_ok (complete c i tok v now (job_run dia c ops d))
    \<and> \<not> is_ok (fail c i tok e rt dl now (job_run dia c ops d))
    \<and> \<not> is_ok (heartbeat i tok l now (job_run dia c ops d))"
proof -
  have "\<not> job_leases.holds i tok d" using assms(2) by (simp add: job_leases.holds_def holds_lease_def)
  note lost = job_leases.lost_commit [OF assms(1) this assms(3), of _ dia, unfolded job_run_eq]
  from lost [of "CommitComplete v now"] lost [of "CommitFail e rt dl now"] lost [of "CommitBeat l now"]
  show ?thesis by simp
qed

theorem job_lost_lease_never_commits_witness:
  "\<not> is_ok (complete demo_codec ''haj-1'' ''old'' JNull 20 (job_run SQLite demo_codec [demo_claim] demo_queued))"
proof -
  have "\<not> holds_lease ''haj-1'' ''old'' demo_queued"
    by (simp add: holds_lease_def demo_queued_def demo_job_def new_job_def)
  from job_lost_lease_never_commits [OF demo_inv(1) this, of "[demo_claim]" JNull 20 SQLite] show ?thesis by simp
qed

text \<open>C13. A lease protects its holder: if a job runs under a token until time \<open>e\<close>, then after any operations by
  others with clock readings before \<open>e\<close> (claims, reaping, pruning, cancellation requests, anything not using
  this token) the holder can still complete the job before \<open>e\<close>, and no claim in between was given the job.\<close>

theorem job_live_lease_completes:
  assumes "jobs_inv c d" and "live_lease i tok e d" and "\<forall>op \<in> set ops. op_now op < e \<and> used_token op \<noteq> Some tok"
    and "now < e" and "is_clean i 255" and "is_clean tok 512" and "v = JNull \<or> is_ok (encode_json c ''job payload'' v)"
  shows "is_ok (complete c i tok v now (job_run dia c ops d)) \<and> live_lease i tok e (job_run dia c ops d)"
proof -
  note l = live_lease_run [OF assms(1-3), of dia]
  from complete_live [OF jobs_inv_run [OF assms(1)] l assms(4-7)] l show ?thesis by (auto simp: is_ok_def)
qed

theorem job_live_lease_completes_witness:
  "is_ok (complete demo_codec ''haj-1'' ''tok'' (JInt 7) 40
     (job_run SQLite demo_codec [ReapExpired 10 30, Claim ''q'' ''w'' (Fin 60) 30 ''old'' []] demo_claimed))"
proof -
  have "live_lease ''haj-1'' ''tok'' 71 demo_claimed"
    by (simp add: live_lease_def demo_claimed_def demo_queued_def demo_job_def new_job_def set_claimed_def)
  from job_live_lease_completes [OF demo_inv(2) this, of "[ReapExpired 10 30, Claim ''q'' ''w'' (Fin 60) 30 ''old'' []]"
      40 "JInt 7" SQLite]
  show ?thesis by (simp add: demo_names demo_codec_simps)
qed

text \<open>Terminal statuses are final: a job that succeeded, failed, was cancelled or became a dead letter is
  never changed again; any row found under its identifier after further operations is that same row (it may
  have been pruned, and no operation draws its identifier anew).\<close>

theorem job_terminal_final:
  assumes "jobs_inv c d" and "r \<in> set (jobs d)" and "terminal r" and "\<forall>op \<in> set ops. new_id op \<noteq> Some (j_id r)"
    and "r' \<in> set (jobs (job_run dia c ops d))" and "j_id r' = j_id r"
  shows "r' = r"
proof -
  have "\<forall>s \<in> set (jobs d). j_id s = j_id r \<longrightarrow> s = r"
    using rows_by_id [OF jobs_invD(1) [OF assms(1)] _ assms(2)] by blast
  with assms(1,4) have "\<forall>s \<in> set (jobs (job_run dia c ops d)). j_id s = j_id r \<longrightarrow> s = r"
  proof (induction ops arbitrary: d)
    case (Cons op ops)
    have "s = r" if "s \<in> set (jobs (job_exec dia c op d))" "j_id s = j_id r" for s
      using row_origin [OF Cons.prems(1) that(1)] Cons.prems(2,3) that(2) row_step_same row_step_live assms(3)
      by (fastforce simp: same_job_def)
    then have "\<forall>s \<in> set (jobs (job_exec dia c op d)). j_id s = j_id r \<longrightarrow> s = r" by blast
    with Cons.IH [OF jobs_inv_exec [OF Cons.prems(1)]] Cons.prems(2) show ?case by simp
  qed simp
  with assms(5,6) show ?thesis by blast
qed

theorem job_terminal_final_witness:
  "let r = demo_job\<lparr>j_status := JOB_CANCELLED, j_cancel_requested := True, j_finished_at := Some 12, j_updated_at := 12, j_revision := 2\<rparr>;
       d = demo_queued\<lparr>jobs := [r]\<rparr>
   in hd (jobs (job_run SQLite demo_codec [demo_claim] d)) = r"
proof -
  define r where "r = demo_job\<lparr>j_status := JOB_CANCELLED, j_cancel_requested := True, j_finished_at := Some 12, j_updated_at := 12, j_revision := 2\<rparr>"
  have c: "request_cancel ''haj-1'' None 12 demo_queued = Inr (Some r, demo_queued\<lparr>jobs := [r]\<rparr>)"
    by (simp add: request_cancel_def clean_def clean_opt_def demo_names find_scoped_def find_job_def sql_update_def
        JOB_TERMINAL_def demo_queued_def r_def demo_job_def new_job_def)
  have inv: "jobs_inv demo_codec (demo_queued\<lparr>jobs := [r]\<rparr>)"
    using jobs_inv_exec [OF demo_inv(1), of SQLite "RequestCancel ''haj-1'' None 12"] by (simp add: c)
  have run: "jobs (job_run SQLite demo_codec [demo_claim] (demo_queued\<lparr>jobs := [r]\<rparr>)) = [r]"
    by (simp add: claim_def clean_def lease_ok_def demo_names sql_first_def claimable_def r_def demo_job_def new_job_def)
  from job_terminal_final [OF inv, of r "[demo_claim]" "hd (jobs (job_run SQLite demo_codec [demo_claim] (demo_queued\<lparr>jobs := [r]\<rparr>)))" SQLite]
  have "hd (jobs (job_run SQLite demo_codec [demo_claim] (demo_queued\<lparr>jobs := [r]\<rparr>))) = r"
    unfolding run by (simp add: r_def JOB_TERMINAL_def)
  then show ?thesis unfolding Let_def r_def .
qed

text \<open>C15. A job is handed to workers at most \<open>max_attempts\<close> times in its life: the attempts already counted on
  its row plus the claims any further operations give out never exceed the maximum.\<close>

theorem job_claims_bounded:
  assumes "jobs_inv c d" and "r \<in> set (jobs d)" and "\<forall>op \<in> set ops. new_id op \<noteq> Some (j_id r)"
  shows "j_attempt r + int (claims_of dia c (j_id r) ops d) \<le> j_max_attempts r"
  using claims_bound [OF assms(1,2) refl assms(3)] .

theorem job_claims_bounded_witness:
  "claims_of SQLite demo_codec ''haj-1'' [demo_claim] demo_queued = 1 \<and> int (claims_of SQLite demo_codec ''haj-1''
     [demo_claim, Claim ''q'' ''w'' (Fin 60) 100 ''old'' [], ReapExpired 10 500] demo_queued) \<le> 3"
proof -
  have r: "demo_job \<in> set (jobs demo_queued)" "j_id demo_job = ''haj-1''" "j_attempt demo_job = 0" "j_max_attempts demo_job = 3"
    by (simp_all add: demo_queued_def demo_job_def new_job_def)
  from job_claims_bounded [OF demo_inv(1) r(1), of "[demo_claim, Claim ''q'' ''w'' (Fin 60) 100 ''old'' [], ReapExpired 10 500]" SQLite] r
  show ?thesis by (simp add: demo_claim_result set_claimed_def)
qed

text \<open>C11. Submission is idempotent for ever: once \<open>enqueue\<close> has returned a job for a key, then after any
  operations, pruning included, a second \<open>enqueue\<close> under the key returns the same job identifier and writes
  nothing if the payload has the same fingerprint, and is refused with a conflict otherwise.  (The result is
  not a job created by a replay.)\<close>

theorem enqueue_idempotent:
  assumes "jobs_inv c d" and "enqueue dia c q t p pr m av (Some k) now i d = Inr (v, d1)" and "view_replay_of v = None"
    and "encode_json c ''job payload'' p = Inr b" and "encode_json c ''job payload'' p' = Inr b'"
    and "-1000 \<le> pr'" and "pr' \<le> 1000" and "1 \<le> m'" and "m' \<le> 100" and "0 \<le> now'"
  shows "let d2 = job_run dia c ops d1; again = enqueue dia c q t p' pr' m' None (Some k) now' i' d2
    in if sha256 c (json_body c b') = sha256 c (json_body c b)
       then \<exists>v'. again = Inr (v', d2) \<and> view_id v' = view_id v
       else again = Inl (JobConflict conflict_msg)"
proof -
  have inv: "jobs_inv c d1" using jobs_inv_exec [OF assms(1), of dia "Enqueue q t p pr m av (Some k) now i"] assms(2) by simp
  from enqueue_binds [OF assms(1,2)] assms(3,4) have "key_bound q t k (view_id v) (sha256 c (json_body c b)) d1" by auto
  note kb = key_bound_run [OF inv this, of dia ops]
  have "is_clean q 128" "is_clean t 255" "is_clean k 512" using assms(2) by (auto simp: enqueue_def)
  from enqueue_bound [OF jobs_inv_run [OF inv] kb this(1,2) assms(5-9) this(3) assms(10)]
  show ?thesis by (simp add: Let_def)
qed

theorem enqueue_idempotent_witness:
  "enqueue SQLite demo_codec ''q'' ''t'' (JInt 8) 0 3 None (Some ''k'') 50 ''haj-2''
     (job_run SQLite demo_codec [demo_claim] demo_queued) = Inl (JobConflict conflict_msg)
   \<and> (\<exists>v'. enqueue SQLite demo_codec ''q'' ''t'' (JInt 7) 0 3 None (Some ''k'') 50 ''haj-2''
     (job_run SQLite demo_codec [demo_claim] demo_queued) = Inr (v', job_run SQLite demo_codec [demo_claim] demo_queued)
       \<and> view_id v' = ''haj-1'')"
proof -
  have v: "view_replay_of (JobRow demo_job) = None" "view_id (JobRow demo_job) = ''haj-1''" by (simp_all add: demo_job_def)
  note i = enqueue_idempotent [OF jobs_inv_empty demo_enqueue_result v(1) demo_codec_simps(1), of _ _ 0 3 50 "[demo_claim]" "''haj-2''"]
  from i [OF demo_codec_simps(1)] i [OF demo_codec_simps(2)] v show ?thesis
    by (simp add: Let_def demo_codec_simps)
qed

text \<open>C16. A claim takes the right job: with valid arguments it never fails; it returns nothing exactly when no
  job of the queue is claimable (due, not cancelled, attempts left, not under a live lease) and not locked by
  another transaction; otherwise it returns the claimable job that comes first by priority (descending), due
  time, creation time and identifier, now running under the new token, and changes no other row.\<close>

theorem claim_takes_first:
  assumes "jobs_inv c d" and "is_clean q 128" and "is_clean w 255" and "lease_ok l = Inr ()"
  shows "let ready = (\<lambda>r. claimable q now r \<and> (dia = Postgres \<longrightarrow> j_id r \<notin> set lk)); upd = set_claimed w tok (now + fin_val l) now;
       first = (\<lambda>r s. j_priority s < j_priority r \<or> j_priority r = j_priority s \<and>
         (j_available_at r < j_available_at s \<or> j_available_at r = j_available_at s \<and>
         (j_created_at r < j_created_at s \<or> j_created_at r = j_created_at s \<and> j_id r \<le> j_id s)))
    in if \<exists>r \<in> set (jobs d). ready r
       then \<exists>r \<in> set (jobs d). ready r \<and> (\<forall>s \<in> set (jobs d). ready s \<longrightarrow> first r s) \<and>
         claim dia q w l now tok lk d = Inr (Some (upd r), d\<lparr>jobs := map (\<lambda>s. if s = r then upd r else s) (jobs d)\<rparr>)
       else claim dia q w l now tok lk d = Inr (None, d)"
proof -
  define ready where "ready = (\<lambda>r :: job. claimable q now r \<and> (dia = Postgres \<longrightarrow> j_id r \<notin> set lk))"
  note eq = claim_eq [OF jobs_invD(1) [OF assms(1)] assms(2-4), of dia now tok lk, folded ready_def]
  show ?thesis
  proof (cases "sql_first ready claim_key (jobs d)")
    case None
    with eq show ?thesis by (auto simp: Let_def ready_def [symmetric] sql_first_None)
  next
    case (Some r)
    have "sql_update (\<lambda>s. s = r) f (jobs d) = map (\<lambda>s. if s = r then f r else s) (jobs d)" for f
      by (auto simp: sql_update_def)
    with Some eq sql_first_Some [OF Some] show ?thesis
      by (auto simp: Let_def ready_def [symmetric] claim_key_le [symmetric])
  qed
qed

theorem claim_takes_first_witness:
  "claimable ''q'' 11 demo_job \<and> claim SQLite ''q'' ''w'' (Fin 60) 11 ''tok'' [] demo_queued =
     Inr (Some (set_claimed ''w'' ''tok'' 71 11 demo_job), demo_queued\<lparr>jobs := [set_claimed ''w'' ''tok'' 71 11 demo_job]\<rparr>)"
proof -
  have "claimable ''q'' 11 demo_job" by (simp add: claimable_def demo_job_def new_job_def)
  with claim_takes_first [OF demo_inv(1) demo_names(1,4), of "Fin 60" 11 SQLite "[]" "''tok''"] show ?thesis
    by (simp add: Let_def lease_ok_def demo_queued_def)
qed

text \<open>The two databases agree: with no rows locked by other transactions the PostgreSQL statement (one
  \<open>UPDATE ... FROM candidate\<close>) and the SQLite sequence (select, guarded update, select) give the same result.\<close>

theorem claim_dialects_agree:
  assumes "jobs_inv c d"
  shows "claim Postgres q w l now tok [] d = claim SQLite q w l now tok lk d"
proof (cases "is_clean q 128 \<and> is_clean w 255 \<and> lease_ok l = Inr ()")
  case True
  then show ?thesis using claim_eq [OF jobs_invD(1) [OF assms]] by simp
next
  case False
  then show ?thesis by (auto simp: claim_def clean_def bindR_def split: sum.splits)
qed

theorem claim_dialects_agree_witness:
  "claim Postgres ''q'' ''w'' (Fin 60) 11 ''tok'' [] demo_queued = Inr (Some (set_claimed ''w'' ''tok'' 71 11 demo_job), demo_claimed)"
  using claim_dialects_agree [OF demo_inv(1)] demo_claim_result by metis

end
