(* ===== verification/HA_Outbox.thy ===== *)
theory HA_Outbox
  imports HA_Storage
begin

text \<open>
  The transactional outbox (\<open>ha/outbox.py\<close>, \<open>OutboxStore\<close> and \<open>OutboxDispatcher\<close>): events that are
  delivered at least once, in order within an aggregate, under fencing-token leases.  As for the job
  queue, a method is its transaction, and what it draws from outside is an argument.
\<close>

section \<open>Rows\<close>

datatype outbox_status = OUTBOX_PENDING | OUTBOX_DELIVERING | OUTBOX_DELIVERED | OUTBOX_DEAD_LETTER

record event =
  e_id :: string
  e_tenant :: string
  e_topic :: string
  e_agg_type :: string
  e_agg_id :: string
  e_agg_revision :: int
  e_payload :: json
  e_headers :: json
  e_status :: outbox_status
  e_available_at :: real
  e_lease_owner :: "string option"
  e_lease_token :: "string option"
  e_lease_expires_at :: "real option"
  e_attempt :: int
  e_max_attempts :: int
  e_last_error :: "string option"
  e_key :: "string option"
  e_created_at :: real
  e_updated_at :: real
  e_delivered_at :: "real option"

record outbox_key =
  ok_tenant :: string
  ok_topic :: string
  ok_key :: string
  ok_event_id :: string
  ok_fingerprint :: string
  ok_created_at :: real

record outbox_db =
  events :: "event list"
  event_keys :: "outbox_key list"

definition event_kid :: "event \<Rightarrow> string \<times> string \<times> string option" where
  "event_kid e = (e_tenant e, e_topic e, e_key e)"

definition okey_kid :: "outbox_key \<Rightarrow> string \<times> string \<times> string option" where
  "okey_kid k = (ok_tenant k, ok_topic k, Some (ok_key k))"

definition find_event :: "string \<Rightarrow> outbox_db \<Rightarrow> event option" where
  "find_event i d = sql_find (\<lambda>e. e_id e = i) (events d)"

section \<open>Appending\<close>

definition fingerprint :: "codec \<Rightarrow> string \<Rightarrow> string \<Rightarrow> int \<Rightarrow> json \<Rightarrow> json \<Rightarrow> string" where
  "fingerprint c atype aid revn payload headers =
     sha256 c (join_with [char_of (0::nat)] [atype, aid, show_int revn, json_body c payload, json_body c headers])"

definition event_fp :: "codec \<Rightarrow> event \<Rightarrow> string" where
  "event_fp c e = fingerprint c (e_agg_type e) (e_agg_id e) (e_agg_revision e) (e_payload e) (e_headers e)"

definition new_event :: "string \<Rightarrow> string \<Rightarrow> string \<Rightarrow> string \<Rightarrow> string \<Rightarrow> int \<Rightarrow> json \<Rightarrow> json \<Rightarrow> real \<Rightarrow> int \<Rightarrow>
    string option \<Rightarrow> real \<Rightarrow> event" where
  "new_event i tenant topic atype aid revn payload headers ready max_att key now =
     \<lparr>e_id = i, e_tenant = tenant, e_topic = topic, e_agg_type = atype, e_agg_id = aid, e_agg_revision = revn,
      e_payload = payload, e_headers = headers, e_status = OUTBOX_PENDING, e_available_at = ready,
      e_lease_owner = None, e_lease_token = None, e_lease_expires_at = None, e_attempt = 0,
      e_max_attempts = max_att, e_last_error = None, e_key = key, e_created_at = now, e_updated_at = now,
      e_delivered_at = None\<rparr>"

definition insert_event :: "dialect \<Rightarrow> event \<Rightarrow> event list \<Rightarrow> (bool \<times> event list) res" where
  "insert_event dia e rows =
     (if e_key e \<noteq> None \<and> event_kid e \<in> set (map event_kid rows) then Inr (False, rows)
      else if e_id e \<in> set (map e_id rows)
      then (case dia of SQLite \<Rightarrow> Inr (False, rows) | Postgres \<Rightarrow> Inl IntegrityError)
      else Inr (True, rows @ [e]))"

definition reuse_msg :: string where
  "reuse_msg = ''outbox idempotency key was reused with different data''"

definition same_or_conflict :: "event \<Rightarrow> event \<Rightarrow> event res" where
  "same_or_conflict cur e =
     (if e_agg_type cur \<noteq> e_agg_type e \<or> e_agg_id cur \<noteq> e_agg_id e \<or> e_agg_revision cur \<noteq> e_agg_revision e
         \<or> \<not> py_eq (e_payload cur) (e_payload e) \<or> \<not> py_eq (e_headers cur) (e_headers e)
      then Inl (OutboxConflict reuse_msg) else Inr cur)"

text \<open>The key lookup: the event already recorded under the key, or the tables to insert into (a key row whose
  event has been compacted away is removed).\<close>

definition append_existing :: "codec \<Rightarrow> event \<Rightarrow> string \<Rightarrow> outbox_db \<Rightarrow> (event option \<times> outbox_db) res" where
  "append_existing c e key d =
     (case sql_find (\<lambda>k. okey_kid k = (e_tenant e, e_topic e, Some key)) (event_keys d) of
        None \<Rightarrow> Inr (None, d)
      | Some kr \<Rightarrow>
          if ok_fingerprint kr \<noteq> event_fp c e then Inl (OutboxConflict reuse_msg)
          else (case find_event (ok_event_id kr) d of
                  Some cur \<Rightarrow> Inr (Some cur, d)
                | None \<Rightarrow> Inr (None, d\<lparr>event_keys := filter (\<lambda>k. \<not> (okey_kid k = (e_tenant e, e_topic e, Some key) \<and>
                            ok_event_id k = ok_event_id kr \<and> ok_fingerprint k = event_fp c e)) (event_keys d)\<rparr>)))"

definition append_insert :: "dialect \<Rightarrow> codec \<Rightarrow> event \<Rightarrow> outbox_db \<Rightarrow> (event option \<times> outbox_db) res" where
  "append_insert dia c e d =
     bindR (insert_event dia e (events d)) (\<lambda>(inserted, rows).
       if inserted then
         bindR (case e_key e of
                  None \<Rightarrow> Inr (d\<lparr>events := rows\<rparr>)
                | Some key \<Rightarrow>
                    (let k = \<lparr>ok_tenant = e_tenant e, ok_topic = e_topic e, ok_key = key, ok_event_id = e_id e,
                              ok_fingerprint = event_fp c e, ok_created_at = e_created_at e\<rparr>
                     in if okey_kid k \<in> set (map okey_kid (event_keys d)) then Inl IntegrityError
                        else Inr \<lparr>events = rows, event_keys = event_keys d @ [k]\<rparr>))
           (\<lambda>d'. Inr (find_event (e_id e) d', d'))
       else case e_key e of
         None \<Rightarrow> Inl (OutboxConflict ''outbox event identifier collision'')
       | Some key \<Rightarrow>
           (case sql_find (\<lambda>x. event_kid x = (e_tenant e, e_topic e, Some key)) rows of
              None \<Rightarrow> Inl (OutboxConflict ''idempotent outbox event disappeared'')
            | Some cur \<Rightarrow> bindR (same_or_conflict cur e) (\<lambda>x. Inr (Some x, d))))"

text \<open>\<open>append\<close>; \<open>None\<close> as the returned event is the empty dictionary.\<close>

definition outbox_append :: "dialect \<Rightarrow> codec \<Rightarrow> string \<Rightarrow> string \<Rightarrow> string \<Rightarrow> string \<Rightarrow> int \<Rightarrow> json \<Rightarrow> jdict option \<Rightarrow>
    string option \<Rightarrow> int \<Rightarrow> pyfloat option \<Rightarrow> real \<Rightarrow> string \<Rightarrow> outbox_db \<Rightarrow> (event option \<times> outbox_db) res" where
  "outbox_append dia c tenant topic atype aid revn payload headers key max_att available now i d =
     bindR (clean tenant ''tenant_id'' 255) (\<lambda>_.
     bindR (clean topic ''topic'' 200) (\<lambda>_.
     bindR (clean atype ''aggregate_type'' 128) (\<lambda>_.
     bindR (clean aid ''aggregate_id'' 512) (\<lambda>_.
     bindR (guardR (0 \<le> revn) (ValueError ''aggregate_revision is invalid'')) (\<lambda>_.
     bindR (guardR (1 \<le> max_att \<and> max_att \<le> 100) (ValueError ''max_attempts must be between 1 and 100'')) (\<lambda>_.
     bindR (clean_opt key ''idempotency_key'' 512) (\<lambda>_.
     bindR (encode_json c ''outbox payload'' payload) (\<lambda>pj.
     bindR (encode_json c ''outbox headers'' (JObj (case headers of None \<Rightarrow> [] | Some h \<Rightarrow> h))) (\<lambda>hj.
     let ready = (case available of None \<Rightarrow> Fin now | Some x \<Rightarrow> x) in
     bindR (guardR (isfinite ready \<and> 0 \<le> fin_val ready) (ValueError ''available_at is invalid'')) (\<lambda>_.
     let e = new_event i tenant topic atype aid revn pj hj (fin_val ready) max_att key now in
     case key of
       None \<Rightarrow> append_insert dia c e d
     | Some k \<Rightarrow> bindR (append_existing c e k d) (\<lambda>(found, d').
         case found of Some cur \<Rightarrow> Inr (Some cur, d') | None \<Rightarrow> append_insert dia c e d')))))))))))"

definition outbox_enqueue :: "dialect \<Rightarrow> codec \<Rightarrow> string \<Rightarrow> string \<Rightarrow> string \<Rightarrow> string \<Rightarrow> int \<Rightarrow> json \<Rightarrow> jdict option \<Rightarrow>
    string option \<Rightarrow> int \<Rightarrow> pyfloat option \<Rightarrow> real \<Rightarrow> string \<Rightarrow> outbox_db backend \<Rightarrow> event option res \<times> outbox_db backend" where
  "outbox_enqueue dia c tenant topic atype aid revn payload headers key max_att available now i b =
     transaction (outbox_append dia c tenant topic atype aid revn payload headers key max_att available now i) b"

section \<open>Claim, heartbeat and completion\<close>

definition same_aggregate :: "event \<Rightarrow> event \<Rightarrow> bool" where
  "same_aggregate p e \<longleftrightarrow> e_tenant p = e_tenant e \<and> e_topic p = e_topic e \<and> e_agg_type p = e_agg_type e \<and>
     e_agg_id p = e_agg_id e"

text \<open>The order of the events of an aggregate: revision, then creation time, then identifier.\<close>

definition before_event :: "event \<Rightarrow> event \<Rightarrow> bool" where
  "before_event p e \<longleftrightarrow> e_agg_revision p < e_agg_revision e \<or>
     e_agg_revision p = e_agg_revision e \<and>
       (e_created_at p < e_created_at e \<or> e_created_at p = e_created_at e \<and> e_id p < e_id e)"

definition blocks :: "event \<Rightarrow> event \<Rightarrow> bool" where
  "blocks p e \<longleftrightarrow> same_aggregate p e \<and> e_status p \<in> {OUTBOX_PENDING, OUTBOX_DELIVERING, OUTBOX_DEAD_LETTER} \<and>
     before_event p e"

definition due :: "real \<Rightarrow> event \<Rightarrow> bool" where
  "due now e \<longleftrightarrow> e_attempt e < e_max_attempts e \<and>
     (e_status e = OUTBOX_PENDING \<and> e_available_at e \<le> now \<or>
      e_status e = OUTBOX_DELIVERING \<and> null_le (e_lease_expires_at e) now)"

definition deliverable :: "real \<Rightarrow> event list \<Rightarrow> event \<Rightarrow> bool" where
  "deliverable now rows e \<longleftrightarrow> due now e \<and> \<not> list_ex (\<lambda>p. blocks p e) rows"

definition event_order :: "event \<Rightarrow> real \<times> real \<times> string" where
  "event_order e = (e_available_at e, e_created_at e, e_id e)"

definition set_expired :: "real \<Rightarrow> event \<Rightarrow> event" where
  "set_expired now e = e\<lparr>e_status := OUTBOX_DEAD_LETTER, e_lease_owner := None, e_lease_token := None,
     e_lease_expires_at := None, e_last_error := Some ''LEASE_EXPIRED'', e_updated_at := now\<rparr>"

definition spent :: "real \<Rightarrow> event \<Rightarrow> bool" where
  "spent now e \<longleftrightarrow> e_status e = OUTBOX_DELIVERING \<and> null_le (e_lease_expires_at e) now \<and>
     e_max_attempts e \<le> e_attempt e"

definition set_delivering :: "string \<Rightarrow> string \<Rightarrow> real \<Rightarrow> real \<Rightarrow> event \<Rightarrow> event" where
  "set_delivering worker token expires now e =
     e\<lparr>e_status := OUTBOX_DELIVERING, e_lease_owner := Some worker, e_lease_token := Some token,
       e_lease_expires_at := Some expires, e_attempt := e_attempt e + 1, e_updated_at := now\<rparr>"

definition outbox_claim :: "dialect \<Rightarrow> string \<Rightarrow> pyfloat \<Rightarrow> real \<Rightarrow> string \<Rightarrow> string list \<Rightarrow> outbox_db \<Rightarrow>
    (event option \<times> outbox_db) res" where
  "outbox_claim dia worker lease now token locked d =
     bindR (clean worker ''worker_id'' 255) (\<lambda>_.
     bindR (lease_ok lease) (\<lambda>_.
     let d1 = d\<lparr>events := sql_update (spent now) (set_expired now) (events d)\<rparr>;
         upd = set_delivering worker token (now + fin_val lease) now in
     case dia of
       Postgres \<Rightarrow>
         (case sql_first (\<lambda>e. deliverable now (events d1) e \<and> e_id e \<notin> set locked) event_order (events d1) of
            None \<Rightarrow> Inr (None, d1)
          | Some e \<Rightarrow>
              (let d2 = d1\<lparr>events := sql_update (\<lambda>r. e_id r = e_id e) upd (events d1)\<rparr>
               in Inr (find_event (e_id e) d2, d2)))
     | SQLite \<Rightarrow>
         (case sql_first (deliverable now (events d1)) event_order (events d1) of
            None \<Rightarrow> Inr (None, d1)
          | Some e \<Rightarrow>
              (let p = (\<lambda>r. e_id r = e_id e \<and> due now r);
                   d2 = d1\<lparr>events := sql_update p upd (events d1)\<rparr>
               in if sql_count p (events d1) \<noteq> 1 then Inr (None, d2)
                  else Inr (find_event (e_id e) d2, d2)))))"

definition outbox_heartbeat :: "string \<Rightarrow> string \<Rightarrow> pyfloat \<Rightarrow> real \<Rightarrow> outbox_db \<Rightarrow> (unit \<times> outbox_db) res" where
  "outbox_heartbeat i token lease now d =
     bindR (clean i ''event_id'' 255) (\<lambda>_.
     bindR (clean token ''lease_token'' 512) (\<lambda>_.
     bindR (lease_ok lease) (\<lambda>_.
     let p = (\<lambda>r. e_id r = i \<and> e_status r = OUTBOX_DELIVERING \<and> e_lease_token r = Some token \<and>
                  null_gt (e_lease_expires_at r) now)
     in if sql_count p (events d) \<noteq> 1 then Inl StaleOutboxLease
        else Inr ((), d\<lparr>events := sql_update p (\<lambda>r. r\<lparr>e_lease_expires_at := Some (now + fin_val lease),
                                                       e_updated_at := now\<rparr>) (events d)\<rparr>))))"

definition outbox_outcome :: "event \<Rightarrow> string option \<Rightarrow> outbox_status" where
  "outbox_outcome e error =
     (if error = None then OUTBOX_DELIVERED
      else if e_max_attempts e \<le> e_attempt e then OUTBOX_DEAD_LETTER else OUTBOX_PENDING)"

definition set_outcome :: "outbox_status \<Rightarrow> string option \<Rightarrow> real \<Rightarrow> real \<Rightarrow> event \<Rightarrow> event" where
  "set_outcome st error delay now r =
     r\<lparr>e_status := st, e_available_at := (if st = OUTBOX_PENDING then now + delay else now),
       e_lease_owner := None, e_lease_token := None, e_lease_expires_at := None, e_last_error := error,
       e_delivered_at := (if st = OUTBOX_DELIVERED then Some now else None), e_updated_at := now\<rparr>"

definition outbox_finish :: "string \<Rightarrow> string \<Rightarrow> string option \<Rightarrow> real \<Rightarrow> real \<Rightarrow> outbox_db \<Rightarrow> (event option \<times> outbox_db) res" where
  "outbox_finish i token error delay now d =
     bindR (clean i ''event_id'' 255) (\<lambda>_.
     bindR (clean token ''lease_token'' 512) (\<lambda>_.
     case find_event i d of
       None \<Rightarrow> Inl StaleOutboxLease
     | Some e \<Rightarrow>
         if e_status e \<noteq> OUTBOX_DELIVERING \<or> e_lease_token e \<noteq> Some token
            \<or> (case e_lease_expires_at e of None \<Rightarrow> 0 | Some t \<Rightarrow> t) \<le> now
         then Inl StaleOutboxLease
         else
           (let p = (\<lambda>r. e_id r = i \<and> e_status r = OUTBOX_DELIVERING \<and> e_lease_token r = Some token);
                d' = d\<lparr>events := sql_update p (set_outcome (outbox_outcome e error) error delay now) (events d)\<rparr>
            in if sql_count p (events d) \<noteq> 1 then Inl StaleOutboxLease
               else Inr (find_event i d', d'))))"

definition delivered :: "string \<Rightarrow> string \<Rightarrow> real \<Rightarrow> outbox_db \<Rightarrow> (event option \<times> outbox_db) res" where
  "delivered i token now d = outbox_finish i token None 0 now d"

definition outbox_failed :: "string \<Rightarrow> string \<Rightarrow> string \<Rightarrow> pyfloat \<Rightarrow> real \<Rightarrow> outbox_db \<Rightarrow> (event option \<times> outbox_db) res" where
  "outbox_failed i token error delay now d =
     bindR (clean error ''error'' 512) (\<lambda>_.
     bindR (guardR (isfinite delay \<and> 0 \<le> fin_val delay) (ValueError ''retry_delay_seconds is invalid'')) (\<lambda>_.
     outbox_finish i token (Some error) (fin_val delay) now d))"

definition get_event :: "string \<Rightarrow> outbox_db \<Rightarrow> event option res" where
  "get_event i d = bindR (clean i ''event_id'' 255) (\<lambda>_. Inr (find_event i d))"

definition old_delivered :: "real \<Rightarrow> event \<Rightarrow> bool" where
  "old_delivered before e \<longleftrightarrow> e_status e = OUTBOX_DELIVERED \<and> null_le (e_delivered_at e) before"

definition drop_event :: "real \<Rightarrow> event \<Rightarrow> outbox_db \<Rightarrow> outbox_db" where
  "drop_event before row d =
     d\<lparr>event_keys := filter (\<lambda>k. ok_event_id k \<noteq> e_id row) (event_keys d),
       events := filter (\<lambda>e. \<not> (e_id e = e_id row \<and> old_delivered before e)) (events d)\<rparr>"

definition prune_delivered :: "pyfloat \<Rightarrow> int \<Rightarrow> outbox_db \<Rightarrow> (nat \<times> outbox_db) res" where
  "prune_delivered before limit d =
     bindR (guardR (isfinite before) (ValueError ''prune cutoff must be finite'')) (\<lambda>_.
     bindR (guardR (1 \<le> limit \<and> limit \<le> 10000) (ValueError ''limit must be between 1 and 10000'')) (\<lambda>_.
     let rows = sql_select (old_delivered (fin_val before)) (\<lambda>e. (the_default 0 (e_delivered_at e), e_id e))
                  (nat limit) (events d)
     in Inr (length rows, fold (drop_event (fin_val before)) rows d)))"

section \<open>The dispatcher\<close>

text \<open>\<open>lambda attempt: min(300.0, 2 ** min(attempt, 8))\<close>\<close>

definition default_retry_delay :: "int \<Rightarrow> real" where
  "default_retry_delay attempt = min 300 (2 ^ nat (min attempt 8))"

text \<open>
  \<open>run_once\<close>: claim, deliver, report.  While the handler runs, other workers commit and the keeper thread
  renews the lease; \<open>beats\<close> lists, for each renewal, what others commit before it and its clock reading.
  \<open>rest\<close> is what others commit after the last renewal.  The handler returns, or raises an exception of
  which the class name in upper case is reported; \<open>calls\<close> in the result are the handler calls made.
\<close>

fun keep_lease :: "string \<Rightarrow> string \<Rightarrow> pyfloat \<Rightarrow> ((outbox_db \<Rightarrow> outbox_db) \<times> real) list \<Rightarrow> outbox_db \<Rightarrow> bool \<times> outbox_db" where
  "keep_lease i token lease [] d = (False, d)"
| "keep_lease i token lease ((others, now) # beats) d =
     (case outbox_heartbeat i token lease now (others d) of
        Inl _ \<Rightarrow> (True, others d)
      | Inr (_, d') \<Rightarrow> keep_lease i token lease beats d')"

definition report_delay :: "(int \<Rightarrow> pyfloat) \<Rightarrow> int \<Rightarrow> pyfloat" where
  "report_delay retry_delay attempt =
     (let x = retry_delay attempt in if isfinite x \<and> 0 \<le> fin_val x then x else Fin 300)"

definition run_once :: "dialect \<Rightarrow> (string \<Rightarrow> json \<Rightarrow> json \<Rightarrow> string \<Rightarrow> string option) \<Rightarrow> (int \<Rightarrow> pyfloat) \<Rightarrow> string \<Rightarrow>
    pyfloat \<Rightarrow> real \<Rightarrow> string \<Rightarrow> string list \<Rightarrow> ((outbox_db \<Rightarrow> outbox_db) \<times> real) list \<Rightarrow> (outbox_db \<Rightarrow> outbox_db) \<Rightarrow>
    real \<Rightarrow> outbox_db \<Rightarrow> bool res \<times> string list \<times> outbox_db" where
  "run_once dia handler retry_delay worker lease now token locked beats rest now' d =
     (case outbox_claim dia worker lease now token locked d of
        Inl e \<Rightarrow> (Inl e, [], d)
      | Inr (None, d1) \<Rightarrow> (Inr False, [], d1)
      | Inr (Some ev, d1) \<Rightarrow>
          (let tok = (case e_lease_token ev of None \<Rightarrow> ''None'' | Some t \<Rightarrow> t);
               (lost, d2) = keep_lease (e_id ev) tok lease beats d1;
               d3 = rest d2
           in if lost then (Inr True, [e_id ev], d3)
              else case (case handler (e_topic ev) (e_payload ev) (e_headers ev) (e_id ev) of
                           None \<Rightarrow> delivered (e_id ev) tok now' d3
                         | Some name \<Rightarrow> outbox_failed (e_id ev) tok name (report_delay retry_delay (e_attempt ev)) now' d3) of
                     Inl e \<Rightarrow> (Inl e, [e_id ev], d3)
                   | Inr (_, d4) \<Rightarrow> (Inr True, [e_id ev], d4)))"

end
