(* ===== verification/HA_Outbox_Machine.thy ===== *)
theory HA_Outbox_Machine
  imports HA_Outbox
begin

text \<open>
  The outbox as a state machine: its writing operations, the invariant of its tables, and what an operation
  may do to one event.
\<close>

section \<open>Operations\<close>

datatype outbox_op =
    Append string string string string int json "jdict option" "string option" int "pyfloat option" real string
  | OClaim string pyfloat real string "string list"
  | OHeartbeat string string pyfloat real
  | ODelivered string string real
  | OFailed string string string pyfloat real
  | OPrune pyfloat int

fun outbox_exec :: "dialect \<Rightarrow> codec \<Rightarrow> outbox_op \<Rightarrow> outbox_db \<Rightarrow> outbox_db" where
  "outbox_exec dia c (Append t tp ty ai rv p h k m av now i) d = committed (outbox_append dia c t tp ty ai rv p h k m av now i d) d"
| "outbox_exec dia c (OClaim w l now tok lk) d = committed (outbox_claim dia w l now tok lk d) d"
| "outbox_exec dia c (OHeartbeat i tok l now) d = committed (outbox_heartbeat i tok l now d) d"
| "outbox_exec dia c (ODelivered i tok now) d = committed (delivered i tok now d) d"
| "outbox_exec dia c (OFailed i tok e dl now) d = committed (outbox_failed i tok e dl now d) d"
| "outbox_exec dia c (OPrune b n) d = committed (prune_delivered b n d) d"

definition outbox_run :: "dialect \<Rightarrow> codec \<Rightarrow> outbox_op list \<Rightarrow> outbox_db \<Rightarrow> outbox_db" where
  "outbox_run dia c ops d = fold (outbox_exec dia c) ops d"

definition empty_outbox :: outbox_db where
  "empty_outbox = \<lparr>events = [], event_keys = []\<rparr>"

fun o_issued :: "outbox_op \<Rightarrow> string option" where
  "o_issued (OClaim w l now tok lk) = Some tok"
| "o_issued _ = None"

fun o_new_id :: "outbox_op \<Rightarrow> string option" where
  "o_new_id (Append t tp ty ai rv p h k m av now i) = Some i"
| "o_new_id _ = None"

section \<open>What an operation does to an event\<close>

inductive event_step :: "outbox_op \<Rightarrow> event \<Rightarrow> event \<Rightarrow> bool" where
  expired: "spent now e \<Longrightarrow> event_step (OClaim w l now tok lk) e (set_expired now e)"
| delivering: "due now e \<Longrightarrow> event_step (OClaim w l now tok lk) e (set_delivering w tok (now + fin_val l) now e)"
| beaten: "e_status e = OUTBOX_DELIVERING \<Longrightarrow> e_lease_token e = Some tok \<Longrightarrow>
    event_step (OHeartbeat i tok l now) e (e\<lparr>e_lease_expires_at := Some (now + fin_val l), e_updated_at := now\<rparr>)"
| reported: "e_status e = OUTBOX_DELIVERING \<Longrightarrow> st = outbox_outcome e err \<Longrightarrow> o_issued op = None \<Longrightarrow>
    event_step op e (set_outcome st err dl now e)"

lemmas event_updates = set_expired_def set_delivering_def set_outcome_def

definition event_ok :: "event \<Rightarrow> bool" where
  "event_ok e \<longleftrightarrow>
     (e_status e = OUTBOX_DELIVERING \<longleftrightarrow> e_lease_token e \<noteq> None) \<and>
     (e_lease_expires_at e \<noteq> None \<longleftrightarrow> e_lease_token e \<noteq> None) \<and>
     (e_lease_owner e \<noteq> None \<longleftrightarrow> e_lease_token e \<noteq> None) \<and>
     (e_delivered_at e \<noteq> None \<longleftrightarrow> e_status e = OUTBOX_DELIVERED) \<and>
     0 \<le> e_attempt e \<and> e_attempt e \<le> e_max_attempts e \<and> 1 \<le> e_max_attempts e \<and> e_max_attempts e \<le> 100 \<and>
     (e_status e = OUTBOX_PENDING \<longrightarrow> e_attempt e < e_max_attempts e) \<and>
     (e_status e = OUTBOX_DEAD_LETTER \<longrightarrow> e_attempt e = e_max_attempts e) \<and>
     (e_status e \<in> {OUTBOX_DELIVERING, OUTBOX_DELIVERED} \<longrightarrow> 1 \<le> e_attempt e)"

definition event_ident :: "event \<Rightarrow> string \<times> (string \<times> string \<times> string option) \<times> string \<times> string \<times> int \<times> json \<times> json \<times> real" where
  "event_ident e = (e_id e, event_kid e, e_agg_type e, e_agg_id e, e_agg_revision e, e_payload e, e_headers e, e_created_at e)"

lemma event_step_ident: "event_step op e e' \<Longrightarrow> event_ident e' = event_ident e"
  by (induction rule: event_step.induct) (auto simp: event_ident_def event_kid_def event_updates)

lemma event_step_ok: "event_step op e e' \<Longrightarrow> event_ok e \<Longrightarrow> event_ok e'"
proof (induction rule: event_step.induct)
  case (delivering now e w l tok lk)
  then show ?case by (cases "e_status e"; simp add: event_ok_def set_delivering_def due_def)
next
  case (reported e st err op dl now)
  then show ?case by (simp add: event_ok_def outbox_outcome_def set_outcome_def)
qed (simp_all add: event_ok_def set_expired_def spent_def)

lemma event_step_open: "event_step op e e' \<Longrightarrow> e_status e \<in> {OUTBOX_PENDING, OUTBOX_DELIVERING}"
  by (induction rule: event_step.induct) (auto simp: due_def spent_def)

lemma event_step_token: "event_step op e e' \<Longrightarrow> e_lease_token e' = Some t \<Longrightarrow> o_issued op = Some t \<or> e_lease_token e = Some t"
  by (induction rule: event_step.induct) (auto simp: event_updates)

lemma event_star_ident: "(event_step op)\<^sup>*\<^sup>* e e' \<Longrightarrow> event_ident e' = event_ident e"
  by (erule star_keeps [where k = event_ident]) (rule event_step_ident)

lemma event_star_ok: "(event_step op)\<^sup>*\<^sup>* e e' \<Longrightarrow> event_ok e \<Longrightarrow> event_ok e'"
  by (erule star_inv) (auto intro: event_step_ok)

lemma event_star_token:
  "(event_step op)\<^sup>*\<^sup>* e e' \<Longrightarrow> e_lease_token e' = Some t \<Longrightarrow> o_issued op = Some t \<or> e_lease_token e = Some t"
  by (induction rule: rtranclp_induct) (auto dest: event_step_token)

lemma event_star_final:
  assumes "(event_step op)\<^sup>*\<^sup>* e e'" and "e_status e \<in> {OUTBOX_DELIVERED, OUTBOX_DEAD_LETTER}"
  shows "e' = e"
  using assms(1)
proof (cases rule: converse_rtranclpE)
  case (step y)
  with assms(2) event_step_open show ?thesis by fastforce
qed simp

section \<open>The invariant\<close>

definition bound_by :: "codec \<Rightarrow> outbox_key list \<Rightarrow> event \<Rightarrow> bool" where
  "bound_by c keys e \<longleftrightarrow> (\<exists>k \<in> set keys. okey_kid k = event_kid e \<and> ok_event_id k = e_id e \<and> ok_fingerprint k = event_fp c e)"

definition outbox_inv :: "codec \<Rightarrow> outbox_db \<Rightarrow> bool" where
  "outbox_inv c d \<longleftrightarrow> distinct (map e_id (events d)) \<and> distinct (map okey_kid (event_keys d)) \<and>
     (\<forall>e \<in> set (events d). event_ok e \<and> (e_key e \<noteq> None \<longrightarrow> bound_by c (event_keys d) e)) \<and>
     (\<forall>k \<in> set (event_keys d). \<exists>e \<in> set (events d). e_id e = ok_event_id k \<and> event_kid e = okey_kid k)"

lemma outbox_invD:
  assumes "outbox_inv c d"
  shows "distinct (map e_id (events d))" and "distinct (map okey_kid (event_keys d))"
    and "e \<in> set (events d) \<Longrightarrow> event_ok e" and "e \<in> set (events d) \<Longrightarrow> e_key e \<noteq> None \<Longrightarrow> bound_by c (event_keys d) e"
    and "k \<in> set (event_keys d) \<Longrightarrow> \<exists>e \<in> set (events d). e_id e = ok_event_id k \<and> event_kid e = okey_kid k"
  using assms unfolding outbox_inv_def by blast+

lemma event_by_id: "distinct (map e_id rows) \<Longrightarrow> a \<in> set rows \<Longrightarrow> b \<in> set rows \<Longrightarrow> e_id a = e_id b \<Longrightarrow> a = b"
  by (auto simp: distinct_map inj_on_def)

lemma find_eventD: "find_event i d = Some e \<Longrightarrow> e \<in> set (events d) \<and> e_id e = i"
  unfolding find_event_def by (drule sql_find_Some) auto

lemma find_event_in: "outbox_inv c d \<Longrightarrow> e \<in> set (events d) \<Longrightarrow> find_event (e_id e) d = Some e"
  using sql_find_unique [OF outbox_invD(1)] by (simp add: find_event_def)

lemma ident_bound: "event_ident e' = event_ident e \<Longrightarrow> bound_by c ks e' = bound_by c ks e"
  by (simp add: event_ident_def bound_by_def event_fp_def)

lemma outbox_inv_rewrote:
  assumes "outbox_inv c d" and "rows_rewrote (event_step op) (events d) rows"
  shows "outbox_inv c (d\<lparr>events := rows\<rparr>)"
proof -
  note inv = outbox_invD [OF assms(1)]
  have ids: "map event_ident rows = map event_ident (events d)"
    using assms(2) event_step_ident by (rule rows_rewrote_map)
  have "map e_id rows = map fst (map event_ident rows)" by (simp add: event_ident_def)
  also have "\<dots> = map e_id (events d)" by (simp add: ids) (simp add: event_ident_def)
  finally have 1: "distinct (map e_id rows)" using inv(1) by simp
  have 2: "event_ok e' \<and> (e_key e' \<noteq> None \<longrightarrow> bound_by c (event_keys d) e')" if e': "e' \<in> set rows" for e'
  proof -
    from rows_rewrote_back [OF assms(2) e'] obtain e where e: "e \<in> set (events d)" "(event_step op)\<^sup>*\<^sup>* e e'" by blast
    have i: "event_ident e' = event_ident e" using e(2) by (rule event_star_ident)
    then have "e_key e' = e_key e" by (simp add: event_ident_def event_kid_def)
    then show ?thesis
      using inv(3,4) [OF e(1)] event_star_ok [OF e(2)] ident_bound [OF i, of c "event_keys d"] by simp
  qed
  have 3: "\<exists>e \<in> set rows. e_id e = ok_event_id k \<and> event_kid e = okey_kid k" if k: "k \<in> set (event_keys d)" for k
  proof -
    from inv(5) [OF k] obtain e where e: "e \<in> set (events d)" "e_id e = ok_event_id k" "event_kid e = okey_kid k" by blast
    from rows_rewrote_forth [OF assms(2) e(1)] obtain e' where "e' \<in> set rows" "(event_step op)\<^sup>*\<^sup>* e e'" by blast
    moreover from event_star_ident [OF this(2)] e have "e_id e' = ok_event_id k" "event_kid e' = okey_kid k"
      by (simp_all add: event_ident_def)
    ultimately show ?thesis by blast
  qed
  from 1 2 3 inv(2) show ?thesis unfolding outbox_inv_def by simp
qed

section \<open>Every operation\<close>

lemma outbox_claim_eq:
  assumes "distinct (map e_id (events d))" and "is_clean w 255" and "lease_ok l = Inr ()"
  shows "outbox_claim dia w l now tok lk d =
    (let rows = sql_update (spent now) (set_expired now) (events d); upd = set_delivering w tok (now + fin_val l) now
     in case sql_first (\<lambda>e. deliverable now rows e \<and> (dia = Postgres \<longrightarrow> e_id e \<notin> set lk)) event_order rows of
       None \<Rightarrow> Inr (None, d\<lparr>events := rows\<rparr>)
     | Some e \<Rightarrow> Inr (Some (upd e), d\<lparr>events := sql_update (\<lambda>r. r = e) upd rows\<rparr>))"
proof -
  define rows where "rows = sql_update (spent now) (set_expired now) (events d)"
  define upd where "upd = set_delivering w tok (now + fin_val l) now"
  define pick where "pick = (\<lambda>e. deliverable now rows e \<and> (dia = Postgres \<longrightarrow> e_id e \<notin> set lk))"
  have ids: "distinct (map e_id rows)" using assms(1) by (simp add: rows_def map_sql_update set_expired_def)
  have upd_id: "e_id (upd r) = e_id r" for r by (simp add: upd_def set_delivering_def)
  show ?thesis
  proof (cases "sql_first pick event_order rows")
    case None
    with assms(2,3) show ?thesis
      by (cases dia) (auto simp: outbox_claim_def clean_def Let_def pick_def rows_def)
  next
    case (Some e)
    then have e: "e \<in> set rows" "due now e" by (auto dest: sql_first_Some simp: pick_def deliverable_def)
    define p :: "event \<Rightarrow> bool" where "p = (\<lambda>r. e_id r = e_id e \<and> due now r)"
    have eq: "e_id r = e_id e \<longleftrightarrow> r = e" if "r \<in> set rows" for r using event_by_id [OF ids that e(1)] by auto
    have p: "p r \<longleftrightarrow> r = e" if "r \<in> set rows" for r using eq [OF that] e(2) by (auto simp: p_def)
    note u = sql_update_one [OF ids e(1) upd_id p]
    note v = sql_update_one(1) [OF ids e(1) upd_id eq]
    show ?thesis
    proof (cases dia)
      case SQLite
      with Some assms(2,3) u show ?thesis
        unfolding rows_def [symmetric] upd_def [symmetric]
        by (simp add: outbox_claim_def clean_def Let_def pick_def find_event_def p_def [symmetric] upd_def [symmetric] rows_def [symmetric])
    next
      case Postgres
      with Some assms(2,3) u v show ?thesis
        unfolding rows_def [symmetric] upd_def [symmetric]
        by (simp add: outbox_claim_def clean_def Let_def pick_def find_event_def upd_def [symmetric] rows_def [symmetric])
    qed
  qed
qed

lemma outbox_claim_checks: "outbox_claim dia w l now tok lk d = Inr x \<Longrightarrow> is_clean w 255 \<and> lease_ok l = Inr ()"
  by (auto simp: outbox_claim_def)

lemma outbox_claim_rewrote:
  assumes "distinct (map e_id (events d))" and "outbox_claim dia w l now tok lk d = Inr (x, d')"
  shows "\<exists>rows. d' = d\<lparr>events := rows\<rparr> \<and> rows_rewrote (event_step (OClaim w l now tok lk)) (events d) rows"
proof -
  define rows where "rows = sql_update (spent now) (set_expired now) (events d)"
  define step where "step = event_step (OClaim w l now tok lk)"
  have 1: "rows_rewrote step (events d) rows"
    unfolding rows_def step_def by (intro rows_rewrote_update event_step.expired)
  have 2: "rows_rewrote step rows (sql_update (\<lambda>r. r = e) (set_delivering w tok (now + fin_val l) now) rows)" if "due now e" for e
    unfolding step_def using that by (intro rows_rewrote_update) (auto intro: event_step.delivering)
  from assms(2) outbox_claim_eq [OF assms(1), of w l dia now tok lk] outbox_claim_checks [OF assms(2)]
  have "d' = d\<lparr>events := rows\<rparr> \<or> (\<exists>e. due now e \<and>
      d' = d\<lparr>events := sql_update (\<lambda>r. r = e) (set_delivering w tok (now + fin_val l) now) rows\<rparr>)"
    by (auto simp: Let_def rows_def [symmetric] deliverable_def split: option.splits dest!: sql_first_Some)
  with 1 2 rows_rewrote_trans [OF 1 2] show ?thesis unfolding step_def [symmetric] by blast
qed

lemma outbox_heartbeat_rewrote:
  assumes "outbox_heartbeat i tok l now d = Inr (x, d')"
  shows "\<exists>rows. d' = d\<lparr>events := rows\<rparr> \<and> rows_rewrote (event_step (OHeartbeat i tok l now)) (events d) rows"
  using assms by (auto simp: outbox_heartbeat_def Let_def split: if_splits intro!: exI rows_rewrote_update event_step.beaten)

lemma outbox_finish_rewrote:
  assumes "distinct (map e_id (events d))" and "outbox_finish i tok err dl now d = Inr (x, d')" and "o_issued op = None"
  shows "\<exists>rows. d' = d\<lparr>events := rows\<rparr> \<and> rows_rewrote (event_step op) (events d) rows"
proof -
  from assms(2) obtain e where e: "find_event i d = Some e" by (auto simp: outbox_finish_def split: option.splits)
  have eq: "r = e" if "r \<in> set (events d)" "e_id r = i" for r
    using event_by_id [OF assms(1)] find_eventD [OF e] that by auto
  from assms(2) e show ?thesis
    by (auto simp: outbox_finish_def Let_def split: if_splits option.splits
        intro!: exI rows_rewrote_update event_step.reported [OF _ _ assms(3)] dest: eq)
qed

text \<open>Appending.\<close>

lemma insert_event_cases:
  assumes "insert_event dia e rows = Inr (ins, rows')"
  shows "if ins then rows' = rows @ [e] \<and> e_id e \<notin> e_id ` set rows \<and> (e_key e \<noteq> None \<longrightarrow> event_kid e \<notin> event_kid ` set rows)
         else rows' = rows"
  using assms by (auto simp: insert_event_def split: if_splits dialect.splits)

definition added :: "codec \<Rightarrow> outbox_op \<Rightarrow> outbox_db \<Rightarrow> outbox_db \<Rightarrow> bool" where
  "added c op d d' \<longleftrightarrow> (\<exists>e. o_new_id op = Some (e_id e) \<and> e_id e \<notin> e_id ` set (events d) \<and>
     (e_key e \<noteq> None \<longrightarrow> event_kid e \<notin> event_kid ` set (events d)) \<and> event_ok e \<and> e_status e = OUTBOX_PENDING \<and>
     events d' = events d @ [e] \<and>
     (if e_key e = None then event_keys d' = event_keys d
      else \<exists>k. event_keys d' = event_keys d @ [k] \<and> okey_kid k \<notin> okey_kid ` set (event_keys d) \<and>
             okey_kid k = event_kid e \<and> ok_event_id k = e_id e \<and> ok_fingerprint k = event_fp c e))"

lemma append_insert_cases:
  assumes "append_insert dia c e d = Inr (v, d')" and "event_ok e" and "e_status e = OUTBOX_PENDING" and "o_new_id op = Some (e_id e)"
  shows "d' = d \<or> added c op d d'"
proof -
  from assms(1) obtain ins rows where i: "insert_event dia e (events d) = Inr (ins, rows)"
    by (auto simp: append_insert_def)
  note cs = insert_event_cases [OF i]
  show ?thesis
  proof (cases ins)
    case False
    with assms(1) i show ?thesis by (auto simp: append_insert_def split: option.splits)
  next
    case True
    with assms(1) i have "event_keys d' = event_keys d \<and> e_key e = None \<and> events d' = rows \<or>
      (\<exists>k. event_keys d' = event_keys d @ [k] \<and> okey_kid k \<notin> okey_kid ` set (event_keys d) \<and> e_key e \<noteq> None \<and>
        okey_kid k = event_kid e \<and> ok_event_id k = e_id e \<and> ok_fingerprint k = event_fp c e \<and> events d' = rows)"
      by (auto simp: append_insert_def Let_def event_kid_def okey_kid_def split: option.splits if_splits)
    with True cs assms(2-4) show ?thesis unfolding added_def by (intro disjI2 exI [of _ e]) auto
  qed
qed

lemma append_existing_cases:
  assumes "outbox_inv c d" and "append_existing c e key d = Inr (found, d')"
  shows "d' = d \<and> (found = None \<longrightarrow> sql_find (\<lambda>k. okey_kid k = (e_tenant e, e_topic e, Some key)) (event_keys d) = None)"
proof (cases "sql_find (\<lambda>k. okey_kid k = (e_tenant e, e_topic e, Some key)) (event_keys d)")
  case None
  with assms(2) show ?thesis by (auto simp: append_existing_def)
next
  case (Some kr)
  from outbox_invD(5) [OF assms(1)] sql_find_Some [OF Some] obtain x where "x \<in> set (events d)" "e_id x = ok_event_id kr" by blast
  with find_event_in [OF assms(1)] have "find_event (ok_event_id kr) d = Some x" by metis
  with Some have "append_existing c e key d =
      (if ok_fingerprint kr \<noteq> event_fp c e then Inl (OutboxConflict reuse_msg) else Inr (Some x, d))"
    by (simp add: append_existing_def)
  with assms(2) show ?thesis by (auto split: if_splits)
qed

lemma new_event_sel [simp]:
  "e_id (new_event i t tp ty ai rv p h rd m k now) = i" "e_key (new_event i t tp ty ai rv p h rd m k now) = k"
  "e_status (new_event i t tp ty ai rv p h rd m k now) = OUTBOX_PENDING"
  "e_tenant (new_event i t tp ty ai rv p h rd m k now) = t" "e_topic (new_event i t tp ty ai rv p h rd m k now) = tp"
  by (simp_all add: new_event_def)

lemma new_event_ok: "1 \<le> m \<Longrightarrow> m \<le> 100 \<Longrightarrow> event_ok (new_event i t tp ty ai rv p h rd m k now)"
  by (simp add: event_ok_def new_event_def)

text \<open>A successful append with a key: the arguments were valid and it reduces to the lookup and the insertion.\<close>

lemma append_ok:
  assumes "outbox_append dia c t tp ty ai rv p h k m av now i d = Inr (v, d')"
  obtains pj hj rd where "1 \<le> m" "m \<le> 100"
    "case k of None \<Rightarrow> append_insert dia c (new_event i t tp ty ai rv pj hj rd m k now) d = Inr (v, d')
     | Some key \<Rightarrow> \<exists>found d1. append_existing c (new_event i t tp ty ai rv pj hj rd m k now) key d = Inr (found, d1) \<and>
         (case found of Some cur \<Rightarrow> v = Some cur \<and> d' = d1
          | None \<Rightarrow> append_insert dia c (new_event i t tp ty ai rv pj hj rd m k now) d1 = Inr (v, d'))"
proof (cases k)
  case None
  with assms that show thesis by (auto simp: outbox_append_def Let_def)
next
  case (Some key)
  define rd where "rd = fin_val (case av of None \<Rightarrow> Fin now | Some x \<Rightarrow> x)"
  from assms obtain pj hj where m: "1 \<le> m" "m \<le> 100" and enc: "encode_json c ''outbox payload'' p = Inr pj"
    "encode_json c ''outbox headers'' (JObj (case h of None \<Rightarrow> [] | Some h \<Rightarrow> h)) = Inr hj"
    by (auto simp: outbox_append_def)
  have b: "bindR (append_existing c (new_event i t tp ty ai rv pj hj rd m k now) key d) (\<lambda>(found, d').
         case found of Some cur \<Rightarrow> Inr (Some cur, d') | None \<Rightarrow> append_insert dia c (new_event i t tp ty ai rv pj hj rd m k now) d') = Inr (v, d')"
    using assms enc unfolding outbox_append_def Let_def Some rd_def by simp
  from b obtain found d1 where "append_existing c (new_event i t tp ty ai rv pj hj rd m k now) key d = Inr (found, d1)"
    "(case found of Some cur \<Rightarrow> Inr (Some cur, d1) | None \<Rightarrow> append_insert dia c (new_event i t tp ty ai rv pj hj rd m k now) d1) = Inr (v, d')"
    by auto
  with m that [of pj hj rd] Some show thesis by (cases found) auto
qed

lemma append_cases:
  assumes "outbox_inv c d" and "outbox_append dia c t tp ty ai rv p h k m av now i d = Inr (v, d')"
  shows "d' = d \<or> added c (Append t tp ty ai rv p h k m av now i) d d'"
  using assms(2)
proof (rule append_ok)
  fix pj hj rd
  define e where "e = new_event i t tp ty ai rv pj hj rd m k now"
  assume m: "1 \<le> m" "m \<le> 100" and k: "case k of None \<Rightarrow> append_insert dia c (new_event i t tp ty ai rv pj hj rd m k now) d = Inr (v, d')
     | Some key \<Rightarrow> \<exists>found d1. append_existing c (new_event i t tp ty ai rv pj hj rd m k now) key d = Inr (found, d1) \<and>
         (case found of Some cur \<Rightarrow> v = Some cur \<and> d' = d1
          | None \<Rightarrow> append_insert dia c (new_event i t tp ty ai rv pj hj rd m k now) d1 = Inr (v, d'))"
  have e: "event_ok e" "e_status e = OUTBOX_PENDING" "o_new_id (Append t tp ty ai rv p h k m av now i) = Some (e_id e)"
    using m by (simp_all add: e_def new_event_ok)
  from k append_existing_cases [OF assms(1)] have "d' = d \<or> append_insert dia c e d = Inr (v, d')"
    by (fastforce simp: e_def split: option.splits)
  with append_insert_cases [OF _ e] show ?thesis by blast
qed

lemma outbox_inv_added:
  assumes "outbox_inv c d" and "added c op d d'"
  shows "outbox_inv c d'"
proof -
  note inv = outbox_invD [OF assms(1)]
  from assms(2) obtain e where e: "e_id e \<notin> e_id ` set (events d)" "event_ok e" "events d' = events d @ [e]"
    and ks: "if e_key e = None then event_keys d' = event_keys d
      else \<exists>k. event_keys d' = event_keys d @ [k] \<and> okey_kid k \<notin> okey_kid ` set (event_keys d) \<and>
             okey_kid k = event_kid e \<and> ok_event_id k = e_id e \<and> ok_fingerprint k = event_fp c e"
    unfolding added_def by blast
  have sub: "set (event_keys d) \<subseteq> set (event_keys d')" using ks by (auto split: if_splits)
  have 1: "distinct (map okey_kid (event_keys d'))" using ks inv(2) by (auto split: if_splits)
  have 2: "e_key e \<noteq> None \<longrightarrow> bound_by c (event_keys d') e" using ks by (auto simp: bound_by_def split: if_splits)
  have 3: "bound_by c (event_keys d') x" if "bound_by c (event_keys d) x" for x
    using that sub by (auto simp: bound_by_def)
  have 4: "\<exists>x \<in> set (events d'). e_id x = ok_event_id k \<and> event_kid x = okey_kid k" if "k \<in> set (event_keys d')" for k
    using that ks inv(5) e(3) by (auto split: if_splits) (metis option.distinct(1))+
  have 5: "distinct (map e_id (events d'))" using inv(1) e by simp
  have 6: "event_ok x \<and> (e_key x \<noteq> None \<longrightarrow> bound_by c (event_keys d') x)" if "x \<in> set (events d')" for x
    using that e(2,3) 2 3 inv(3,4) by auto
  from 1 4 5 6 show ?thesis unfolding outbox_inv_def by blast
qed

text \<open>Pruning.\<close>

lemma drop_fold: 
  "fold (drop_event before) rows d =
     d\<lparr>event_keys := filter (\<lambda>k. ok_event_id k \<notin> e_id ` set rows) (event_keys d),
       events := filter (\<lambda>e. \<not> (e_id e \<in> e_id ` set rows \<and> old_delivered before e)) (events d)\<rparr>"
proof (induction rows arbitrary: d)
  case (Cons row rows)
  have "fold (drop_event before) (row # rows) d = fold (drop_event before) rows (drop_event before row d)" by simp
  also note Cons
  finally show ?case by (simp add: drop_event_def [of before row d]) (auto intro!: filter_cong arg_cong2 [where f = "\<lambda>ks es. d\<lparr>event_keys := ks, events := es\<rparr>"])
qed simp

lemma prune_delivered_eq:
  assumes "prune_delivered before n d = Inr (x, d')"
  shows "\<exists>rows. set rows \<subseteq> {e \<in> set (events d). old_delivered (fin_val before) e} \<and>
    d' = d\<lparr>event_keys := filter (\<lambda>k. ok_event_id k \<notin> e_id ` set rows) (event_keys d),
       events := filter (\<lambda>e. \<not> (e_id e \<in> e_id ` set rows \<and> old_delivered (fin_val before) e)) (events d)\<rparr>"
  using assms sql_select_set [of "old_delivered (fin_val before)" "\<lambda>e. (the_default 0 (e_delivered_at e), e_id e)" "nat n" "events d"]
  by (auto simp: prune_delivered_def Let_def drop_fold)

lemma outbox_inv_pruned:
  assumes "outbox_inv c d" and "prune_delivered before n d = Inr (x, d')"
  shows "outbox_inv c d'"
proof -
  note inv = outbox_invD [OF assms(1)]
  from prune_delivered_eq [OF assms(2)] obtain rows where rows: "set rows \<subseteq> {e \<in> set (events d). old_delivered (fin_val before) e}"
    and d': "d' = d\<lparr>event_keys := filter (\<lambda>k. ok_event_id k \<notin> e_id ` set rows) (event_keys d),
       events := filter (\<lambda>e. \<not> (e_id e \<in> e_id ` set rows \<and> old_delivered (fin_val before) e)) (events d)\<rparr>" by blast
  have gone: "e_id e \<notin> e_id ` set rows" if "e \<in> set (events d')" for e
  proof
    assume "e_id e \<in> e_id ` set rows"
    then obtain r where r: "r \<in> set rows" "e_id r = e_id e" by auto
    with rows that d' event_by_id [OF inv(1), of r e] have "r = e" by auto
    with r rows that d' show False by auto
  qed
  have 1: "bound_by c (event_keys d') e" if "e \<in> set (events d')" "e_key e \<noteq> None" for e
  proof -
    have "bound_by c (event_keys d) e" using inv(4) [of e] that d' by auto
    then obtain k where k: "k \<in> set (event_keys d)" "okey_kid k = event_kid e" "ok_event_id k = e_id e" "ok_fingerprint k = event_fp c e"
      by (auto simp: bound_by_def)
    with gone [OF that(1)] have "k \<in> set (event_keys d')" by (simp add: d')
    with k show ?thesis by (auto simp: bound_by_def)
  qed
  have 2: "\<exists>e \<in> set (events d'). e_id e = ok_event_id k \<and> event_kid e = okey_kid k" if "k \<in> set (event_keys d')" for k
  proof -
    from inv(5) [of k] that d' obtain e where "e \<in> set (events d)" "e_id e = ok_event_id k" "event_kid e = okey_kid k" by auto
    moreover from this that have "e \<in> set (events d')" by (auto simp: d')
    ultimately show ?thesis by blast
  qed
  from 1 2 inv(1-3) show ?thesis unfolding outbox_inv_def by (auto simp: d' distinct_map_filter)
qed

lemma outbox_exec_cases:
  assumes "outbox_inv c d"
  obtains (rewrote) rows where "outbox_exec dia c op d = d\<lparr>events := rows\<rparr>" "rows_rewrote (event_step op) (events d) rows"
  | (added) "added c op d (outbox_exec dia c op d)"
  | (pruned) before n x where "op = OPrune before n" "prune_delivered before n d = Inr (x, outbox_exec dia c op d)"
proof (cases "outbox_exec dia c op d = d")
  case True
  then show thesis using rewrote [of "events d"] by simp
next
  case False
  note ids = outbox_invD(1) [OF assms]
  have ok: "\<exists>x. r = Inr (x, committed r d)" if "committed r d \<noteq> d" for r :: "('x \<times> outbox_db) res"
    using that by (cases r) auto
  show thesis
  proof (cases op)
    case (Append t tp ty ai rv p h k m av now i)
    with False obtain v where "outbox_append dia c t tp ty ai rv p h k m av now i d = Inr (v, outbox_exec dia c op d)"
      by (cases "outbox_append dia c t tp ty ai rv p h k m av now i d") auto
    from append_cases [OF assms this] False Append show thesis using added by blast
  next
    case (OClaim w l now tok lk)
    with False obtain v where "outbox_claim dia w l now tok lk d = Inr (v, outbox_exec dia c op d)"
      by (cases "outbox_claim dia w l now tok lk d") auto
    from outbox_claim_rewrote [OF ids this] OClaim show thesis using rewrote by blast
  next
    case (OHeartbeat i tok l now)
    with False obtain v where "outbox_heartbeat i tok l now d = Inr (v, outbox_exec dia c op d)"
      by (cases "outbox_heartbeat i tok l now d") auto
    from outbox_heartbeat_rewrote [OF this] OHeartbeat show thesis using rewrote by blast
  next
    case (ODelivered i tok now)
    with False obtain v where "outbox_finish i tok None 0 now d = Inr (v, outbox_exec dia c op d)"
      by (cases "outbox_finish i tok None 0 now d") (auto simp: delivered_def)
    from outbox_finish_rewrote [OF ids this, of op] ODelivered show thesis using rewrote by auto
  next
    case (OFailed i tok e dl now)
    with False obtain v where "outbox_failed i tok e dl now d = Inr (v, outbox_exec dia c op d)"
      by (cases "outbox_failed i tok e dl now d") auto
    then have "outbox_finish i tok (Some e) (fin_val dl) now d = Inr (v, outbox_exec dia c op d)" by (simp add: outbox_failed_def)
    from outbox_finish_rewrote [OF ids this, of op] OFailed show thesis using rewrote by auto
  next
    case (OPrune b n)
    with False obtain v where "prune_delivered b n d = Inr (v, outbox_exec dia c op d)"
      by (cases "prune_delivered b n d") auto
    with OPrune show thesis using pruned by blast
  qed
qed

lemma outbox_inv_exec:
  assumes "outbox_inv c d"
  shows "outbox_inv c (outbox_exec dia c op d)"
  using assms
proof (cases rule: outbox_exec_cases [of c d dia op])
  case (rewrote rows)
  then show ?thesis using outbox_inv_rewrote [OF assms rewrote(2)] by simp
next
  case added
  with assms show ?thesis by (rule outbox_inv_added)
next
  case (pruned before n x)
  with assms show ?thesis by (blast intro: outbox_inv_pruned)
qed

lemma outbox_inv_empty: "outbox_inv c empty_outbox"
  by (simp add: outbox_inv_def empty_outbox_def)

lemma outbox_inv_run: "outbox_inv c d \<Longrightarrow> outbox_inv c (outbox_run dia c ops d)"
  unfolding outbox_run_def by (induction ops arbitrary: d) (simp_all add: outbox_inv_exec)

end
