(* ===== verification/HA_Outbox_Props.thy ===== *)
theory HA_Outbox_Props
  imports HA_Outbox_Machine
begin

text \<open>
  What the outbox promises: well-formed tables, in-order delivery within an aggregate, lease fencing,
  idempotent append while the event is retained, and what one dispatcher cycle does.
\<close>

section \<open>Leases\<close>

datatype outbox_commit = CommitDelivered real | CommitFailed string pyfloat real | CommitRenew pyfloat real

fun outbox_commit_exec :: "outbox_commit \<Rightarrow> string \<Rightarrow> string \<Rightarrow> outbox_db \<Rightarrow> (unit \<times> outbox_db) res" where
  "outbox_commit_exec (CommitDelivered now) i tok d = bindR (delivered i tok now d) (\<lambda>(_, d'). Inr ((), d'))"
| "outbox_commit_exec (CommitFailed e dl now) i tok d = bindR (outbox_failed i tok e dl now d) (\<lambda>(_, d'). Inr ((), d'))"
| "outbox_commit_exec (CommitRenew l now) i tok d = outbox_heartbeat i tok l now d"

definition holds_event :: "string \<Rightarrow> string \<Rightarrow> outbox_db \<Rightarrow> bool" where
  "holds_event i tok d \<longleftrightarrow> (\<exists>e \<in> set (events d). e_id e = i \<and> e_lease_token e = Some tok)"

lemma outbox_finish_holds: "outbox_finish i tok err dl now d = Inr x \<Longrightarrow> holds_event i tok d"
  by (cases "find_event i d") (auto simp: outbox_finish_def holds_event_def dest: find_eventD split: if_splits)

lemma outbox_heartbeat_holds:
  assumes "outbox_heartbeat i tok l now d = Inr x"
  shows "holds_event i tok d"
proof -
  define p :: "event \<Rightarrow> bool" where "p = (\<lambda>r. e_id r = i \<and> e_status r = OUTBOX_DELIVERING \<and> e_lease_token r = Some tok \<and>
    null_gt (e_lease_expires_at r) now)"
  from assms have "sql_count p (events d) = 1"
    by (auto simp: outbox_heartbeat_def Let_def p_def split: if_splits)
  then have "filter p (events d) \<noteq> []" by (auto simp: sql_count_def)
  then show ?thesis by (auto simp: filter_empty_conv holds_event_def p_def)
qed

lemma outbox_commit_holds: "outbox_commit_exec k i tok d = Inr x \<Longrightarrow> holds_event i tok d"
  by (cases k) (auto simp: delivered_def outbox_failed_def intro: outbox_finish_holds outbox_heartbeat_holds)

lemma outbox_exec_origin:
  assumes "outbox_inv c d" and "e' \<in> set (events (outbox_exec dia c op d))"
  shows "(\<exists>e \<in> set (events d). (event_step op)\<^sup>*\<^sup>* e e') \<or>
    o_new_id op = Some (e_id e') \<and> e_status e' = OUTBOX_PENDING \<and> event_ok e'"
  using assms(1)
proof (cases rule: outbox_exec_cases [of c d dia op])
  case (rewrote rows)
  with assms(2) rows_rewrote_back show ?thesis by fastforce
next
  case added
  with assms(2) show ?thesis by (auto simp: added_def)
next
  case (pruned before n x)
  from prune_delivered_eq [OF pruned(2)] assms(2) show ?thesis by auto
qed

lemma outbox_exec_token:
  assumes "outbox_inv c d" and "e' \<in> set (events (outbox_exec dia c op d))" and "e_lease_token e' = Some t"
  shows "o_issued op = Some t \<or> (\<exists>e \<in> set (events d). e_id e = e_id e' \<and> e_lease_token e = Some t)"
  using outbox_exec_origin [OF assms(1,2)]
proof
  assume "\<exists>e \<in> set (events d). (event_step op)\<^sup>*\<^sup>* e e'"
  then obtain e where e: "e \<in> set (events d)" "(event_step op)\<^sup>*\<^sup>* e e'" by blast
  have "e_id e = e_id e'" using event_star_ident [OF e(2)] by (simp add: event_ident_def)
  with e event_star_token [OF e(2) assms(3)] show ?thesis by blast
qed (use assms(3) in \<open>auto simp: event_ok_def\<close>)

interpretation outbox_leases: lease_store "outbox_inv c" events e_id e_lease_token "outbox_exec dia c" o_issued
    outbox_commit_exec for dia c
  using outbox_commit_holds by unfold_locales (auto simp: holds_event_def outbox_inv_exec dest: outbox_exec_token)

section \<open>Idempotency keys\<close>

lemma find_okey:
  assumes "outbox_inv c d" and "e \<in> set (events d)" and "event_kid e = (t, tp, Some k)"
  shows "\<exists>kr. sql_find (\<lambda>k'. okey_kid k' = (t, tp, Some k)) (event_keys d) = Some kr \<and> ok_event_id kr = e_id e \<and>
    ok_fingerprint kr = event_fp c e"
proof -
  have "e_key e \<noteq> None" using assms(3) by (simp add: event_kid_def)
  with outbox_invD(4) [OF assms(1,2)] obtain kr where kr: "kr \<in> set (event_keys d)" "okey_kid kr = event_kid e"
    "ok_event_id kr = e_id e" "ok_fingerprint kr = event_fp c e" by (auto simp: bound_by_def)
  from sql_find_unique [OF outbox_invD(2) [OF assms(1)] kr(1)] kr assms(3) show ?thesis by simp
qed

lemma append_again:
  assumes "outbox_inv c d" and "e \<in> set (events d)" and "event_kid e = (t, tp, Some k)"
    and "is_clean t 255" and "is_clean tp 200" and "is_clean ty 128" and "is_clean ai 512" and "0 \<le> rv"
    and "1 \<le> m" and "m \<le> 100" and "is_clean k 512" and "0 \<le> now"
    and "encode_json c ''outbox payload'' p = Inr pj" and "encode_json c ''outbox headers'' (JObj h) = Inr hj"
  shows "outbox_append dia c t tp ty ai rv p (Some h) (Some k) m None now i d =
    (if fingerprint c ty ai rv pj hj = event_fp c e then Inr (Some e, d) else Inl (OutboxConflict reuse_msg))"
proof -
  from find_okey [OF assms(1-3)] obtain kr where kr: "sql_find (\<lambda>k'. okey_kid k' = (t, tp, Some k)) (event_keys d) = Some kr"
    "ok_event_id kr = e_id e" "ok_fingerprint kr = event_fp c e" by blast
  from kr find_event_in [OF assms(1,2)] have
    "append_existing c (new_event i t tp ty ai rv pj hj now m (Some k) now) k d =
      (if fingerprint c ty ai rv pj hj = event_fp c e then Inr (Some e, d) else Inl (OutboxConflict reuse_msg))"
    by (auto simp: append_existing_def event_fp_def new_event_def)
  with assms(4-14) show ?thesis
    by (simp add: outbox_append_def clean_def clean_opt_def)
qed

section \<open>An example\<close>

definition ob_codec :: codec where
  "ob_codec = \<lparr>float_repr = (\<lambda>_. ''0.0''), sha256 = (\<lambda>s. s)\<rparr>"

text \<open>Two events of one aggregate, revisions 1 and 2; the first is available later than the second.\<close>

definition ob_event :: "string \<Rightarrow> int \<Rightarrow> real \<Rightarrow> event" where
  "ob_event i rv ready = new_event i ''t'' ''kb'' ''doc'' ''a'' rv (JInt 7) (JObj []) ready 2 None 10"

definition ob_demo :: outbox_db where
  "ob_demo = \<lparr>events = [ob_event ''evt-1'' 1 10, ob_event ''evt-2'' 2 5], event_keys = []\<rparr>"

definition ob_claimed :: outbox_db where
  "ob_claimed = \<lparr>events = [set_delivering ''w'' ''tok'' 80 20 (ob_event ''evt-1'' 1 10), ob_event ''evt-2'' 2 5], event_keys = []\<rparr>"

lemma ob_inv: "outbox_inv c ob_demo"
  by (simp add: outbox_inv_def ob_demo_def ob_event_def new_event_ok)

lemma ob_names: "is_clean ''w'' 255" "is_clean ''evt-1'' 255" "is_clean ''tok'' 512" "is_clean ''old'' 512"
  "is_clean ''t'' 255" "is_clean ''kb'' 200" "is_clean ''doc'' 128" "is_clean ''a'' 512" "is_clean ''k'' 512"
  by code_simp+

lemma ob_claim: "outbox_claim SQLite ''w'' (Fin 60) 20 ''tok'' [] ob_demo =
    Inr (Some (set_delivering ''w'' ''tok'' 80 20 (ob_event ''evt-1'' 1 10)), ob_claimed)"
  by (simp add: outbox_claim_def clean_def lease_ok_def ob_names ob_demo_def ob_claimed_def ob_event_def new_event_def
      sql_update_def spent_def sql_first_def deliverable_def due_def blocks_def same_aggregate_def before_event_def
      sql_count_def find_event_def set_delivering_def Let_def)

section \<open>Properties\<close>

text \<open>Every state the outbox can reach from the empty tables is well formed: event identifiers and
  idempotency keys are unique, exactly the events being delivered carry a complete lease, exactly the
  delivered ones have a delivery time, attempts stay within the maximum, a pending event has attempts left
  and a dead letter has none, and key rows and keyed events correspond one to one with the right fingerprint.\<close>

theorem outbox_reachable_invariant: "outbox_inv c (outbox_run dia c ops empty_outbox)"
  by (intro outbox_inv_run outbox_inv_empty)

text \<open>C17. Delivery never overtakes: when \<open>claim\<close> hands out an event, every earlier event of the same tenant,
  topic and aggregate (by revision, then creation time, then identifier) that is still in the table has been
  delivered; pending, in-flight and dead-letter events block all later ones.\<close>

theorem outbox_claim_in_order:
  assumes "outbox_inv c d" and "outbox_claim dia w l now tok lk d = Inr (Some e, d')"
  shows "e \<in> set (events d') \<and> e_status e = OUTBOX_DELIVERING \<and> e_lease_token e = Some tok \<and>
    (\<forall>p \<in> set (events d'). same_aggregate p e \<and> before_event p e \<longrightarrow> e_status p = OUTBOX_DELIVERED)"
proof -
  define rows where "rows = sql_update (spent now) (set_expired now) (events d)"
  define upd where "upd = set_delivering w tok (now + fin_val l) now"
  from assms(2) outbox_claim_eq [OF outbox_invD(1) [OF assms(1)], of w l dia now tok lk] outbox_claim_checks [OF assms(2)]
  obtain r where r: "r \<in> set rows" "deliverable now rows r" "e = upd r" and d': "events d' = sql_update (\<lambda>x. x = r) upd rows"
    by (auto simp: Let_def rows_def [symmetric] upd_def [symmetric] split: option.splits dest!: sql_first_Some)
  have "e_status p = OUTBOX_DELIVERED" if p: "p \<in> set (events d')" "same_aggregate p e" "before_event p e" for p
  proof -
    from p(1) obtain q where q: "q \<in> set rows" "p = (if q = r then upd q else q)" unfolding d' by (blast dest: sql_update_in)
    have "q \<noteq> r" using p(3) q r(3) by (auto simp: before_event_def)
    then have "same_aggregate q r" "before_event q r" "p = q"
      using p q r(3) by (auto simp: same_aggregate_def before_event_def upd_def set_delivering_def)
    moreover have "\<not> blocks q r" using r(2) q(1) by (auto simp: deliverable_def list_ex_iff)
    ultimately show ?thesis by (cases "e_status p") (auto simp: blocks_def)
  qed
  moreover have "e \<in> set (events d')" using r by (auto simp: d' sql_update_def)
  ultimately show ?thesis using r(3) by (simp add: upd_def set_delivering_def)
qed

theorem outbox_claim_in_order_witness:
  "let p = (ob_event ''evt-0'' 0 1)\<lparr>e_status := OUTBOX_DELIVERED, e_attempt := 1, e_delivered_at := Some 15\<rparr>;
       d = ob_demo\<lparr>events := p # events ob_demo\<rparr>
   in outbox_inv ob_codec d \<and> (\<exists>e d'. outbox_claim SQLite ''w'' (Fin 60) 20 ''tok'' [] d = Inr (Some e, d') \<and>
        e_id e = ''evt-1'' \<and> e_status (hd (events d')) = OUTBOX_DELIVERED)"
proof -
  define p where "p = (ob_event ''evt-0'' 0 1)\<lparr>e_status := OUTBOX_DELIVERED, e_attempt := 1, e_delivered_at := Some 15\<rparr>"
  define d where "d = ob_demo\<lparr>events := p # events ob_demo\<rparr>"
  define e where "e = set_delivering ''w'' ''tok'' 80 20 (ob_event ''evt-1'' 1 10)"
  have inv: "outbox_inv ob_codec d"
    by (simp add: outbox_inv_def d_def p_def ob_demo_def ob_event_def new_event_ok) (simp add: event_ok_def new_event_def)
  have cl: "outbox_claim SQLite ''w'' (Fin 60) 20 ''tok'' [] d = Inr (Some e, \<lparr>events = [p, e, ob_event ''evt-2'' 2 5], event_keys = []\<rparr>)"
    by (simp add: outbox_claim_def clean_def lease_ok_def ob_names d_def p_def e_def ob_demo_def ob_event_def new_event_def
      sql_update_def spent_def sql_first_def deliverable_def due_def blocks_def same_aggregate_def before_event_def
      sql_count_def find_event_def set_delivering_def Let_def)
  have "same_aggregate p e" "before_event p e"
    by (simp_all add: same_aggregate_def before_event_def p_def e_def ob_event_def new_event_def set_delivering_def)
  with outbox_claim_in_order [OF inv cl] have "e_status p = OUTBOX_DELIVERED" by simp
  moreover have "e_id e = ''evt-1''" by (simp add: e_def set_delivering_def ob_event_def)
  ultimately show ?thesis unfolding Let_def p_def [symmetric] d_def [symmetric] using inv cl by auto
qed

text \<open>Fencing: once an event no longer carries a worker's lease token, then after any further operations that
  do not issue that token again the worker can neither report delivery nor failure nor renew the lease.\<close>

theorem outbox_lost_lease_never_commits:
  assumes "outbox_inv c d" and "\<not> holds_event i tok d" and "\<forall>op \<in> set ops. o_issued op \<noteq> Some tok"
  shows "\<not> is_ok (delivered i tok now (outbox_run dia c ops d))
    \<and> \<not> is_ok (outbox_failed i tok err dl now (outbox_run dia c ops d))
    \<and> \<not> is_ok (outbox_heartbeat i tok l now (outbox_run dia c ops d))"
proof -
  have run: "outbox_leases.run dia c ops d = outbox_run dia c ops d"
    by (simp add: outbox_leases.run_def outbox_run_def)
  have "\<not> outbox_leases.holds i tok d" using assms(2) by (simp add: outbox_leases.holds_def holds_event_def)
  note lost = outbox_leases.lost_commit [OF assms(1) this assms(3), of _ dia, unfolded run]
  from lost [of "CommitDelivered now"] lost [of "CommitFailed err dl now"] lost [of "CommitRenew l now"]
  show ?thesis by (auto simp: is_ok_def split: sum.splits)
qed

theorem outbox_lost_lease_never_commits_witness:
  "\<not> is_ok (delivered ''evt-1'' ''old'' 30 (outbox_run SQLite ob_codec [OClaim ''w'' (Fin 60) 20 ''tok'' []] ob_demo))"
proof -
  have "\<not> holds_event ''evt-1'' ''old'' ob_demo"
    by (simp add: holds_event_def ob_demo_def ob_event_def new_event_def)
  from outbox_lost_lease_never_commits [OF ob_inv this, of "[OClaim ''w'' (Fin 60) 20 ''tok'' []]" 30 SQLite ob_codec]
  show ?thesis by simp
qed

text \<open>Appending is idempotent while the event is retained: appending under a key whose event is still in the
  table returns that event and changes nothing if aggregate, revision, payload and headers have the same
  fingerprint, and is refused with a conflict otherwise.\<close>

theorem outbox_append_idempotent:
  assumes "outbox_inv c d" and "e \<in> set (events d)" and "event_kid e = (t, tp, Some k)"
    and "is_clean t 255" and "is_clean tp 200" and "is_clean ty 128" and "is_clean ai 512" and "0 \<le> rv"
    and "1 \<le> m" and "m \<le> 100" and "is_clean k 512" and "0 \<le> now"
    and "encode_json c ''outbox payload'' p = Inr pj" and "encode_json c ''outbox headers'' (JObj h) = Inr hj"
  shows "outbox_append dia c t tp ty ai rv p (Some h) (Some k) m None now i d =
    (if fingerprint c ty ai rv pj hj = event_fp c e then Inr (Some e, d) else Inl (OutboxConflict reuse_msg))"
  using append_again [OF assms] .

theorem outbox_append_idempotent_witness:
  "let e = new_event ''evt-1'' ''t'' ''kb'' ''doc'' ''a'' 1 (JInt 7) (JObj []) 10 2 (Some ''k'') 10;
       d = \<lparr>events = [e], event_keys = [\<lparr>ok_tenant = ''t'', ok_topic = ''kb'', ok_key = ''k'', ok_event_id = ''evt-1'',
              ok_fingerprint = event_fp ob_codec e, ok_created_at = 10\<rparr>]\<rparr>
   in outbox_append SQLite ob_codec ''t'' ''kb'' ''doc'' ''a'' 1 (JInt 7) (Some []) (Some ''k'') 2 None 30 ''evt-9'' d = Inr (Some e, d)"
proof -
  define e where "e = new_event ''evt-1'' ''t'' ''kb'' ''doc'' ''a'' 1 (JInt 7) (JObj []) 10 2 (Some ''k'') 10"
  define d where "d = \<lparr>events = [e], event_keys = [\<lparr>ok_tenant = ''t'', ok_topic = ''kb'', ok_key = ''k'', ok_event_id = ''evt-1'',
              ok_fingerprint = event_fp ob_codec e, ok_created_at = 10\<rparr>]\<rparr>"
  have inv: "outbox_inv ob_codec d" "e \<in> set (events d)" "event_kid e = (''t'', ''kb'', Some ''k'')"
    by (simp_all add: outbox_inv_def d_def e_def new_event_ok bound_by_def okey_kid_def event_kid_def)
  have enc: "encode_json ob_codec w (JInt 7) = Inr (JInt 7)" "encode_json ob_codec w (JObj []) = Inr (JObj [])" for w
    by (simp_all add: encode_json_def json_dumps_def show_int_def show_nat.simps utf8_len_def ob_codec_def)
  from outbox_append_idempotent [OF inv ob_names(5-8), of 1 2 30 "JInt 7" "JInt 7" "[]" "JObj []" SQLite "''evt-9''"]
  show ?thesis unfolding Let_def e_def [symmetric] d_def [symmetric]
    by (simp add: ob_names enc) (simp add: e_def event_fp_def new_event_def)
qed

text \<open>One undisturbed dispatcher cycle reports what the handler did: the claimed event is handed to the handler
  once; if the handler returns, exactly that event becomes delivered; if it raises, the event goes back to
  pending with the retry delay, or becomes a dead letter when its attempts are used up; no other event changes.\<close>

theorem run_once_reports:
  assumes "outbox_inv c d" and "outbox_claim dia w l now tok lk d = Inr (Some ev, d1)"
    and "is_clean (e_id ev) 255" and "is_clean tok 512" and "now' < now + fin_val l" and "0 \<le> now'"
    and "case handler (e_topic ev) (e_payload ev) (e_headers ev) (e_id ev) of None \<Rightarrow> True | Some name \<Rightarrow> is_clean name 512"
  shows "let err = handler (e_topic ev) (e_payload ev) (e_headers ev) (e_id ev);
             delay = (if err = None then 0 else fin_val (report_delay rd (e_attempt ev)))
    in run_once dia handler rd w l now tok lk [] id now' d =
      (Inr True, [e_id ev], d1\<lparr>events := map (\<lambda>r. if r = ev then set_outcome (outbox_outcome ev err) err delay now' ev else r) (events d1)\<rparr>)"
proof -
  define rows where "rows = sql_update (spent now) (set_expired now) (events d)"
  define upd where "upd = set_delivering w tok (now + fin_val l) now"
  from assms(2) outbox_claim_eq [OF outbox_invD(1) [OF assms(1)], of w l dia now tok lk] outbox_claim_checks [OF assms(2)]
  obtain r where r: "r \<in> set rows" "ev = upd r" and d1: "d1 = d\<lparr>events := sql_update (\<lambda>x. x = r) upd rows\<rparr>"
    by (auto simp: Let_def rows_def [symmetric] upd_def [symmetric] split: option.splits dest!: sql_first_Some)
  have inv: "outbox_inv c d1" using outbox_inv_exec [OF assms(1), of dia "OClaim w l now tok lk"] assms(2) by simp
  have ev: "ev \<in> set (events d1)" "e_status ev = OUTBOX_DELIVERING" "e_lease_token ev = Some tok"
    "e_lease_expires_at ev = Some (now + fin_val l)"
    using r by (auto simp: d1 sql_update_def upd_def set_delivering_def)
  define p :: "event \<Rightarrow> bool" where "p = (\<lambda>r. e_id r = e_id ev \<and> e_status r = OUTBOX_DELIVERING \<and> e_lease_token r = Some tok)"
  have p: "p x \<longleftrightarrow> x = ev" if "x \<in> set (events d1)" for x
    using event_by_id [OF outbox_invD(1) [OF inv] that ev(1)] ev by (auto simp: p_def)
  have fin: "outbox_finish (e_id ev) tok err dl now' d1 =
    Inr (Some (set_outcome (outbox_outcome ev err) err dl now' ev),
         d1\<lparr>events := map (\<lambda>r. if r = ev then set_outcome (outbox_outcome ev err) err dl now' ev else r) (events d1)\<rparr>)" for err dl
  proof -
    define f where "f = set_outcome (outbox_outcome ev err) err dl now'"
    have f_id: "e_id (f x) = e_id x" for x by (simp add: f_def set_outcome_def)
    note u = sql_update_one [OF outbox_invD(1) [OF inv] ev(1) f_id p]
    have "sql_update (\<lambda>x. x = ev) f (events d1) = map (\<lambda>r. if r = ev then f ev else r) (events d1)" by (auto simp: sql_update_def)
    with u find_event_in [OF inv ev(1)] ev assms(3-5) show ?thesis
      unfolding f_def [symmetric] by (simp add: outbox_finish_def clean_def Let_def p_def [symmetric] f_def [symmetric] find_event_def)
  qed
  show ?thesis
  proof (cases "handler (e_topic ev) (e_payload ev) (e_headers ev) (e_id ev)")
    case None
    with assms(2) ev(3) fin show ?thesis by (simp add: run_once_def delivered_def Let_def)
  next
    case (Some name)
    have "isfinite (report_delay rd (e_attempt ev)) \<and> 0 \<le> fin_val (report_delay rd (e_attempt ev))"
      by (simp add: report_delay_def Let_def)
    with Some assms(2,7) ev(3) fin show ?thesis by (simp add: run_once_def outbox_failed_def clean_def Let_def)
  qed
qed

theorem run_once_reports_witness:
  "fst (run_once SQLite (\<lambda>_ _ _ _. None) (\<lambda>a. Fin (default_retry_delay a)) ''w'' (Fin 60) 20 ''tok'' [] [] id 30 ob_demo) = Inr True"
proof -
  have "is_clean (e_id (set_delivering ''w'' ''tok'' 80 20 (ob_event ''evt-1'' 1 10))) 255"
    using ob_names(2) by (simp add: set_delivering_def ob_event_def)
  from run_once_reports [OF ob_inv ob_claim this ob_names(3), of 30 "\<lambda>_ _ _ _. None"] show ?thesis by (simp add: Let_def)
qed

end
