(* ===== verification/HA_Cron.thy ===== *)
theory HA_Cron
  imports HA_Storage
begin

text \<open>
  Cron expressions (\<open>ha/scheduler.py\<close>: \<open>_cron_number\<close>, \<open>_cron_field\<close>, \<open>CronExpression\<close>) and the pieces of
  the Python library they use: \<open>str.split\<close>, \<open>str.partition\<close>, \<open>int(str)\<close>, \<open>float(str)\<close>, \<open>range\<close> and
  \<open>datetime\<close>.  An instant is a number of seconds since the epoch.  The IANA time-zone data is a parameter:
  the UTC offset, in seconds, of a zone at an instant.
\<close>

section \<open>Text\<close>

text \<open>\<open>s.split()\<close>\<close>

function split_ws :: "string \<Rightarrow> string list" where
  "split_ws s = (case dropWhile py_space s of [] \<Rightarrow> []
     | c # cs \<Rightarrow> takeWhile (\<lambda>x. \<not> py_space x) (c # cs) # split_ws (dropWhile (\<lambda>x. \<not> py_space x) (c # cs)))"
  by pat_completeness auto
termination
proof (relation "measure length", goal_cases)
  case (2 s c cs)
  have "\<not> py_space c" using 2 by (metis hd_dropWhile list.distinct(1) list.sel(1))
  moreover have "length (c # cs) \<le> length s" using length_dropWhile_le [of py_space s] 2 by simp
  ultimately show ?case using length_dropWhile_le [of "\<lambda>x. \<not> py_space x" cs] by simp
qed simp

declare split_ws.simps [simp del]

text \<open>\<open>s.partition(c)\<close> and \<open>s.split(c, 1)\<close>\<close>

definition partition_on :: "char \<Rightarrow> string \<Rightarrow> string \<times> bool \<times> string" where
  "partition_on c s = (takeWhile (\<lambda>x. x \<noteq> c) s, c \<in> set s, drop 1 (dropWhile (\<lambda>x. x \<noteq> c) s))"

definition is_digit :: "char \<Rightarrow> bool" where
  "is_digit c \<longleftrightarrow> 48 \<le> ord_char c \<and> ord_char c \<le> 57"

text \<open>Digits, with single underscores allowed between them: the value and the number of digits.\<close>

fun digits :: "bool \<Rightarrow> nat \<Rightarrow> nat \<Rightarrow> string \<Rightarrow> (nat \<times> nat) option" where
  "digits after acc n [] = (if after then Some (acc, n) else None)"
| "digits after acc n (c # cs) =
     (if is_digit c then digits True (10 * acc + (ord_char c - 48)) (Suc n) cs
      else if c = CHR ''_'' \<and> after then digits False acc n cs else None)"

definition sign_of :: "string \<Rightarrow> int \<times> string" where
  "sign_of s = (case s of c # cs \<Rightarrow> if c = CHR ''-'' then (-1, cs) else if c = CHR ''+'' then (1, cs) else (1, s) | [] \<Rightarrow> (1, []))"

text \<open>\<open>int(s)\<close>, \<open>None\<close> for \<open>ValueError\<close>\<close>

definition py_int :: "string \<Rightarrow> int option" where
  "py_int s = (let (sg, ds) = sign_of (py_strip s) in map_option (\<lambda>(v, _). sg * int v) (digits False 0 0 ds))"

definition ascii_lower :: "char \<Rightarrow> char" where
  "ascii_lower c = (if 65 \<le> ord_char c \<and> ord_char c \<le> 90 then char_of (ord_char c + 32) else c)"

definition ascii_upper :: "char \<Rightarrow> char" where
  "ascii_upper c = (if 97 \<le> ord_char c \<and> ord_char c \<le> 122 then char_of (ord_char c - 32) else c)"

text \<open>\<open>float(s)\<close>, \<open>None\<close> for \<open>ValueError\<close>; a decimal literal denotes its exact value.\<close>

definition part_digits :: "string \<Rightarrow> (nat \<times> nat) option" where
  "part_digits s = (if s = [] then Some (0, 0) else digits False 0 0 s)"

definition py_float :: "string \<Rightarrow> pyfloat option" where
  "py_float s =
     (let (sg, t) = sign_of (map ascii_lower (py_strip s)) in
      if t = ''inf'' \<or> t = ''infinity'' then Some (if sg < 0 then NegInf else PosInf)
      else if t = ''nan'' then Some NaN
      else
        (let (mant, hasE, ex) = partition_on (CHR ''e'') t; (ip, _, fp) = partition_on (CHR ''.'') mant;
             (esg, eds) = sign_of ex
         in if ip = [] \<and> fp = [] then None
            else case (part_digits ip, part_digits fp, if hasE then digits False 0 0 eds else Some (0, 0)) of
                (Some (i, _), Some (f, n), Some (e, _)) \<Rightarrow>
                  Some (Fin (of_int sg * (of_nat i + of_nat f / 10 ^ n) * (if esg < 0 then 1 / 10 ^ e else 10 ^ e)))
              | _ \<Rightarrow> None))"

section \<open>Fields\<close>

definition MONTH_NAMES :: "(string \<times> int) list" where
  "MONTH_NAMES = [(''JAN'', 1), (''FEB'', 2), (''MAR'', 3), (''APR'', 4), (''MAY'', 5), (''JUN'', 6), (''JUL'', 7),
     (''AUG'', 8), (''SEP'', 9), (''OCT'', 10), (''NOV'', 11), (''DEC'', 12)]"

definition WEEKDAY_NAMES :: "(string \<times> int) list" where
  "WEEKDAY_NAMES = [(''SUN'', 0), (''MON'', 1), (''TUE'', 2), (''WED'', 3), (''THU'', 4), (''FRI'', 5), (''SAT'', 6)]"

definition cron_number :: "(string \<times> int) list \<Rightarrow> int \<Rightarrow> int \<Rightarrow> string \<Rightarrow> int res" where
  "cron_number names lo hi s =
     (case map_of names (map ascii_upper s) of
        Some v \<Rightarrow> Inr v
      | None \<Rightarrow>
          (case py_int s of
             None \<Rightarrow> Inl (ValueError ''cron field contains an invalid value'')
           | Some v \<Rightarrow>
               (let r = (if v = 7 \<and> hi = 6 then 0 else v)
                in if lo \<le> r \<and> r \<le> hi then Inr r else Inl (ValueError ''cron field value is out of range''))))"

text \<open>\<open>range(start, end + 1, step)\<close> for a positive step\<close>

definition py_range :: "int \<Rightarrow> int \<Rightarrow> int \<Rightarrow> int list" where
  "py_range start final step = map (\<lambda>k. start + step * int k) [0..<nat ((final - start) div step + 1)]"

definition cron_step :: "int \<Rightarrow> int \<Rightarrow> bool \<Rightarrow> string \<Rightarrow> int res" where
  "cron_step lo hi has raw =
     (if \<not> has then Inr 1
      else case py_int raw of
        None \<Rightarrow> Inl (ValueError ''cron step is invalid'')
      | Some step \<Rightarrow> if step < 1 \<or> hi - lo + 1 < step then Inl (ValueError ''cron step is out of range'') else Inr step)"

definition cron_bounds :: "(string \<times> int) list \<Rightarrow> int \<Rightarrow> int \<Rightarrow> string \<Rightarrow> (int \<times> int) res" where
  "cron_bounds names lo hi base =
     (if base = ''*'' then Inr (lo, hi)
      else if CHR ''-'' \<in> set base then
        (let (a, _, b) = partition_on (CHR ''-'') base in
         bindR (cron_number names lo hi a) (\<lambda>start.
         bindR (cron_number names lo hi b) (\<lambda>final.
         if final < start then Inl (ValueError ''cron ranges must be ascending'') else Inr (start, final))))
      else bindR (cron_number names lo hi base) (\<lambda>v. Inr (v, v)))"

definition cron_part :: "(string \<times> int) list \<Rightarrow> int \<Rightarrow> int \<Rightarrow> string \<Rightarrow> int list res" where
  "cron_part names lo hi part =
     (if part = [] then Inl (ValueError ''cron field contains an empty item'')
      else let (base, has, raw) = partition_on (CHR ''/'') part in
        bindR (cron_step lo hi has raw) (\<lambda>step.
        bindR (cron_bounds names lo hi base) (\<lambda>(start, final). Inr (py_range start final step))))"

fun cron_parts :: "(string \<times> int) list \<Rightarrow> int \<Rightarrow> int \<Rightarrow> string list \<Rightarrow> int list res" where
  "cron_parts names lo hi [] = Inr []"
| "cron_parts names lo hi (p # ps) =
     bindR (cron_part names lo hi p) (\<lambda>vs. bindR (cron_parts names lo hi ps) (\<lambda>ws. Inr (vs @ ws)))"

definition cron_field :: "(string \<times> int) list \<Rightarrow> int \<Rightarrow> int \<Rightarrow> string \<Rightarrow> (int list \<times> bool) res" where
  "cron_field names lo hi expr =
     bindR (cron_parts names lo hi (split_on (CHR '','') expr)) (\<lambda>vs.
       if vs = [] then Inl (ValueError ''cron field cannot be empty'') else Inr (vs, expr = ''*''))"

section \<open>Expressions and instants\<close>

record cron =
  c_minutes :: "int list"
  c_hours :: "int list"
  c_days :: "int list"
  c_days_wild :: bool
  c_months :: "int list"
  c_weekdays :: "int list"
  c_weekdays_wild :: bool

type_synonym zones = "string \<Rightarrow> (int \<Rightarrow> int) option"

definition parse_cron :: "zones \<Rightarrow> string \<Rightarrow> string \<Rightarrow> (cron \<times> (int \<Rightarrow> int)) res" where
  "parse_cron zones expr tz =
     (if 256 < length expr then Inl (ValueError ''cron expression is invalid'')
      else case split_ws expr of
        [p0, p1, p2, p3, p4] \<Rightarrow>
          (case zones tz of
             None \<Rightarrow> Inl (ValueError ''schedule timezone is invalid'')
           | Some off \<Rightarrow>
               bindR (cron_field [] 0 59 p0) (\<lambda>(mi, _).
               bindR (cron_field [] 0 23 p1) (\<lambda>(ho, _).
               bindR (cron_field [] 1 31 p2) (\<lambda>(da, daw).
               bindR (cron_field MONTH_NAMES 1 12 p3) (\<lambda>(mo, _).
               bindR (cron_field WEEKDAY_NAMES 0 6 p4) (\<lambda>(we, wew).
               Inr (\<lparr>c_minutes = mi, c_hours = ho, c_days = da, c_days_wild = daw, c_months = mo,
                     c_weekdays = we, c_weekdays_wild = wew\<rparr>, off)))))))
      | _ \<Rightarrow> Inl (ValueError ''cron expression must contain five fields''))"

text \<open>The proleptic Gregorian calendar: civil date of a day number (day 0 is 1970-01-01, a Thursday).\<close>

definition civil :: "int \<Rightarrow> int \<times> int \<times> int" where
  "civil day =
     (let z = day + 719468; era = z div 146097; doe = z mod 146097;
          yoe = (doe - doe div 1460 + doe div 36524 - doe div 146096) div 365;
          doy = doe - (365 * yoe + yoe div 4 - yoe div 100);
          mp = (5 * doy + 2) div 153; d = doy - (153 * mp + 2) div 5 + 1;
          m = (if mp < 10 then mp + 3 else mp - 9)
      in (yoe + era * 400 + (if m \<le> 2 then 1 else 0), m, d))"

definition leap :: "int \<Rightarrow> bool" where
  "leap y \<longleftrightarrow> y mod 4 = 0 \<and> (y mod 100 \<noteq> 0 \<or> y mod 400 = 0)"

text \<open>\<open>calendar.monthrange(year, month)[1]\<close>\<close>

definition month_days :: "int \<Rightarrow> int \<Rightarrow> int" where
  "month_days y m = (if m = 2 then (if leap y then 29 else 28) else if m \<in> {4, 6, 9, 11} then 30 else 31)"

record local_time =
  l_year :: int
  l_month :: int
  l_day :: int
  l_hour :: int
  l_minute :: int
  l_weekday :: int \<comment> \<open>Monday is 0\<close>

definition astimezone :: "(int \<Rightarrow> int) \<Rightarrow> int \<Rightarrow> local_time" where
  "astimezone off t =
     (let s = t + off t; day = s div 86400; (y, m, d) = civil day
      in \<lparr>l_year = y, l_month = m, l_day = d, l_hour = s mod 86400 div 3600, l_minute = s mod 3600 div 60,
          l_weekday = (day + 3) mod 7\<rparr>)"

definition cron_matches :: "cron \<Rightarrow> (int \<Rightarrow> int) \<Rightarrow> int \<Rightarrow> bool" where
  "cron_matches c off t =
     (let l = astimezone off t;
          day_matches = l_day l \<in> set (c_days c);
          weekday_matches = (l_weekday l + 1) mod 7 \<in> set (c_weekdays c);
          calendar_matches = (if \<not> c_days_wild c \<and> \<not> c_weekdays_wild c then day_matches \<or> weekday_matches
                              else day_matches \<and> weekday_matches)
      in l_minute l \<in> set (c_minutes c) \<and> l_hour l \<in> set (c_hours c) \<and> l_month l \<in> set (c_months c) \<and> calendar_matches)"

definition cron_hit :: "cron \<Rightarrow> (int \<Rightarrow> int) \<Rightarrow> int \<Rightarrow> bool" where
  "cron_hit c off t = (let l = astimezone off t in l_day l \<le> month_days (l_year l) (l_month l) \<and> cron_matches c off t)"

text \<open>\<open>datetime.fromtimestamp\<close> rounds to microseconds, ties to even; the result must be before year 10000.\<close>

definition round_even :: "real \<Rightarrow> int" where
  "round_even x = (let f = \<lfloor>x\<rfloor>; r = x - of_int f
     in if r < 1 / 2 then f else if 1 / 2 < r then f + 1 else if even f then f else f + 1)"

definition max_instant :: int where
  "max_instant = 253402300800"

definition first_candidate :: "real \<Rightarrow> int res" where
  "first_candidate epoch =
     (let us = round_even (epoch * 1000000) in
      if max_instant * 1000000 \<le> us then Inl (ValueError ''year is out of range'')
      else let t = (us div 60000000) * 60 + 60
        in if max_instant \<le> t then Inl OverflowError else Inr t)"

fun next_loop :: "cron \<Rightarrow> (int \<Rightarrow> int) \<Rightarrow> nat \<Rightarrow> int \<Rightarrow> int res" where
  "next_loop c off 0 t = Inl (ValueError ''cron expression has no occurrence within five years'')"
| "next_loop c off (Suc n) t =
     (if cron_hit c off t then Inr t
      else if max_instant \<le> t + 60 then Inl OverflowError
      else next_loop c off n (t + 60))"

definition five_years :: nat where
  "five_years = 2635200"

definition next_after :: "cron \<Rightarrow> (int \<Rightarrow> int) \<Rightarrow> pyfloat \<Rightarrow> int res" where
  "next_after c off epoch =
     bindR (guardR (isfinite epoch \<and> 0 \<le> fin_val epoch) (ValueError ''cron cursor is invalid'')) (\<lambda>_.
     bindR (first_candidate (fin_val epoch)) (\<lambda>t. next_loop c off five_years t))"

section \<open>Lemmas\<close>

lemma next_loop_Inr:
  "next_loop c off n t = Inr r \<Longrightarrow> \<exists>k < n. r = t + 60 * int k \<and> cron_hit c off r \<and> (\<forall>j < k. \<not> cron_hit c off (t + 60 * int j))"
proof (induction c off n t rule: next_loop.induct)
  case (2 c off n t)
  show ?case
  proof (cases "cron_hit c off t")
    case True
    with 2(2) show ?thesis by (intro exI [of _ 0]) simp
  next
    case False
    with 2 obtain k where k: "k < n" "r = t + 60 + 60 * int k" "cron_hit c off r" "\<forall>j < k. \<not> cron_hit c off (t + 60 + 60 * int j)"
      by (auto split: if_splits)
    have "\<not> cron_hit c off (t + 60 * int j)" if "j < Suc k" for j
      using that False k(4) by (cases j) (auto simp: algebra_simps)
    with k show ?thesis by (intro exI [of _ "Suc k"]) (auto simp: algebra_simps)
  qed
qed simp

lemma next_loop_hit: "0 < n \<Longrightarrow> cron_hit c off t \<Longrightarrow> next_loop c off n t = Inr t"
  by (cases n) simp_all

lemma next_loop_finds:
  "k < n \<Longrightarrow> cron_hit c off (t + 60 * int k) \<Longrightarrow> t + 60 * int k < max_instant \<Longrightarrow> is_ok (next_loop c off n t)"
proof (induction c off n t arbitrary: k rule: next_loop.induct)
  case (2 c off n t)
  show ?case
  proof (cases "cron_hit c off t")
    case False
    with 2(2-4) obtain k' where "k = Suc k'" by (cases k) auto
    with 2 False show ?thesis by (auto simp: algebra_simps)
  qed simp
qed simp

lemma py_int_nothing: "py_int [] = None"
  by (simp add: py_int_def py_strip_def sign_of_def)

lemma cron_number_range:
  "cron_number names lo hi s = Inr v \<Longrightarrow> \<forall>x \<in> snd ` set names. lo \<le> x \<and> x \<le> hi \<Longrightarrow> lo \<le> v \<and> v \<le> hi"
  by (auto simp: cron_number_def Let_def split: option.splits if_splits dest!: map_of_SomeD)

lemma cron_bounds_range:
  assumes "cron_bounds names lo hi b = Inr (x, y)" and "\<forall>x \<in> snd ` set names. lo \<le> x \<and> x \<le> hi" and "lo \<le> hi"
  shows "lo \<le> x \<and> x \<le> y \<and> y \<le> hi"
  using assms cron_number_range [OF _ assms(2)]
  by (auto simp: cron_bounds_def Let_def split: if_splits prod.splits)

lemma py_range_set:
  assumes s: "0 < step"
  shows "set (py_range a b step) = {v. a \<le> v \<and> v \<le> b \<and> (v - a) mod step = 0}"
proof (intro set_eqI iffI)
  fix v assume "v \<in> set (py_range a b step)"
  then have "v \<in> (\<lambda>k. a + step * int k) ` {0..<nat ((b - a) div step + 1)}" by (simp add: py_range_def)
  then obtain k where k: "v = a + step * int k" "k < nat ((b - a) div step + 1)" by (meson atLeastLessThan_iff imageE)
  then have "int k \<le> (b - a) div step" by simp
  with s have "step * int k \<le> step * ((b - a) div step)" by (simp add: mult_left_mono)
  also have "\<dots> \<le> b - a" using mult_div_mod_eq [of step "b - a"] pos_mod_sign [OF s, of "b - a"] by linarith
  finally show "v \<in> {v. a \<le> v \<and> v \<le> b \<and> (v - a) mod step = 0}" using s k by simp
next
  fix v assume "v \<in> {v. a \<le> v \<and> v \<le> b \<and> (v - a) mod step = 0}"
  then have v: "a \<le> v" "v \<le> b" "(v - a) mod step = 0" by auto
  define k where "k = nat ((v - a) div step)"
  have q: "0 \<le> (v - a) div step" using v(1) s by (simp add: pos_imp_zdiv_nonneg_iff)
  have "v = a + step * int k"
    using mult_div_mod_eq [of step "v - a"] v(3) q by (simp add: k_def)
  moreover have "(v - a) div step \<le> (b - a) div step" using v(2) s by (simp add: zdiv_mono1)
  then have "k < nat ((b - a) div step + 1)" using q by (simp add: k_def)
  ultimately show "v \<in> set (py_range a b step)" by (auto simp: py_range_def)
qed

lemma cron_step_pos: "cron_step lo hi has raw = Inr s \<Longrightarrow> 0 < s"
  by (auto simp: cron_step_def split: if_splits option.splits)

lemma cron_part_range:
  assumes "cron_part names lo hi p = Inr vs" and "\<forall>x \<in> snd ` set names. lo \<le> x \<and> x \<le> hi" and "lo \<le> hi"
  shows "set vs \<subseteq> {lo..hi} \<and> vs \<noteq> []"
proof -
  from assms(1) obtain has raw base step x y where s: "cron_step lo hi has raw = Inr step"
    and b: "cron_bounds names lo hi base = Inr (x, y)" and vs: "vs = py_range x y step"
    by (auto simp: cron_part_def Let_def split: if_splits prod.splits)
  have xy: "lo \<le> x" "x \<le> y" "y \<le> hi" using cron_bounds_range [OF b assms(2,3)] by auto
  have "set vs = {v. x \<le> v \<and> v \<le> y \<and> (v - x) mod step = 0}"
    unfolding vs using cron_step_pos [OF s] by (rule py_range_set)
  moreover from this xy have "x \<in> set vs" by simp
  ultimately show ?thesis using xy by auto
qed

lemma cron_parts_range:
  "cron_parts names lo hi ps = Inr vs \<Longrightarrow> \<forall>x \<in> snd ` set names. lo \<le> x \<and> x \<le> hi \<Longrightarrow> lo \<le> hi \<Longrightarrow> set vs \<subseteq> {lo..hi}"
  by (induction ps arbitrary: vs) (use cron_part_range in fastforce)+

lemma cron_field_range:
  assumes "cron_field names lo hi e = Inr (vs, w)" and "\<forall>x \<in> snd ` set names. lo \<le> x \<and> x \<le> hi" and "lo \<le> hi"
  shows "set vs \<subseteq> {lo..hi} \<and> vs \<noteq> []"
  using assms(1) cron_parts_range [OF _ assms(2,3)] by (auto simp: cron_field_def split: if_splits)

lemma round_even_near: "\<bar>real_of_int (round_even x) - x\<bar> \<le> 1 / 2"
  unfolding round_even_def Let_def by (auto simp: abs_le_iff split: if_splits)

lemma first_candidate_props:
  assumes "first_candidate x = Inr t"
  shows "x < real_of_int t" and "t mod 60 = 0" and "t < max_instant"
    and "round_even (x * 1000000) < t * 1000000" and "\<And>s. s mod 60 = 0 \<Longrightarrow> round_even (x * 1000000) < s * 1000000 \<Longrightarrow> t \<le> s"
proof -
  define us where "us = round_even (x * 1000000)"
  from assms have t: "t = (us div 60000000) * 60 + 60" "t < max_instant"
    by (auto simp: first_candidate_def us_def Let_def split: if_splits)
  then show "t mod 60 = 0" "t < max_instant" by simp_all
  define q where "q = us div 60000000"
  have q: "60000000 * q \<le> us" "us < 60000000 * q + 60000000" "t = q * 60 + 60"
    using div_mult_mod_eq [of us 60000000] pos_mod_bound [of 60000000 us] pos_mod_sign [of 60000000 us] t(1)
    by (simp_all add: q_def)
  then have gt: "us < t * 1000000" by linarith
  then show "round_even (x * 1000000) < t * 1000000" by (simp add: us_def)
  have "x * 1000000 \<le> of_int us + 1 / 2" using round_even_near [of "x * 1000000"] unfolding us_def by linarith
  moreover from gt have "real_of_int us + 1 \<le> of_int t * 1000000" by linarith
  ultimately show "x < real_of_int t" by linarith
  show "t \<le> s" if "s mod 60 = 0" "round_even (x * 1000000) < s * 1000000" for s
  proof -
    from that(1) obtain k where k: "s = 60 * k" by (auto dest: mod_0_imp_dvd)
    with that(2) q(1) have "q < k" unfolding us_def [symmetric] by linarith
    with k q(3) show ?thesis by linarith
  qed
qed

section \<open>Properties\<close>

text \<open>A cron expression that is accepted has five non-empty fields whose values lie in their ranges: minutes
  0 to 59, hours 0 to 23, days 1 to 31, months 1 to 12, weekdays 0 to 6 (7 is read as Sunday, 0).\<close>

theorem parse_cron_ranges:
  assumes "parse_cron zones expr tz = Inr (c, off)"
  shows "set (c_minutes c) \<subseteq> {0..59} \<and> set (c_hours c) \<subseteq> {0..23} \<and> set (c_days c) \<subseteq> {1..31} \<and>
    set (c_months c) \<subseteq> {1..12} \<and> set (c_weekdays c) \<subseteq> {0..6} \<and>
    c_minutes c \<noteq> [] \<and> c_hours c \<noteq> [] \<and> c_days c \<noteq> [] \<and> c_months c \<noteq> [] \<and> c_weekdays c \<noteq> []"
proof -
  have names: "\<forall>x \<in> snd ` set MONTH_NAMES. 1 \<le> x \<and> x \<le> 12" "\<forall>x \<in> snd ` set WEEKDAY_NAMES. 0 \<le> x \<and> x \<le> 6"
    "\<forall>x \<in> snd ` set []. lo \<le> x \<and> x \<le> hi" for lo hi :: int
    by (simp_all add: MONTH_NAMES_def WEEKDAY_NAMES_def)
  from assms obtain p0 p1 p2 p3 p4 w0 w1 w3 where f: "cron_field [] 0 59 p0 = Inr (c_minutes c, w0)"
    "cron_field [] 0 23 p1 = Inr (c_hours c, w1)" "cron_field [] 1 31 p2 = Inr (c_days c, c_days_wild c)"
    "cron_field MONTH_NAMES 1 12 p3 = Inr (c_months c, w3)" "cron_field WEEKDAY_NAMES 0 6 p4 = Inr (c_weekdays c, c_weekdays_wild c)"
    by (auto simp: parse_cron_def split: if_splits list.splits option.splits)
  from cron_field_range [OF f(1) names(3)] cron_field_range [OF f(2) names(3)] cron_field_range [OF f(3) names(3)]
    cron_field_range [OF f(4) names(1)] cron_field_range [OF f(5) names(2)]
  show ?thesis by simp
qed

definition utc_only :: zones where
  "utc_only tz = (if tz = ''UTC'' then Some (\<lambda>_. 0) else None)"

lemma demo_cron: "case parse_cron utc_only ''*/20 9 * JAN 7'' ''UTC'' of Inl _ \<Rightarrow> False
    | Inr (c, _) \<Rightarrow> c = \<lparr>c_minutes = [0, 20, 40], c_hours = [9], c_days = [1..31], c_days_wild = True, c_months = [1],
          c_weekdays = [0], c_weekdays_wild = False\<rparr>"
  by code_simp

theorem parse_cron_ranges_witness:
  "\<exists>c off. parse_cron utc_only ''*/20 9 * JAN 7'' ''UTC'' = Inr (c, off) \<and> set (c_minutes c) \<subseteq> {0..59} \<and> c_weekdays c = [0]"
proof (cases "parse_cron utc_only ''*/20 9 * JAN 7'' ''UTC''")
  case (Inr p)
  obtain c off where p: "p = (c, off)" by fastforce
  from parse_cron_ranges [OF Inr [unfolded p]] demo_cron Inr p show ?thesis by auto
qed (use demo_cron in simp)

text \<open>C29. \<open>next_after\<close> gives the next occurrence: the result is a whole minute strictly after the cursor at which
  the expression matches in its time zone, and it matches at no earlier whole minute after the cursor (the
  cursor being rounded to microseconds, as \<open>datetime\<close> does); and if there is an occurrence among the next
  2,635,200 minutes (five years) before year 10000, a result is returned.\<close>

theorem next_after_least:
  assumes "0 \<le> x" and "first_candidate x = Inr t0"
  shows "(case next_after c off (Fin x) of
      Inr r \<Rightarrow> x < of_int r \<and> r mod 60 = 0 \<and> cron_hit c off r \<and>
        (\<forall>s. s mod 60 = 0 \<and> round_even (x * 1000000) < s * 1000000 \<and> s < r \<longrightarrow> \<not> cron_hit c off s)
    | Inl e \<Rightarrow> \<forall>s. s mod 60 = 0 \<and> round_even (x * 1000000) < s * 1000000 \<and> s < t0 + 60 * int five_years \<and> s < max_instant
        \<longrightarrow> \<not> cron_hit c off s)"
proof -
  have eq: "next_after c off (Fin x) = next_loop c off five_years t0" using assms by (simp add: next_after_def)
  note fc = first_candidate_props [OF assms(2)]
  have steps: "\<exists>k. s = t0 + 60 * int k" if "s mod 60 = 0" "round_even (x * 1000000) < s * 1000000" for s
  proof -
    from that(1) fc(2) have "(s - t0) mod 60 = 0" by (metis diff_self mod_diff_eq mod_0)
    moreover have "t0 \<le> s" using fc(5) that by simp
    ultimately show ?thesis by (intro exI [of _ "nat ((s - t0) div 60)"]) (auto dest: mod_0_imp_dvd)
  qed
  show ?thesis
  proof (cases "next_loop c off five_years t0")
    case (Inl e)
    have "\<not> cron_hit c off s" if s: "s mod 60 = 0" "round_even (x * 1000000) < s * 1000000"
      "s < t0 + 60 * int five_years" "s < max_instant" for s
    proof
      assume hit: "cron_hit c off s"
      from steps [OF s(1,2)] obtain k where k: "s = t0 + 60 * int k" by blast
      with s(3) have "k < five_years" by simp
      with next_loop_finds [OF this, of c off t0] hit s(4) k Inl show False by simp
    qed
    with eq Inl show ?thesis by simp
  next
    case (Inr r)
    from next_loop_Inr [OF Inr] obtain k where k: "r = t0 + 60 * int k" "cron_hit c off r"
      "\<forall>j < k. \<not> cron_hit c off (t0 + 60 * int j)" by blast
    have "\<not> cron_hit c off s" if s: "s mod 60 = 0" "round_even (x * 1000000) < s * 1000000" "s < r" for s
      using steps [OF s(1,2)] s(3) k by auto
    moreover have "x < of_int r" "r mod 60 = 0" using fc(1,2) k(1) by (simp_all add: mod_add_eq [symmetric])
    ultimately show ?thesis using eq Inr k(2) by simp
  qed
qed

theorem next_after_least_witness:
  "\<exists>t0. first_candidate 90 = Inr t0 \<and> (case next_after \<lparr>c_minutes = [2], c_hours = [0], c_days = [1], c_days_wild = True,
      c_months = [1], c_weekdays = [4], c_weekdays_wild = True\<rparr> (\<lambda>_. 0) (Fin 90) of Inr r \<Rightarrow> (90 :: real) < of_int r | Inl _ \<Rightarrow> False)"
proof -
  have f: "first_candidate 90 = Inr 120"
    by (simp add: first_candidate_def round_even_def max_instant_def Let_def)
  define c where "c = \<lparr>c_minutes = [2], c_hours = [0], c_days = [1], c_days_wild = True, c_months = [1 :: int], c_weekdays = [4], c_weekdays_wild = True\<rparr>"
  have "cron_hit c (\<lambda>_. 0) 120" unfolding c_def by code_simp
  then have "next_loop c (\<lambda>_. 0) five_years 120 = Inr 120" by (intro next_loop_hit) (simp_all add: five_years_def)
  then have "next_after c (\<lambda>_. 0) (Fin 90) = Inr 120" by (simp add: next_after_def f)
  with next_after_least [of 90 120 c "\<lambda>_. 0"] f show ?thesis unfolding c_def by auto
qed

end
