(* ===== verification/HA_Scheduler.thy ===== *)
theory HA_Scheduler
  imports HA_Cron HA_Job_Props
begin

text \<open>
  The durable scheduler (\<open>ha/scheduler.py\<close>, \<open>ScheduleStore\<close> and \<open>DistributedScheduler.run_once\<close>).  A due
  schedule is turned into a row of \<open>ha_schedule_fires\<close> (\<open>materialize_due\<close>); a pending fire is handed to the
  job queue under the key \<open>schedule:<fire id>\<close> and then marked delivered, in two transactions
  (\<open>dispatch_pending\<close>), so that a crash between them is repaired by handing the fire over again.
\<close>

section \<open>Rows\<close>

datatype schedule_type = SCHEDULE_ONCE | SCHEDULE_INTERVAL | SCHEDULE_CRON

definition SCHEDULE_TYPES :: "(string \<times> schedule_type) list" where
  "SCHEDULE_TYPES = [(''once'', SCHEDULE_ONCE), (''interval'', SCHEDULE_INTERVAL), (''cron'', SCHEDULE_CRON)]"

record schedule =
  s_id :: string
  s_tenant :: string
  s_queue :: string
  s_payload :: json
  s_type :: schedule_type
  s_spec :: string
  s_timezone :: string
  s_enabled :: bool
  s_next_run_at :: real
  s_last_run_at :: "real option"
  s_fire_sequence :: int
  s_created_at :: real
  s_updated_at :: real
  s_revision :: int

record fire =
  f_id :: string
  f_schedule :: string
  f_tenant :: string
  f_queue :: string
  f_payload :: json
  f_due_at :: real
  f_pending :: bool \<comment> \<open>status \<open>pending\<close>; otherwise \<open>delivered\<close>\<close>
  f_job_id :: "string option"
  f_created_at :: real
  f_delivered_at :: "real option"

record sched_db =
  schedules :: "schedule list"
  fires :: "fire list"
  sjobs :: jobs_db

definition find_schedule :: "string \<Rightarrow> sched_db \<Rightarrow> schedule option" where
  "find_schedule i d = sql_find (\<lambda>s. s_id s = i) (schedules d)"

section \<open>Schedules\<close>

definition interval_ok :: "pyfloat \<Rightarrow> bool" where
  "interval_ok x \<longleftrightarrow> isfinite x \<and> 1 \<le> fin_val x \<and> fin_val x \<le> 366 * 86400"

definition first_run :: "zones \<Rightarrow> schedule_type \<Rightarrow> string \<Rightarrow> string \<Rightarrow> pyfloat option \<Rightarrow> real \<Rightarrow> pyfloat res" where
  "first_run zones ty spec tz given now =
     (case ty of
        SCHEDULE_ONCE \<Rightarrow>
          (case py_float spec of
             None \<Rightarrow> Inl (ValueError ''once schedule must contain an epoch timestamp'')
           | Some x \<Rightarrow> Inr (case given of None \<Rightarrow> x | Some g \<Rightarrow> g))
      | SCHEDULE_INTERVAL \<Rightarrow>
          (case py_float spec of
             None \<Rightarrow> Inl (ValueError ''interval schedule must contain seconds'')
           | Some x \<Rightarrow>
               if interval_ok x then Inr (case given of None \<Rightarrow> Fin (now + fin_val x) | Some g \<Rightarrow> g)
               else Inl (ValueError ''interval must be between 1 second and 366 days''))
      | SCHEDULE_CRON \<Rightarrow>
          bindR (parse_cron zones spec tz) (\<lambda>(c, off).
            case given of None \<Rightarrow> bindR (next_after c off (Fin now)) (\<lambda>r. Inr (Fin (of_int r))) | Some g \<Rightarrow> Inr g))"

definition create_schedule :: "zones \<Rightarrow> codec \<Rightarrow> string \<Rightarrow> string \<Rightarrow> json \<Rightarrow> string \<Rightarrow> string \<Rightarrow> string \<Rightarrow> pyfloat option \<Rightarrow>
    string option \<Rightarrow> real \<Rightarrow> string \<Rightarrow> sched_db \<Rightarrow> (schedule option \<times> sched_db) res" where
  "create_schedule zones c tenant queue payload type_name spec tz given_run given_id now fresh d =
     bindR (clean tenant ''tenant_id'' 255) (\<lambda>_.
     bindR (clean queue ''queue'' 128) (\<lambda>_.
     bindR (case map_of SCHEDULE_TYPES type_name of None \<Rightarrow> Inl (ValueError ''schedule_type is invalid'') | Some ty \<Rightarrow> Inr ty) (\<lambda>ty.
     bindR (clean spec ''schedule_spec'' 256) (\<lambda>_.
     bindR (first_run zones ty spec tz given_run now) (\<lambda>run.
     bindR (guardR (isfinite run \<and> 0 \<le> fin_val run) (ValueError ''first_run_at is invalid'')) (\<lambda>_.
     bindR (case given_id of None \<Rightarrow> Inr fresh | Some i \<Rightarrow> clean i ''schedule_id'' 255) (\<lambda>i.
     bindR (encode_json c ''schedule payload'' payload) (\<lambda>body.
     if i \<in> set (map s_id (schedules d)) then Inl IntegrityError
     else let s = \<lparr>s_id = i, s_tenant = tenant, s_queue = queue, s_payload = body, s_type = ty, s_spec = spec,
                   s_timezone = tz, s_enabled = True, s_next_run_at = fin_val run, s_last_run_at = None,
                   s_fire_sequence = 0, s_created_at = now, s_updated_at = now, s_revision = 1\<rparr>;
              d' = d\<lparr>schedules := schedules d @ [s]\<rparr>
          in Inr (find_schedule i d', d')))))))))"

definition get_schedule :: "string \<Rightarrow> sched_db \<Rightarrow> schedule option res" where
  "get_schedule i d = bindR (clean i ''schedule_id'' 255) (\<lambda>_. Inr (find_schedule i d))"

definition schedule_match :: "string \<Rightarrow> string option \<Rightarrow> bool option \<Rightarrow> (real \<times> string) option \<Rightarrow> schedule \<Rightarrow> bool" where
  "schedule_match tenant queue enabled before s \<longleftrightarrow> s_tenant s = tenant \<and>
     (case queue of None \<Rightarrow> True | Some q \<Rightarrow> s_queue s = q) \<and>
     (case enabled of None \<Rightarrow> True | Some b \<Rightarrow> s_enabled s = b) \<and>
     (case before of None \<Rightarrow> True | Some (t, i) \<Rightarrow> s_created_at s < t \<or> s_created_at s = t \<and> s_id s < i)"

definition list_schedules :: "string \<Rightarrow> string option \<Rightarrow> bool option \<Rightarrow> (pyfloat \<times> string) option \<Rightarrow> int \<Rightarrow> sched_db \<Rightarrow>
    schedule list res" where
  "list_schedules tenant queue enabled before limit d =
     bindR (clean tenant ''tenant_id'' 255) (\<lambda>_.
     bindR (guardR (1 \<le> limit \<and> limit \<le> 1000) (ValueError ''schedule limit must be between 1 and 1000'')) (\<lambda>_.
     bindR (clean_opt queue ''queue'' 128) (\<lambda>_.
     bindR (case before of
              None \<Rightarrow> Inr None
            | Some (t, i) \<Rightarrow>
                bindR (guardR (isfinite t \<and> 0 \<le> fin_val t) (ValueError ''schedule cursor is invalid'')) (\<lambda>_.
                bindR (clean i ''before_schedule_id'' 255) (\<lambda>_. Inr (Some (fin_val t, i))))) (\<lambda>cursor.
     Inr (take (nat limit) (rev (sort_key (\<lambda>s. (s_created_at s, s_id s))
            (filter (schedule_match tenant queue enabled cursor) (schedules d)))))))))"

definition set_enabled :: "string \<Rightarrow> bool \<Rightarrow> int \<Rightarrow> string option \<Rightarrow> real \<Rightarrow> sched_db \<Rightarrow> (schedule option \<times> sched_db) res" where
  "set_enabled i enabled expected tenant now d =
     bindR (clean i ''schedule_id'' 255) (\<lambda>_.
     bindR (clean_opt tenant ''tenant_id'' 255) (\<lambda>_.
     let p = (\<lambda>s. s_id s = i \<and> s_revision s = expected \<and> (case tenant of None \<Rightarrow> True | Some t \<Rightarrow> s_tenant s = t));
         d' = d\<lparr>schedules := sql_update p (\<lambda>s. s\<lparr>s_enabled := enabled, s_updated_at := now,
                                              s_revision := s_revision s + 1\<rparr>) (schedules d)\<rparr>
     in if sql_count p (schedules d) \<noteq> 1 then Inl (RuntimeError ''schedule revision changed'')
        else Inr (find_schedule i d', d')))"

section \<open>Materialising fires\<close>

definition fire_id_of :: "string \<Rightarrow> int \<Rightarrow> string" where
  "fire_id_of i n = i @ '':'' @ show_int n"

text \<open>The next run after a fire.  A stored interval is finite and positive (\<open>create\<close> admits no other), so the
  division of the source does not fail; for any other stored text the model raises.\<close>

definition next_run :: "zones \<Rightarrow> real \<Rightarrow> schedule \<Rightarrow> (bool \<times> real) res" where
  "next_run zones now s =
     (let due = s_next_run_at s in
      case s_type s of
        SCHEDULE_ONCE \<Rightarrow> Inr (False, due)
      | SCHEDULE_INTERVAL \<Rightarrow>
          (case py_float (s_spec s) of
             Some (Fin interval) \<Rightarrow>
               if interval \<le> 0 then Inl (ValueError ''interval'')
               else Inr (True, due + of_int (max 1 (\<lfloor>(now - due) / interval\<rfloor> + 1)) * interval)
           | _ \<Rightarrow> Inl (ValueError ''interval''))
      | SCHEDULE_CRON \<Rightarrow>
          bindR (parse_cron zones (s_spec s) (s_timezone s)) (\<lambda>(c, off).
          bindR (next_after c off (Fin now)) (\<lambda>r. Inr (True, of_int r))))"

definition materialize_one :: "zones \<Rightarrow> real \<Rightarrow> schedule \<Rightarrow> sched_db \<Rightarrow> sched_db res" where
  "materialize_one zones now row d =
     (let n = s_fire_sequence row + 1; fid = fire_id_of (s_id row) n; due = s_next_run_at row;
          f = \<lparr>f_id = fid, f_schedule = s_id row, f_tenant = s_tenant row, f_queue = s_queue row,
               f_payload = s_payload row, f_due_at = due, f_pending = True, f_job_id = None,
               f_created_at = now, f_delivered_at = None\<rparr>;
          fs = (if fid \<in> set (map f_id (fires d)) then fires d else fires d @ [f])
      in bindR (next_run zones now row) (\<lambda>(enabled, run).
        Inr (d\<lparr>fires := fs,
               schedules := sql_update (\<lambda>s. s_id s = s_id row \<and> s_fire_sequence s = n - 1)
                 (\<lambda>s. s\<lparr>s_enabled := enabled, s_next_run_at := run, s_last_run_at := Some due,
                        s_fire_sequence := n, s_updated_at := now, s_revision := s_revision s + 1\<rparr>) (schedules d)\<rparr>)))"

fun materialize_rows :: "zones \<Rightarrow> real \<Rightarrow> schedule list \<Rightarrow> sched_db \<Rightarrow> sched_db res" where
  "materialize_rows zones now [] d = Inr d"
| "materialize_rows zones now (row # rows) d =
     bindR (materialize_one zones now row d) (\<lambda>d'. materialize_rows zones now rows d')"

definition due_schedules :: "dialect \<Rightarrow> real \<Rightarrow> string list \<Rightarrow> int \<Rightarrow> sched_db \<Rightarrow> schedule list" where
  "due_schedules dia now locked limit d =
     sql_select (\<lambda>s. s_enabled s \<and> s_next_run_at s \<le> now \<and> (dia = Postgres \<longrightarrow> s_id s \<notin> set locked))
       (\<lambda>s. (s_next_run_at s, s_id s)) (nat limit) (schedules d)"

definition materialize_due :: "zones \<Rightarrow> dialect \<Rightarrow> int \<Rightarrow> real \<Rightarrow> string list \<Rightarrow> sched_db \<Rightarrow> (nat \<times> sched_db) res" where
  "materialize_due zones dia limit now locked d =
     bindR (guardR (1 \<le> limit \<and> limit \<le> 10000) (ValueError ''limit must be between 1 and 10000'')) (\<lambda>_.
     let rows = due_schedules dia now locked limit d
     in bindR (materialize_rows zones now rows d) (\<lambda>d'. Inr (length rows, d')))"

section \<open>Handing fires to the job queue\<close>

definition schedule_key :: "fire \<Rightarrow> string" where
  "schedule_key f = ''schedule:'' @ f_id f"

text \<open>The first transaction of a handoff: \<open>jobs.enqueue\<close> with the defaults for priority and attempts.\<close>

definition submit_fire :: "dialect \<Rightarrow> codec \<Rightarrow> fire \<Rightarrow> real \<times> string \<Rightarrow> jobs_db \<Rightarrow> (string \<times> jobs_db) res" where
  "submit_fire dia c f draw d =
     bindR (enqueue dia c (f_queue f) (f_tenant f) (f_payload f) 0 5 (Some (Fin (f_due_at f))) (Some (schedule_key f))
              (fst draw) (snd draw) d) (\<lambda>(v, d'). Inr (view_id v, d'))"

text \<open>The second transaction.\<close>

definition mark_fire :: "string \<Rightarrow> string \<Rightarrow> real \<Rightarrow> sched_db \<Rightarrow> nat \<times> sched_db" where
  "mark_fire fid job now d =
     (let p = (\<lambda>f. f_id f = fid \<and> f_pending f)
      in (if sql_count p (fires d) = 1 then 1 else 0,
          d\<lparr>fires := sql_update p (\<lambda>f. f\<lparr>f_pending := False, f_job_id := Some job, f_delivered_at := Some now\<rparr>) (fires d)\<rparr>))"

text \<open>The loop; \<open>draw\<close> gives, for each fire, the clock reading and identifier of \<open>enqueue\<close> and the clock
  reading of the second transaction.  An exception leaves what was committed before it.\<close>

fun dispatch_rows :: "dialect \<Rightarrow> codec \<Rightarrow> (string \<Rightarrow> (real \<times> string) \<times> real) \<Rightarrow> fire list \<Rightarrow> nat \<Rightarrow> sched_db \<Rightarrow>
    nat res \<times> sched_db" where
  "dispatch_rows dia c draw [] n d = (Inr n, d)"
| "dispatch_rows dia c draw (f # fs) n d =
     (case submit_fire dia c f (fst (draw (f_id f))) (sjobs d) of
        Inl e \<Rightarrow> (Inl e, d)
      | Inr (job, js) \<Rightarrow>
          (case mark_fire (f_id f) job (snd (draw (f_id f))) (d\<lparr>sjobs := js\<rparr>) of
             (k, d') \<Rightarrow> dispatch_rows dia c draw fs (n + k) d'))"

definition pending_fires :: "sched_db \<Rightarrow> fire list" where
  "pending_fires d = sort_key (\<lambda>f. (f_due_at f, f_id f)) (filter f_pending (fires d))"

definition dispatch_pending :: "dialect \<Rightarrow> codec \<Rightarrow> int \<Rightarrow> (string \<Rightarrow> (real \<times> string) \<times> real) \<Rightarrow> sched_db \<Rightarrow> nat res \<times> sched_db" where
  "dispatch_pending dia c limit draw d =
     (if 1 \<le> limit \<and> limit \<le> 10000
      then dispatch_rows dia c draw (sql_select f_pending (\<lambda>f. (f_due_at f, f_id f)) (nat limit) (fires d)) 0 d
      else (Inl (ValueError ''limit must be between 1 and 10000''), d))"

definition old_fire :: "real \<Rightarrow> fire \<Rightarrow> bool" where
  "old_fire before f \<longleftrightarrow> \<not> f_pending f \<and> null_le (f_delivered_at f) before"

definition prune_fire_one :: "real \<Rightarrow> fire \<Rightarrow> nat \<times> sched_db \<Rightarrow> nat \<times> sched_db" where
  "prune_fire_one before row acc =
     (let d = snd acc; p = (\<lambda>f. f_id f = f_id row \<and> old_fire before f)
      in (fst acc + (if sql_count p (fires d) = 1 then 1 else 0), d\<lparr>fires := filter (\<lambda>f. \<not> p f) (fires d)\<rparr>))"

definition prune_fires :: "pyfloat \<Rightarrow> int \<Rightarrow> sched_db \<Rightarrow> (nat \<times> sched_db) res" where
  "prune_fires before limit d =
     bindR (guardR (isfinite before) (ValueError ''schedule fire prune cutoff must be finite'')) (\<lambda>_.
     bindR (guardR (1 \<le> limit \<and> limit \<le> 10000) (ValueError ''schedule fire prune limit must be between 1 and 10000'')) (\<lambda>_.
     let rows = sql_select (old_fire (fin_val before)) (\<lambda>f. (the_default 0 (f_delivered_at f), f_id f)) (nat limit) (fires d)
     in Inr (fold (prune_fire_one (fin_val before)) rows (0, d))))"

text \<open>\<open>DistributedScheduler.run_once\<close>\<close>

definition scheduler_run_once :: "zones \<Rightarrow> dialect \<Rightarrow> codec \<Rightarrow> int \<Rightarrow> real \<Rightarrow> string list \<Rightarrow>
    (string \<Rightarrow> (real \<times> string) \<times> real) \<Rightarrow> sched_db \<Rightarrow> (nat \<times> nat) res \<times> sched_db" where
  "scheduler_run_once zones dia c batch now locked draw d =
     (case materialize_due zones dia batch now locked d of
        Inl e \<Rightarrow> (Inl e, d)
      | Inr (n, d1) \<Rightarrow>
          (case dispatch_pending dia c batch draw d1 of
             (Inl e, d2) \<Rightarrow> (Inl e, d2)
           | (Inr k, d2) \<Rightarrow> (Inr (n, k), d2)))"

end
