(* ===== verification/HA_Scheduler_Props.thy ===== *)
theory HA_Scheduler_Props
  imports HA_Scheduler
begin

text \<open>
  The scheduler's promises: a fire becomes one job however often and by however many processes it is handed
  over and wherever they crash; an interval schedule stays on its grid and skips what it missed; one schedule
  whose next run cannot be computed stops the whole batch.

  \<open>idem_queue\<close> is what the scheduler needs of the job queue: submitting a request binds it to a job
  identifier, for ever and to only one.
\<close>

section \<open>An idempotent queue\<close>







section \<open>Fire identifiers\<close>

lemma digits_run:
  "s \<noteq> [] \<Longrightarrow> list_all is_digit s \<Longrightarrow> digits b acc n s = Some (foldl (\<lambda>a c. 10 * a + (ord_char c - 48)) acc s, n + length s)"
proof (induction s arbitrary: b acc n)
  case (Cons x s)
  then show ?case by (cases "s = []") simp_all
qed simp











section \<open>Many schedulers\<close>































section \<open>Submitting again\<close>


section \<open>A date that never comes\<close>

definition feb31 :: string where
  "feb31 = ''0 0 31 2 *''"

lemma feb31_parses: "case parse_cron utc_only feb31 ''UTC'' of Inl _ \<Rightarrow> False
    | Inr (c, _) \<Rightarrow> c = \<lparr>c_minutes = [0], c_hours = [0], c_days = [31], c_days_wild = False, c_months = [2],
        c_weekdays = [0..6], c_weekdays_wild = True\<rparr>"
  by code_simp

lemma next_loop_never: "\<forall>t. \<not> cron_hit c off t \<Longrightarrow> \<not> is_ok (next_loop c off n t)"
  by (induction n arbitrary: t) auto

lemma feb31_never:
  assumes "parse_cron utc_only feb31 ''UTC'' = Inr (c, off)"
  shows "\<not> is_ok (next_after c off (Fin x))"
proof -
  from feb31_parses assms have "c_days c = [31]" "c_months c = [2]" "c_weekdays_wild c" by auto
  then have "\<not> cron_hit c off t" for t
    by (auto simp: cron_hit_def cron_matches_def month_days_def Let_def split: if_splits)
  then have "\<not> is_ok (next_loop c off five_years t)" for t using next_loop_never by blast
  then show ?thesis by (auto simp: next_after_def bindR_def guardR_def split: sum.splits)
qed

section \<open>An example\<close>

definition demo_interval :: schedule where
  "demo_interval = \<lparr>s_id = ''has-1'', s_tenant = ''t'', s_queue = ''q'', s_payload = JInt 7, s_type = SCHEDULE_INTERVAL,
     s_spec = ''60'', s_timezone = ''UTC'', s_enabled = True, s_next_run_at = 100, s_last_run_at = None,
     s_fire_sequence = 0, s_created_at = 40, s_updated_at = 40, s_revision = 1\<rparr>"

lemma py_float_60: "py_float ''60'' = Some (Fin 60)"
proof -
  have "sign_of (map ascii_lower (py_strip ''60'')) = (1, ''60'')" "partition_on (CHR ''e'') ''60'' = (''60'', False, [])"
    "partition_on (CHR ''.'') ''60'' = (''60'', False, [])" "part_digits ''60'' = Some (60, 2)" "sign_of [] = (1, [])"
    by code_simp+
  then show ?thesis by (simp add: py_float_def part_digits_def)
qed








section \<open>Properties\<close>



text \<open>An interval schedule stays on its grid and catches up without a burst: after a fire at time \<open>now\<close> the
  next run is the first point \<open>due + k * interval\<close> with \<open>k\<close> at least 1 that lies after \<open>now\<close>.\<close>

theorem interval_next_run:
  assumes "s_type s = SCHEDULE_INTERVAL" and "py_float (s_spec s) = Some (Fin iv)" and "1 \<le> iv" and "s_next_run_at s \<le> now"
  shows "\<exists>k \<ge> 1. next_run zones now s = Inr (True, s_next_run_at s + of_int k * iv) \<and>
    now < s_next_run_at s + of_int k * iv \<and> s_next_run_at s + of_int (k - 1) * iv \<le> now"
proof -
  define q where "q = \<lfloor>(now - s_next_run_at s) / iv\<rfloor>"
  have "0 \<le> q" using assms(3,4) by (simp add: q_def)
  then have "next_run zones now s = Inr (True, s_next_run_at s + of_int (q + 1) * iv)"
    using assms by (simp add: next_run_def q_def [symmetric] Let_def)
  moreover have "of_int q \<le> (now - s_next_run_at s) / iv" "(now - s_next_run_at s) / iv < of_int q + 1"
    unfolding q_def by linarith+
  then have "of_int q * iv \<le> now - s_next_run_at s" "now - s_next_run_at s < (of_int q + 1) * iv"
    using assms(3) by (simp_all add: le_divide_eq divide_less_eq)
  ultimately show ?thesis using \<open>0 \<le> q\<close> by (intro exI [of _ "q + 1"]) simp
qed

theorem interval_next_run_witness:
  "\<exists>k \<ge> 1. next_run utc_only 250 demo_interval = Inr (True, 100 + of_int k * 60) \<and> 250 < (100 :: real) + of_int k * 60"
  using interval_next_run [of demo_interval 60 250 utc_only] py_float_60 by (auto simp: demo_interval_def)

text \<open>C38. Materialising is all or nothing across schedules: if the next run of any one due schedule cannot be
  computed, the whole batch is rolled back, no fire of any schedule or tenant is recorded, and the scheduler
  cycle also hands over none of the fires already pending.\<close>

theorem materialize_all_or_nothing:
  assumes "row \<in> set (due_schedules dia now lk batch d)" and "\<not> is_ok (next_run zones now row)"
  shows "\<not> is_ok (materialize_due zones dia batch now lk d)
    \<and> (\<exists>e. scheduler_run_once zones dia c batch now lk draw d = (Inl e, d))"
proof -
  have "\<not> is_ok (materialize_rows zones now rows d')" if "row \<in> set rows" for rows d'
    using that
  proof (induction rows arbitrary: d')
    case (Cons r rows)
    show ?case
    proof (cases "r = row")
      case True
      then show ?thesis using assms(2) by (cases "next_run zones now row") (auto simp: materialize_one_def Let_def)
    next
      case False
      with Cons show ?thesis by (cases "materialize_one zones now r d'") auto
    qed
  qed simp
  from this [OF assms(1), of d] have "\<not> is_ok (materialize_due zones dia batch now lk d)"
    by (auto simp: materialize_due_def Let_def guardR_def is_ok_def bindR_def split: sum.splits)
  then show ?thesis by (cases "materialize_due zones dia batch now lk d") (auto simp: scheduler_run_once_def)
qed

text \<open>The cron expression of 31 February is accepted when a first run is given; once due it blocks everything.\<close>

definition demo_feb31 :: schedule where
  "demo_feb31 = demo_interval\<lparr>s_id := ''has-2'', s_type := SCHEDULE_CRON, s_spec := feb31, s_next_run_at := 90\<rparr>"

lemma demo_feb31_created:
  "create_schedule utc_only demo_codec ''t'' ''q'' (JInt 7) ''cron'' feb31 ''UTC'' (Some (Fin 90)) (Some ''has-2'') 40 ''x''
     \<lparr>schedules = [demo_interval], fires = [], sjobs = empty_jobs\<rparr> =
   Inr (Some demo_feb31, \<lparr>schedules = [demo_interval, demo_feb31], fires = [], sjobs = empty_jobs\<rparr>)"
proof -
  have "is_clean feb31 256" "is_clean ''has-2'' 255" "map_of SCHEDULE_TYPES ''cron'' = Some SCHEDULE_CRON" by code_simp+
  moreover have "first_run utc_only SCHEDULE_CRON feb31 ''UTC'' (Some (Fin 90)) 40 = Inr (Fin 90)"
    using feb31_parses by (auto simp: first_run_def split: sum.splits)
  ultimately show ?thesis
    by (simp add: create_schedule_def clean_def demo_names demo_codec_simps find_schedule_def demo_interval_def demo_feb31_def Let_def)
qed

theorem materialize_all_or_nothing_witness:
  "\<exists>e. scheduler_run_once utc_only SQLite demo_codec 1000 250 [] (\<lambda>_. ((0, []), 0))
     \<lparr>schedules = [demo_interval, demo_feb31], fires = [], sjobs = empty_jobs\<rparr> =
     (Inl e, \<lparr>schedules = [demo_interval, demo_feb31], fires = [], sjobs = empty_jobs\<rparr>)"
proof -
  let ?d = "\<lparr>schedules = [demo_interval, demo_feb31], fires = [], sjobs = empty_jobs\<rparr>"
  have "\<not> is_ok (next_run utc_only 250 demo_feb31)"
  proof (cases "parse_cron utc_only feb31 ''UTC''")
    case (Inr p)
    then obtain c off where p: "parse_cron utc_only feb31 ''UTC'' = Inr (c, off)" by (cases p) auto
    from feb31_never [OF this, of 250] p show ?thesis
      by (cases "next_after c off (Fin 250)") (auto simp: next_run_def demo_feb31_def demo_interval_def)
  qed (use feb31_parses in simp)
  moreover have "demo_feb31 \<in> set (due_schedules SQLite 250 [] 1000 ?d)"
    by (simp add: due_schedules_def sql_select_def demo_feb31_def demo_interval_def)
  ultimately show ?thesis using materialize_all_or_nothing by blast
qed

end
