(* ===== verification/HA_Tables.thy ===== *)
theory HA_Tables
  imports HA_Outbox
begin

text \<open>
  The shared database of the distributed knowledge-base control plane: the tables the registry
  (\<open>ha/api_state.py\<close>), the source and index generation stores (\<open>ha/source_generation.py\<close>,
  \<open>ha/index_generation.py\<close>), the deletion saga (\<open>ha/kb_deletion.py\<close>) and the outbox keep in one database,
  so that one transaction may span them.

  A table with a primary key is the list of its (key, row) pairs, in insertion order.  An \<open>UPDATE\<close> or
  \<open>DELETE\<close> whose \<open>WHERE\<close> fixes the primary key concerns at most one row: \<open>thit\<close> says whether there is one
  (\<open>rowcount == 1\<close>), \<open>tset\<close> and \<open>tdelete\<close> are the table afterwards.
\<close>

section \<open>Tables with a primary key\<close>

type_synonym ('k, 'r) table = "('k \<times> 'r) list"

fun tput :: "'k \<Rightarrow> 'r \<Rightarrow> ('k, 'r) table \<Rightarrow> ('k, 'r) table" where
  "tput k r [] = [(k, r)]"
| "tput k r ((k', r') # t) = (if k' = k then (k, r) # t else (k', r') # tput k r t)"

definition tdel :: "'k \<Rightarrow> ('k, 'r) table \<Rightarrow> ('k, 'r) table" where
  "tdel k t = filter (\<lambda>(k', _). k' \<noteq> k) t"

definition thit :: "'k \<Rightarrow> ('r \<Rightarrow> bool) \<Rightarrow> ('k, 'r) table \<Rightarrow> bool" where
  "thit k p t = (case map_of t k of None \<Rightarrow> False | Some r \<Rightarrow> p r)"

definition tset :: "'k \<Rightarrow> ('r \<Rightarrow> bool) \<Rightarrow> ('r \<Rightarrow> 'r) \<Rightarrow> ('k, 'r) table \<Rightarrow> ('k, 'r) table" where
  "tset k p f t = (case map_of t k of None \<Rightarrow> t | Some r \<Rightarrow> if p r then tput k (f r) t else t)"

definition tdelete :: "'k \<Rightarrow> ('r \<Rightarrow> bool) \<Rightarrow> ('k, 'r) table \<Rightarrow> ('k, 'r) table" where
  "tdelete k p t = (if thit k p t then tdel k t else t)"

text \<open>\<open>INSERT\<close>: a violation of the primary key raises; \<open>INSERT OR IGNORE\<close> / \<open>ON CONFLICT DO NOTHING\<close> keeps
  the row that is there.\<close>

definition tinsert :: "'k \<Rightarrow> 'r \<Rightarrow> ('k, 'r) table \<Rightarrow> ('k, 'r) table res" where
  "tinsert k r t = (if map_of t k = None then Inr (t @ [(k, r)]) else Inl IntegrityError)"

definition tinsert_ignore :: "'k \<Rightarrow> 'r \<Rightarrow> ('k, 'r) table \<Rightarrow> ('k, 'r) table" where
  "tinsert_ignore k r t = (if map_of t k = None then t @ [(k, r)] else t)"

lemma map_of_tput [simp]: "map_of (tput k r t) k' = (if k' = k then Some r else map_of t k')"
  by (induction t) auto

lemma map_of_tset [simp]: "map_of (tset k p f t) k' =
    (if k' = k then map_option (\<lambda>r. if p r then f r else r) (map_of t k) else map_of t k')"
  by (auto simp: tset_def split: option.splits)

lemma map_of_append1 [simp]: "map_of (t @ [(k, r)]) k' = (case map_of t k' of None \<Rightarrow> if k' = k then Some r else None | Some x \<Rightarrow> Some x)"
  unfolding map_of_append map_add_def by (simp split: option.split)

declare map_of_append [simp del]

lemma map_of_tinsert_ignore [simp]: "map_of (tinsert_ignore k r t) k' =
    (case map_of t k' of None \<Rightarrow> if k' = k then Some r else None | Some x \<Rightarrow> Some x)"
  by (auto simp: tinsert_ignore_def split: option.splits)

lemma tinsert_Inr [simp]: "tinsert k r t = Inr t' \<longleftrightarrow> map_of t k = None \<and> t' = t @ [(k, r)]"
  by (auto simp: tinsert_def)

lemma map_of_tdel [simp]: "map_of (tdel k t) k' = (if k' = k then None else map_of t k')"
  unfolding tdel_def by (induction t) auto

lemma map_of_tdelete [simp]: "map_of (tdelete k p t) k' = (if k' = k \<and> thit k p t then None else map_of t k')"
  by (simp add: tdelete_def)

lemma thit_Some: "map_of t k = Some r \<Longrightarrow> thit k p t \<longleftrightarrow> p r"
  by (simp add: thit_def)

lemma thitD: "thit k p t \<Longrightarrow> \<exists>r. map_of t k = Some r \<and> p r"
  by (auto simp: thit_def split: option.splits)

text \<open>The keys stay distinct.\<close>

lemma map_fst_tput: "map fst (tput k r t) = (if k \<in> set (map fst t) then map fst t else map fst t @ [k])"
proof (induction t)
  case (Cons x t)
  then show ?case by (cases x) simp
qed simp

lemma keys_tset [simp]: "map fst (tset k p f t) = map fst t"
  by (auto simp: tset_def map_fst_tput split: option.splits dest: map_of_SomeD) (metis fst_conv image_eqI map_of_SomeD)

lemma keys_tdelete: "distinct (map fst t) \<Longrightarrow> distinct (map fst (tdelete k p t))"
  unfolding tdelete_def tdel_def by (simp add: distinct_map_filter)

lemma keys_insert: "distinct (map fst t) \<Longrightarrow> map_of t k = None \<Longrightarrow> distinct (map fst (t @ [(k, r)]))"
  by (auto simp: map_of_eq_None_iff)

lemma keys_tinsert_ignore: "distinct (map fst t) \<Longrightarrow> distinct (map fst (tinsert_ignore k r t))"
  by (auto simp: tinsert_ignore_def map_of_eq_None_iff)

lemma tset_miss: "\<not> thit k p t \<Longrightarrow> tset k p f t = t"
  by (auto simp: thit_def tset_def split: option.splits)

section \<open>Rows\<close>

text \<open>\<open>ha_api_knowledge_bases\<close>, by \<open>storage_id\<close>; the deleted row stays as a tombstone.\<close>

record kb_rec =
  b_tenant :: string
  b_kb :: string
  b_owner :: string
  b_created_at :: string
  b_lifecycle :: string
  b_epoch :: int
  b_revision :: int
  b_updated_at :: real

text \<open>\<open>ha_api_mutation_leases\<close>, by \<open>storage_id\<close>.\<close>

record lease_row =
  l_owner :: string
  l_token :: string
  l_expires_at :: real
  l_fence :: int
  l_epoch :: int
  l_updated_at :: real

text \<open>\<open>ha_source_generations\<close>, by \<open>generation_id\<close>, and \<open>ha_source_heads\<close>, by \<open>storage_id\<close>.\<close>

datatype source_status = SOURCE_PREPARED | SOURCE_ACTIVE | SOURCE_SUPERSEDED

record source_gen =
  s_storage :: string
  s_tenant :: string
  s_epoch :: int
  s_base :: "string option"
  s_build :: "string option"
  s_status :: source_status
  s_manifest_key :: string
  s_manifest_sha :: string
  s_file_count :: int
  s_total_bytes :: int
  s_document_count :: int
  s_document_bytes :: int
  s_fence :: int
  s_created_at :: real
  s_published_at :: "real option"

record source_head =
  sh_gen :: string
  sh_revision :: int
  sh_updated_at :: real

text \<open>\<open>ha_index_heads\<close>, by tenant and knowledge base, \<open>ha_index_generations\<close>, by \<open>generation_id\<close>, and
  \<open>ha_index_reader_leases\<close>, by \<open>reader_id\<close>.\<close>

datatype gen_status = GEN_BUILDING | GEN_PREPARED | GEN_PUBLISHED | GEN_ABORTED

record index_head =
  ih_current :: "string option"
  ih_fence :: int
  ih_revision :: int
  ih_updated_at :: real

record index_gen =
  g_tenant :: string
  g_kb :: string
  g_build :: string
  g_status :: gen_status
  g_base :: "string option"
  g_fence :: int
  g_owner :: string
  g_token :: string
  g_expires_at :: real
  g_manifest :: "json option"
  g_manifest_sha :: "string option"
  g_created_at :: real
  g_prepared_at :: "real option"
  g_published_at :: "real option"
  g_aborted_at :: "real option"

record reader_lease =
  rl_gen :: string
  rl_owner :: string
  rl_token :: string
  rl_expires_at :: real
  rl_created_at :: real
  rl_updated_at :: real

text \<open>\<open>ha_api_kb_deletions\<close>, by \<open>storage_id\<close>, and \<open>ha_source_artifact_scopes\<close>, by tenant and knowledge base.\<close>

datatype delete_phase = DELETE_FENCED | DELETE_CLEANED | DELETE_COMPLETE

record deletion =
  x_tenant :: string
  x_epoch :: int
  x_phase :: delete_phase
  x_index_gen :: "string option"
  x_source_gen :: "string option"
  x_artifacts :: int
  x_documents :: int
  x_started_at :: real
  x_updated_at :: real

record artifact_scope =
  a_state :: string
  a_epoch :: int
  a_updated_at :: real

record ha_db =
  kbs :: "(string, kb_rec) table"
  mleases :: "(string, lease_row) table"
  sgens :: "(string, source_gen) table"
  sheads :: "(string, source_head) table"
  igens :: "(string, index_gen) table"
  iheads :: "(string \<times> string, index_head) table"
  readers :: "(string, reader_lease) table"
  dels :: "(string, deletion) table"
  scopes :: "(string \<times> string, artifact_scope) table"
  outbox :: outbox_db

definition empty_ha :: ha_db where
  "empty_ha = \<lparr>kbs = [], mleases = [], sgens = [], sheads = [], igens = [], iheads = [], readers = [],
     dels = [], scopes = [], outbox = \<lparr>events = [], event_keys = []\<rparr>\<rparr>"

end
