(* ===== verification/HA_Registry.thy ===== *)
theory HA_Registry
  imports HA_Tables Epoch Lifecycle
begin

text \<open>
  The distributed registry and the mutation leases (\<open>ha/api_state.py\<close>, \<open>DistributedKnowledgeBaseRegistry\<close>
  and \<open>DistributedMutationCoordinator\<close>).  The registry is the authority for the identity, lifecycle and
  epoch of every knowledge base; it offers the same two interfaces as the single-node files
  (\<open>status\<close>/\<open>set\<close> and \<open>current\<close>/\<open>bump\<close>), so it interprets the same two locales.  A mutation lease is the
  right to change a knowledge base, fenced by a token, a counter and the epoch it was acquired at.

  A method is its transaction; clock readings, new tokens and time stamps are arguments.
\<close>

section \<open>Identity\<close>

text \<open>\<open>KnowledgeBaseRegistry._validate_kb_id\<close>, \<open>_normalize_identity_id\<close> and \<open>_make_storage_id\<close>.\<close>

definition validate_kb_id :: "string \<Rightarrow> string res" where
  "validate_kb_id v =
     (if v = [] \<or> v \<noteq> py_strip v \<or> 56 < length v \<or> v \<in> {''.'', ''..''} \<or> char_of (0::nat) \<in> set v
         \<or> list_ex (\<lambda>c. c = CHR ''/'' \<or> c = char_of (92::nat) \<or> py_space c) v
      then Inl (ValueError ''invalid kb_id'') else Inr v)"

definition normalize_identity_id :: "string \<Rightarrow> string \<Rightarrow> string res" where
  "normalize_identity_id v field =
     (let n = py_strip v in
      if n = [] \<or> 160 < length n \<or> list_ex (\<lambda>c. ord_char c < 32 \<or> ord_char c = 127) n
      then Inl (ValueError (''invalid '' @ field)) else Inr n)"

definition make_storage_id :: "codec \<Rightarrow> string \<Rightarrow> string \<Rightarrow> string" where
  "make_storage_id c kb tenant =
     (if tenant = ''default'' then kb
      else ''t-'' @ sha256 c (''cogdoc-kb-storage-v1'' @ char_of (0::nat) # json_body c (JArr [JStr tenant, JStr kb])))"

definition storage_id_for :: "codec \<Rightarrow> string \<Rightarrow> string \<Rightarrow> string res" where
  "storage_id_for c kb tenant =
     bindR (validate_kb_id kb) (\<lambda>kb.
     bindR (normalize_identity_id tenant ''tenant_id'') (\<lambda>tenant. Inr (make_storage_id c kb tenant)))"

section \<open>The registry\<close>

text \<open>\<open>_public\<close>: a tombstone is no knowledge base.\<close>

definition kb_public :: "kb_rec option \<Rightarrow> kb_rec option" where
  "kb_public row = (case row of None \<Rightarrow> None | Some b \<Rightarrow> if b_lifecycle b = LIFECYCLE_DELETED then None else Some b)"

definition registry_resolve :: "string \<Rightarrow> string \<Rightarrow> ha_db \<Rightarrow> (string \<times> kb_rec) option res" where
  "registry_resolve kb tenant d =
     bindR (validate_kb_id kb) (\<lambda>kb.
     bindR (normalize_identity_id tenant ''tenant_id'') (\<lambda>tenant.
       Inr (case List.find (\<lambda>(_, b). b_tenant b = tenant \<and> b_kb b = kb) (kbs d) of
              None \<Rightarrow> None
            | Some (sid, b) \<Rightarrow> map_option (\<lambda>b. (sid, b)) (kb_public (Some b)))))"

definition get_by_storage_id :: "string \<Rightarrow> ha_db \<Rightarrow> (string \<times> kb_rec) option" where
  "get_by_storage_id sid d =
     (if sid = [] then None else map_option (\<lambda>b. (sid, b)) (kb_public (map_of (kbs d) sid)))"

definition registry_get :: "string \<Rightarrow> string option \<Rightarrow> ha_db \<Rightarrow> (string \<times> kb_rec) option res" where
  "registry_get kb tenant d =
     (case tenant of None \<Rightarrow> Inr (get_by_storage_id kb d) | Some t \<Rightarrow> registry_resolve kb t d)"

definition registry_list :: "string option \<Rightarrow> ha_db \<Rightarrow> (string \<times> kb_rec) list res" where
  "registry_list tenant d =
     bindR (case tenant of None \<Rightarrow> Inr None
            | Some t \<Rightarrow> bindR (normalize_identity_id t ''tenant_id'') (\<lambda>t. Inr (Some t))) (\<lambda>tenant.
     Inr (sort_key (\<lambda>(_, b). (b_tenant b, b_kb b))
            (filter (\<lambda>(_, b). b_lifecycle b \<noteq> LIFECYCLE_DELETED \<and> (case tenant of None \<Rightarrow> True | Some t \<Rightarrow> b_tenant b = t))
               (kbs d))))"

text \<open>\<open>create\<close>; \<open>hook\<close> is what is bound with \<open>bind_create_hook\<close> (the identity when nothing is) and runs in the
  same transaction.  An existing tombstone becomes active again under the next epoch.\<close>

definition revive :: "string \<Rightarrow> string \<Rightarrow> real \<Rightarrow> kb_rec \<Rightarrow> kb_rec" where
  "revive owner created now b =
     b\<lparr>b_owner := owner, b_created_at := created, b_lifecycle := LIFECYCLE_ACTIVE, b_epoch := b_epoch b + 1,
       b_revision := b_revision b + 1, b_updated_at := now\<rparr>"

definition insert_kb :: "dialect \<Rightarrow> string \<Rightarrow> kb_rec \<Rightarrow> (string, kb_rec) table \<Rightarrow> (string, kb_rec) table res" where
  "insert_kb dia sid b t =
     (if list_ex (\<lambda>(_, x). b_tenant x = b_tenant b \<and> b_kb x = b_kb b) t
      then Inl (case dia of SQLite \<Rightarrow> KBExistsError | Postgres \<Rightarrow> IntegrityError)
      else if map_of t sid \<noteq> None then Inl KBExistsError else Inr (t @ [(sid, b)]))"

definition registry_create :: "dialect \<Rightarrow> codec \<Rightarrow> (string \<Rightarrow> kb_rec \<Rightarrow> ha_db \<Rightarrow> ha_db res) \<Rightarrow> string \<Rightarrow> string \<Rightarrow> string \<Rightarrow>
    string \<Rightarrow> real \<Rightarrow> ha_db \<Rightarrow> ((string \<times> kb_rec) \<times> ha_db) res" where
  "registry_create dia c hook kb tenant owner created now d =
     bindR (validate_kb_id kb) (\<lambda>kb.
     bindR (normalize_identity_id tenant ''tenant_id'') (\<lambda>tenant.
     bindR (normalize_identity_id owner ''owner_id'') (\<lambda>owner.
     let sid = make_storage_id c kb tenant in
     bindR (case map_of (kbs d) sid of
              Some b \<Rightarrow>
                if b_lifecycle b \<noteq> LIFECYCLE_DELETED then Inl KBExistsError
                else Inr (tset sid (\<lambda>b. b_lifecycle b = LIFECYCLE_DELETED) (revive owner created now) (kbs d))
            | None \<Rightarrow>
                insert_kb dia sid \<lparr>b_tenant = tenant, b_kb = kb, b_owner = owner, b_created_at = created,
                    b_lifecycle = LIFECYCLE_ACTIVE, b_epoch = 1, b_revision = 1, b_updated_at = now\<rparr> (kbs d)) (\<lambda>t.
     case map_of t sid of
       None \<Rightarrow> Inl (DistributedStateError ''created knowledge-base row is unavailable'')
     | Some b \<Rightarrow> bindR (hook sid b (d\<lparr>kbs := t\<rparr>)) (\<lambda>d'. Inr ((sid, b), d'))))))"

text \<open>\<open>import_legacy\<close>: one record of the single-node registry; rows that are there are never overwritten.\<close>

record legacy_record =
  lr_kb :: string
  lr_tenant :: string
  lr_owner :: string
  lr_storage :: "string option"
  lr_created_at :: string

definition import_one :: "codec \<Rightarrow> (string \<Rightarrow> string option) \<Rightarrow> (string \<Rightarrow> int option) \<Rightarrow> real \<Rightarrow> legacy_record \<Rightarrow>
    nat \<times> nat \<times> ha_db \<Rightarrow> (nat \<times> nat \<times> ha_db) res" where
  "import_one c lcs eps now r acc =
     (case acc of (imported, skipped, d) \<Rightarrow>
     bindR (validate_kb_id (lr_kb r)) (\<lambda>kb.
     bindR (normalize_identity_id (if lr_tenant r = [] then ''default'' else lr_tenant r) ''tenant_id'') (\<lambda>tenant.
     bindR (normalize_identity_id (if lr_owner r = [] then ''default'' else lr_owner r) ''owner_id'') (\<lambda>owner.
     let sid = make_storage_id c kb tenant; lc = the_default LIFECYCLE_ACTIVE (lcs sid); ep = the_default 1 (eps sid) in
     bindR (guardR (lr_storage r \<in> {None, Some [], Some sid}) (ValueError ''legacy registry storage identity does not match'')) (\<lambda>_.
     bindR (guardR (valid_mark lc) (ValueError ''legacy lifecycle is invalid'')) (\<lambda>_.
     bindR (guardR (1 \<le> ep) (ValueError ''legacy epoch is invalid'')) (\<lambda>_.
     case map_of (kbs d) sid of
       Some b \<Rightarrow>
         if b_tenant b \<noteq> tenant \<or> b_kb b \<noteq> kb
         then Inl (DistributedStateError ''distributed registry identity conflicts with legacy data'')
         else Inr (imported, skipped + 1, d)
     | None \<Rightarrow>
         if list_ex (\<lambda>(_, b). b_tenant b = tenant \<and> b_kb b = kb) (kbs d) then Inl IntegrityError
         else Inr (imported + 1, skipped, d\<lparr>kbs := kbs d @ [(sid, \<lparr>b_tenant = tenant, b_kb = kb, b_owner = owner,
                b_created_at = lr_created_at r, b_lifecycle = lc, b_epoch = ep, b_revision = 1, b_updated_at = now\<rparr>)]\<rparr>))))))))"

fun import_legacy :: "codec \<Rightarrow> (string \<Rightarrow> string option) \<Rightarrow> (string \<Rightarrow> int option) \<Rightarrow> real \<Rightarrow> legacy_record list \<Rightarrow>
    nat \<times> nat \<times> ha_db \<Rightarrow> (nat \<times> nat \<times> ha_db) res" where
  "import_legacy c lcs eps now [] acc = Inr acc"
| "import_legacy c lcs eps now (r # rs) acc =
     bindR (import_one c lcs eps now r acc) (import_legacy c lcs eps now rs)"

definition registry_delete :: "string \<Rightarrow> string option \<Rightarrow> real \<Rightarrow> ha_db \<Rightarrow> (bool \<times> ha_db) res" where
  "registry_delete kb tenant now d =
     bindR (registry_get kb tenant d) (\<lambda>found.
     case found of
       None \<Rightarrow> Inr (False, d)
     | Some (sid, _) \<Rightarrow>
         let p = (\<lambda>b. b_lifecycle b \<noteq> LIFECYCLE_DELETED) in
         Inr (thit sid p (kbs d),
              d\<lparr>kbs := tset sid p (\<lambda>b. b\<lparr>b_lifecycle := LIFECYCLE_DELETED, b_epoch := b_epoch b + 1,
                                     b_revision := b_revision b + 1, b_updated_at := now\<rparr>) (kbs d)\<rparr>))"

definition registry_status :: "string \<Rightarrow> ha_db \<Rightarrow> string res" where
  "registry_status sid d =
     (case map_of (kbs d) sid of
        None \<Rightarrow> Inr LIFECYCLE_DELETED
      | Some b \<Rightarrow> Inr (if valid_mark (b_lifecycle b) then b_lifecycle b else LIFECYCLE_DELETING))"

definition registry_set :: "string \<Rightarrow> string \<Rightarrow> real \<Rightarrow> ha_db \<Rightarrow> unit res \<times> ha_db" where
  "registry_set sid status now d =
     (if \<not> valid_mark status then (Inl (ValueError ''invalid lifecycle status''), d)
      else
        let d' = d\<lparr>kbs := tset sid (\<lambda>_. True) (\<lambda>b. b\<lparr>b_lifecycle := status, b_revision := b_revision b + 1,
                                              b_updated_at := now\<rparr>) (kbs d)\<rparr>
        in if thit sid (\<lambda>_. True) (kbs d) then (Inr (), d') else (Inl (KeyError sid), d'))"

definition registry_current :: "string \<Rightarrow> real \<Rightarrow> ha_db \<Rightarrow> int res \<times> ha_db" where
  "registry_current sid now d = (Inr (case map_of (kbs d) sid of None \<Rightarrow> 0 | Some b \<Rightarrow> b_epoch b), d)"

definition registry_bump :: "string \<Rightarrow> real \<Rightarrow> ha_db \<Rightarrow> int res \<times> ha_db" where
  "registry_bump sid now d =
     (if \<not> thit sid (\<lambda>_. True) (kbs d) then (Inl (KeyError sid), d)
      else
        let t = tset sid (\<lambda>_. True) (\<lambda>b. b\<lparr>b_epoch := b_epoch b + 1, b_revision := b_revision b + 1,
                                        b_updated_at := now\<rparr>) (kbs d)
        in case map_of t sid of
             None \<Rightarrow> (Inl (DistributedStateError ''knowledge-base epoch row is unavailable''), d)
           | Some b \<Rightarrow> (Inr (b_epoch b), d\<lparr>kbs := t\<rparr>))"

text \<open>The registry is a lifecycle authority and an epoch authority, like the files of the single-node
  deployment; nothing makes it unreadable.\<close>

interpretation registry_lifecycle: lifecycle_authority registry_status registry_set "\<lambda>_. True"
  by unfold_locales
    (auto simp: registry_set_def registry_status_def Let_def thit_def split: option.splits if_splits)

interpretation registry_epochs: epoch_authority registry_current registry_bump
  by unfold_locales
    (auto simp: registry_current_def registry_bump_def Let_def thit_def split: option.splits if_splits)

section \<open>Mutation leases\<close>

text \<open>\<open>MutationLease\<close>\<close>

record mlease =
  ml_storage :: string
  ml_owner :: string
  ml_token :: string
  ml_fence :: int
  ml_epoch :: int
  ml_expires_at :: real

text \<open>\<open>acquire\<close>; \<open>secs\<close> is the configured lease time, \<open>tok\<close> is \<open>mut-\<close> and the digits of the new UUID;
  \<open>tput\<close> is the \<open>INSERT\<close> when there is no row and the \<open>UPDATE\<close> when there is one.\<close>

definition acquire_mutation :: "string \<Rightarrow> real \<Rightarrow> string \<Rightarrow> real \<Rightarrow> string \<Rightarrow> ha_db \<Rightarrow> (mlease \<times> ha_db) res" where
  "acquire_mutation owner secs sid now tok d =
     (if sid = [] then Inl (ValueError ''storage_id is invalid'')
      else case map_of (kbs d) sid of
        None \<Rightarrow> Inl (StaleMutationFence ''knowledge base is not active'')
      | Some b \<Rightarrow>
          if b_lifecycle b \<noteq> LIFECYCLE_ACTIVE then Inl (StaleMutationFence ''knowledge base is not active'')
          else
            let cur = map_of (mleases d) sid;
                fence = (case cur of None \<Rightarrow> 1 | Some l \<Rightarrow> l_fence l + 1);
                row = \<lparr>l_owner = owner, l_token = tok, l_expires_at = now + secs, l_fence = fence,
                       l_epoch = b_epoch b, l_updated_at = now\<rparr>
            in bindR (case cur of None \<Rightarrow> Inr () | Some l \<Rightarrow> guardR (l_expires_at l \<le> now) (MutationBusy (l_expires_at l - now))) (\<lambda>_.
                 Inr (\<lparr>ml_storage = sid, ml_owner = owner, ml_token = tok, ml_fence = fence,
                       ml_epoch = b_epoch b, ml_expires_at = now + secs\<rparr>,
                      d\<lparr>mleases := tput sid row (mleases d)\<rparr>)))"

definition heartbeat_mutation :: "real \<Rightarrow> mlease \<Rightarrow> real \<Rightarrow> ha_db \<Rightarrow> (mlease \<times> ha_db) res" where
  "heartbeat_mutation secs lease now d =
     (let p = (\<lambda>l. l_token l = ml_token lease \<and> l_fence l = ml_fence lease \<and> l_epoch l = ml_epoch lease \<and>
                   now < l_expires_at l)
      in if thit (ml_storage lease) p (mleases d)
         then Inr (lease\<lparr>ml_expires_at := now + secs\<rparr>,
                   d\<lparr>mleases := tset (ml_storage lease) p (\<lambda>l. l\<lparr>l_expires_at := now + secs, l_updated_at := now\<rparr>) (mleases d)\<rparr>)
         else Inl (StaleMutationFence ''mutation lease is stale''))"

text \<open>\<open>assert_live\<close>: the join of the lease row with the registry row, then the comparison.\<close>

definition lease_matches :: "mlease \<Rightarrow> real \<Rightarrow> lease_row \<Rightarrow> kb_rec \<Rightarrow> bool" where
  "lease_matches lease now l b \<longleftrightarrow> l_token l = ml_token lease \<and> l_fence l = ml_fence lease \<and>
     l_epoch l = ml_epoch lease \<and> b_epoch b = ml_epoch lease \<and> b_lifecycle b = LIFECYCLE_ACTIVE \<and>
     now < l_expires_at l"

definition assert_live_mutation :: "mlease \<Rightarrow> real \<Rightarrow> ha_db \<Rightarrow> unit res" where
  "assert_live_mutation lease now d =
     (case (map_of (mleases d) (ml_storage lease), map_of (kbs d) (ml_storage lease)) of
        (Some l, Some b) \<Rightarrow> guardR (lease_matches lease now l b) (StaleMutationFence ''mutation authority changed'')
      | _ \<Rightarrow> Inl (StaleMutationFence ''mutation authority changed''))"

definition release_mutation :: "mlease \<Rightarrow> real \<Rightarrow> ha_db \<Rightarrow> ha_db" where
  "release_mutation lease now d =
     d\<lparr>mleases := tset (ml_storage lease) (\<lambda>l. l_token l = ml_token lease)
                    (\<lambda>l. l\<lparr>l_expires_at := 0, l_updated_at := now\<rparr>) (mleases d)\<rparr>"

text \<open>The end of a \<open>with coordinator.lease(...)\<close> block: the outcome of the block (\<open>None\<close> when it returned), then
  the checks, and in any case the release; \<open>lost\<close> says whether the heartbeat thread failed.\<close>

definition exit_lease :: "exn option \<Rightarrow> bool \<Rightarrow> mlease \<Rightarrow> real \<Rightarrow> real \<Rightarrow> ha_db \<Rightarrow> unit res \<times> ha_db" where
  "exit_lease failure lost lease now now' d =
     (case failure of
        Some e \<Rightarrow> Inl e
      | None \<Rightarrow> if lost then Inl (StaleMutationFence ''mutation heartbeat was lost'') else assert_live_mutation lease now d,
      release_mutation lease now' d)"

end
