(* ===== verification/HA_Source.thy ===== *)
theory HA_Source
  imports HA_Registry
begin

text \<open>
  Source generations (\<open>ha/source_generation.py\<close>, \<open>SourceGenerationStore\<close>): the rows a snapshot of the source
  files leaves in the database and the publication that makes one of them the head of its knowledge base.
  The objects the files are stored in and the text of the manifests are outside the model: a row keeps the manifest's
  key, digest and counts.
\<close>

section \<open>Staging\<close>

text \<open>The last step of \<open>stage_directory\<close>, after all objects are stored: the prepared row.  \<open>base\<close> is the head
  that was read before the files were.\<close>

definition insert_source_gen :: "string \<Rightarrow> string \<Rightarrow> mlease \<Rightarrow> string option \<Rightarrow> string option \<Rightarrow> string \<Rightarrow> string \<Rightarrow>
    int \<times> int \<times> int \<times> int \<Rightarrow> real \<Rightarrow> ha_db \<Rightarrow> ha_db res" where
  "insert_source_gen gid tenant lease base build mkey msha counts now d =
     (case counts of (files, bytes, docs, doc_bytes) \<Rightarrow>
     bindR (tinsert gid \<lparr>s_storage = ml_storage lease, s_tenant = tenant, s_epoch = ml_epoch lease, s_base = base,
         s_build = build, s_status = SOURCE_PREPARED, s_manifest_key = mkey, s_manifest_sha = msha,
         s_file_count = files, s_total_bytes = bytes, s_document_count = docs, s_document_bytes = doc_bytes,
         s_fence = ml_fence lease, s_created_at = now, s_published_at = None\<rparr> (sgens d)) (\<lambda>t.
     Inr (d\<lparr>sgens := t\<rparr>)))"

text \<open>The admission check of \<open>stage_for_commit\<close>; the result is the tenant to stage for.\<close>

definition commit_tenant :: "string \<Rightarrow> mlease \<Rightarrow> ha_db \<Rightarrow> string res" where
  "commit_tenant sid lease d =
     (case map_of (kbs d) sid of
        None \<Rightarrow> Inl (StaleMutationFence ''source generation KB incarnation changed'')
      | Some b \<Rightarrow>
          if b_lifecycle b \<noteq> LIFECYCLE_ACTIVE \<or> b_epoch b \<noteq> ml_epoch lease
          then Inl (StaleMutationFence ''source generation KB incarnation changed'')
          else Inr (b_tenant b))"

text \<open>\<open>prepared_for_build\<close>; \<open>verify\<close> is the check of the stored manifest.\<close>

definition prepared_for_build :: "(string \<Rightarrow> source_gen \<Rightarrow> unit res) \<Rightarrow> string \<Rightarrow> string \<Rightarrow> mlease \<Rightarrow> ha_db \<Rightarrow>
    (string \<times> source_gen) option res" where
  "prepared_for_build verify sid build lease d =
     (case rev (sort_key (\<lambda>(i, g). (s_created_at g, i))
            (filter (\<lambda>(_, g). s_storage g = sid \<and> s_build g = Some build \<and> s_status g = SOURCE_PREPARED \<and>
                       s_epoch g = ml_epoch lease \<and> s_fence g = ml_fence lease) (sgens d))) of
        [] \<Rightarrow> Inr None
      | (i, g) # _ \<Rightarrow> bindR (verify i g) (\<lambda>_. Inr (Some (i, g))))"

section \<open>Publication\<close>

definition source_authority :: "source_gen \<Rightarrow> mlease \<Rightarrow> string option \<Rightarrow> kb_rec option \<Rightarrow> lease_row option \<Rightarrow> real \<Rightarrow> bool" where
  "source_authority g lease cur kb auth now \<longleftrightarrow>
     s_storage g = ml_storage lease \<and> s_epoch g = ml_epoch lease \<and> s_fence g = ml_fence lease \<and> s_base g = cur \<and>
     (case kb of None \<Rightarrow> False | Some b \<Rightarrow> b_lifecycle b = LIFECYCLE_ACTIVE \<and> b_epoch b = ml_epoch lease) \<and>
     (case auth of None \<Rightarrow> False
      | Some l \<Rightarrow> l_token l = ml_token lease \<and> l_fence l = ml_fence lease \<and> now < l_expires_at l)"

text \<open>The new head row and its revision.\<close>

definition advance_source_head :: "string \<Rightarrow> string \<Rightarrow> real \<Rightarrow> ha_db \<Rightarrow> (int \<times> ha_db) res" where
  "advance_source_head sid gid now d =
     (case map_of (sheads d) sid of
        None \<Rightarrow> Inr (1, d\<lparr>sheads := sheads d @ [(sid, \<lparr>sh_gen = gid, sh_revision = 1, sh_updated_at = now\<rparr>)]\<rparr>)
      | Some h \<Rightarrow>
          let p = (\<lambda>x. sh_gen x = sh_gen h) in
          if thit sid p (sheads d)
          then Inr (sh_revision h + 1,
                    d\<lparr>sheads := tset sid p (\<lambda>x. x\<lparr>sh_gen := gid, sh_revision := sh_revision h + 1,
                                              sh_updated_at := now\<rparr>) (sheads d)\<rparr>)
          else Inl (StaleMutationFence ''source generation head CAS failed''))"

definition supersede_source :: "string option \<Rightarrow> ha_db \<Rightarrow> ha_db" where
  "supersede_source cur d =
     (case cur of None \<Rightarrow> d
      | Some i \<Rightarrow> d\<lparr>sgens := tset i (\<lambda>x. s_status x = SOURCE_ACTIVE) (\<lambda>x. x\<lparr>s_status := SOURCE_SUPERSEDED\<rparr>) (sgens d)\<rparr>)"

text \<open>\<open>_publish_locked\<close>.  With an outbox bound the publication appends an event; \<open>etime\<close> and \<open>eid\<close> are the
  outbox's clock reading and new identifier.  The result is the published row, without the revision the
  code adds to it.\<close>

definition source_event :: "dialect \<Rightarrow> codec \<Rightarrow> real \<Rightarrow> string \<Rightarrow> string \<Rightarrow> source_gen \<Rightarrow> mlease \<Rightarrow> int \<Rightarrow> ha_db \<Rightarrow> ha_db res" where
  "source_event dia c etime eid gid g lease revn d =
     bindR (outbox_append dia c (s_tenant g) ''kb.source-generation.published'' ''knowledge_base'' (ml_storage lease) revn
              (JObj [(''storage_id'', JStr (ml_storage lease)), (''kb_epoch'', JInt (ml_epoch lease)),
                     (''generation_id'', JStr gid), (''manifest_sha256'', JStr (s_manifest_sha g))])
              None (Some (''source-generation:'' @ gid)) 10 None etime eid (outbox d))
       (\<lambda>(_, ob). Inr (d\<lparr>outbox := ob\<rparr>))"

definition publish_source :: "dialect \<Rightarrow> codec \<Rightarrow> bool \<Rightarrow> string \<Rightarrow> mlease \<Rightarrow> real \<Rightarrow> real \<Rightarrow> string \<Rightarrow> ha_db \<Rightarrow>
    (source_gen \<times> ha_db) res" where
  "publish_source dia c bound gid lease now etime eid d =
     (case map_of (sgens d) gid of
        None \<Rightarrow> Inl ObjectNotFound
      | Some g \<Rightarrow>
          if s_status g = SOURCE_ACTIVE then Inr (g, d)
          else if s_status g \<noteq> SOURCE_PREPARED then Inl SourceGenerationConflict
          else
            let sid = ml_storage lease; cur = map_option sh_gen (map_of (sheads d) sid) in
            if \<not> source_authority g lease cur (map_of (kbs d) sid) (map_of (mleases d) sid) now
            then Inl (StaleMutationFence ''source generation publication lost authority'')
            else bindR (advance_source_head sid gid now (supersede_source cur d)) (\<lambda>(revn, d1).
              let d2 = d1\<lparr>sgens := tset gid (\<lambda>x. s_status x = SOURCE_PREPARED)
                               (\<lambda>x. x\<lparr>s_status := SOURCE_ACTIVE, s_published_at := Some now\<rparr>) (sgens d1)\<rparr> in
              bindR (if bound then source_event dia c etime eid gid g lease revn d2 else Inr d2) (\<lambda>d3.
              Inr (g\<lparr>s_status := SOURCE_ACTIVE, s_published_at := Some now\<rparr>, d3))))"

text \<open>\<open>publication_hook\<close> verifies the manifest when it is made, at \<open>d0\<close>; the hook runs later, in the
  transaction of the index publication or of \<open>publish\<close>.\<close>

definition publication_hook :: "(string \<Rightarrow> source_gen \<Rightarrow> unit res) \<Rightarrow> dialect \<Rightarrow> codec \<Rightarrow> bool \<Rightarrow> string \<Rightarrow> mlease \<Rightarrow> ha_db \<Rightarrow>
    (real \<Rightarrow> real \<Rightarrow> string \<Rightarrow> ha_db \<Rightarrow> (source_gen \<times> ha_db) res) res" where
  "publication_hook verify dia c bound gid lease d0 =
     (case map_of (sgens d0) gid of
        None \<Rightarrow> Inl ObjectNotFound
      | Some g \<Rightarrow> bindR (verify gid g) (\<lambda>_. Inr (publish_source dia c bound gid lease)))"

definition source_current :: "string \<Rightarrow> ha_db \<Rightarrow> (string \<times> source_gen \<times> int) option" where
  "source_current sid d =
     (case map_of (sheads d) sid of None \<Rightarrow> None
      | Some h \<Rightarrow> map_option (\<lambda>g. (sh_gen h, g, sh_revision h)) (map_of (sgens d) (sh_gen h)))"

section \<open>Retention\<close>

definition source_collectable :: "real \<Rightarrow> source_gen \<Rightarrow> bool" where
  "source_collectable before g \<longleftrightarrow> s_status g = SOURCE_PREPARED \<and> s_created_at g < before \<or>
     s_status g = SOURCE_SUPERSEDED \<and> (case s_published_at g of None \<Rightarrow> False | Some t \<Rightarrow> t < before)"

definition is_source_head :: "string \<Rightarrow> ha_db \<Rightarrow> bool" where
  "is_source_head gid d \<longleftrightarrow> list_ex (\<lambda>(_, h). sh_gen h = gid) (sheads d)"

definition source_garbage :: "pyfloat \<Rightarrow> int \<Rightarrow> ha_db \<Rightarrow> (string \<times> source_gen) list res" where
  "source_garbage before limit d =
     bindR (guardR (isfinite before \<and> 0 \<le> fin_val before) (ValueError ''source generation retention cutoff is invalid'')) (\<lambda>_.
     bindR (guardR (1 \<le> limit \<and> limit \<le> 1000) (ValueError ''source generation cleanup limit is invalid'')) (\<lambda>_.
     Inr (sql_select (\<lambda>(i, g). \<not> is_source_head i d \<and> source_collectable (fin_val before) g)
            (\<lambda>(i, g). (s_created_at g, i)) (nat limit) (sgens d))))"

definition forget_source :: "string \<Rightarrow> real \<Rightarrow> ha_db \<Rightarrow> bool \<times> ha_db" where
  "forget_source gid before d =
     (let p = (\<lambda>g. \<not> is_source_head gid d \<and> source_collectable before g)
      in (thit gid p (sgens d), d\<lparr>sgens := tdelete gid p (sgens d)\<rparr>))"

end
