(* ===== verification/Index_Manifest.thy ===== *)
theory Index_Manifest
  imports HA_Storage
begin

text \<open>
  The manifest of an index generation (\<open>normalize_manifest\<close> of \<open>ha/index_generation.py\<close>): the checks it
  makes of a manifest from outside, the canonical document it stores and the digest of that document.
\<close>

section \<open>Paths\<close>

text \<open>\<open>PurePosixPath(s).parts\<close> and \<open>as_posix\<close> of a relative path: empty and \<open>.\<close> components disappear.\<close>

definition posix_parts :: "string \<Rightarrow> string list" where
  "posix_parts s = filter (\<lambda>p. p \<noteq> [] \<and> p \<noteq> ''.'') (split_on (CHR ''/'') s)"

definition as_posix :: "string \<Rightarrow> string" where
  "as_posix s = (if posix_parts s = [] then ''.'' else join_with ''/'' (posix_parts s))"

definition is_absolute :: "string \<Rightarrow> bool" where
  "is_absolute s = (case s of [] \<Rightarrow> False | c # _ \<Rightarrow> c = CHR ''/'')"

definition backslash :: char where
  "backslash = char_of (92::nat)"

definition is_hex64 :: "string \<Rightarrow> bool" where
  "is_hex64 s \<longleftrightarrow> length s = 64 \<and> list_all (\<lambda>c. let n = ord_char c in 48 \<le> n \<and> n \<le> 57 \<or> 97 \<le> n \<and> n \<le> 102) s"

section \<open>Normalisation\<close>

text \<open>\<open>str(v or "")\<close>; \<open>rep\<close> is \<open>repr\<close> of floats, lists and dictionaries.\<close>

fun py_str :: "(json \<Rightarrow> string) \<Rightarrow> json \<Rightarrow> string" where
  "py_str rep (JStr s) = s"
| "py_str rep (JInt i) = show_int i"
| "py_str rep (JBool b) = (if b then ''True'' else ''False'')"
| "py_str rep JNull = ''None''"
| "py_str rep v = rep v"

definition str_or_empty :: "(json \<Rightarrow> string) \<Rightarrow> json \<Rightarrow> string" where
  "str_or_empty rep v = (if truthy v then py_str rep v else [])"

text \<open>One file of the manifest: its path, digest and size.\<close>

fun manifest_size :: "json \<Rightarrow> int option" where
  "manifest_size (JInt n) = (if 0 \<le> n then Some n else None)"
| "manifest_size _ = None"

definition manifest_file :: "(json \<Rightarrow> string) \<Rightarrow> string list \<Rightarrow> json \<Rightarrow> (string \<times> string \<times> int) res" where
  "manifest_file rep paths raw =
     (if \<not> is_obj raw then Inl (ValueError ''index manifest file is invalid'')
      else
        let path = str_or_empty rep (jfield raw ''path'');
            digest = str_or_empty rep (jfield raw ''sha256'') in
        if path = [] \<or> is_absolute path \<or> path \<noteq> as_posix path \<or> backslash \<in> set path
           \<or> list_ex (\<lambda>p. p = ''..'') (posix_parts path) \<or> path \<in> set paths \<or> 1024 < utf8_len path
        then Inl (ValueError ''index manifest path is unsafe or duplicated'')
        else if \<not> is_hex64 digest then Inl (ValueError ''index manifest file hash or size is invalid'')
        else (case manifest_size (jfield raw ''byte_size'') of
                None \<Rightarrow> Inl (ValueError ''index manifest file hash or size is invalid'')
              | Some n \<Rightarrow> Inr (path, digest, n)))"

definition ten_tib :: int where
  "ten_tib = 10 * 1024 ^ 4"

fun manifest_files :: "(json \<Rightarrow> string) \<Rightarrow> json list \<Rightarrow> (string \<times> string \<times> int) list \<Rightarrow> int \<Rightarrow>
    ((string \<times> string \<times> int) list \<times> int) res" where
  "manifest_files rep [] files bytes = Inr (files, bytes)"
| "manifest_files rep (raw # rest) files bytes =
     bindR (manifest_file rep (map fst files) raw) (\<lambda>(path, digest, n).
       if ten_tib < bytes + n then Inl (ValueError ''index generation exceeds 10 TiB'')
       else manifest_files rep rest (files @ [(path, digest, n)]) (bytes + n))"

definition file_json :: "string \<times> string \<times> int \<Rightarrow> json" where
  "file_json f = (case f of (path, digest, n) \<Rightarrow>
     JObj [(''path'', JStr path), (''sha256'', JStr digest), (''byte_size'', JInt n)])"

text \<open>\<open>_canonical\<close>: the document with sorted keys, or the error.\<close>

definition canonical_manifest :: "codec \<Rightarrow> json \<Rightarrow> json res" where
  "canonical_manifest c v =
     (case json_dumps (float_repr c) v of
        None \<Rightarrow> Inl (ValueError ''index manifest must be JSON serializable'')
      | Some t \<Rightarrow> if 16 * 1024 * 1024 < utf8_len t then Inl (ValueError ''index manifest exceeds 16 MiB'')
                  else Inr (json_canon v))"

fun manifest_dims :: "json \<Rightarrow> int option" where
  "manifest_dims (JInt n) = (if 1 \<le> n \<and> n \<le> 1000000 then Some n else None)"
| "manifest_dims _ = None"

definition manifest_doc :: "string \<Rightarrow> string \<Rightarrow> int \<Rightarrow> (string \<times> string \<times> int) list \<Rightarrow> int \<Rightarrow> json" where
  "manifest_doc chunk model dims files bytes =
     JObj [(''schema_version'', JStr ''index-manifest-v1''),
           (''contract'', JObj [(''chunk_version'', JStr chunk), (''embedding_model'', JStr model), (''dimensions'', JInt dims)]),
           (''files'', JArr (map file_json (sort_key fst files))),
           (''total_bytes'', JInt bytes)]"

text \<open>The normalised manifest (in canonical form) and its digest.\<close>

definition normalize_manifest :: "(json \<Rightarrow> string) \<Rightarrow> codec \<Rightarrow> json \<Rightarrow> (json \<times> string) res" where
  "normalize_manifest rep c m =
     bindR (guardR (is_obj m \<and> jfield m ''schema_version'' = JStr ''index-manifest-v1'')
              (ValueError ''index manifest schema is invalid'')) (\<lambda>_.
     let contract = jfield m ''contract'' in
     bindR (guardR (is_obj contract) (ValueError ''index manifest contract is required'')) (\<lambda>_.
     bindR (clean (str_or_empty rep (jfield contract ''chunk_version'')) ''chunk_version'' 255) (\<lambda>chunk.
     bindR (clean (str_or_empty rep (jfield contract ''embedding_model'')) ''embedding_model'' 512) (\<lambda>model.
     case manifest_dims (jfield contract ''dimensions'') of
       None \<Rightarrow> Inl (ValueError ''index dimensions are invalid'')
     | Some dims \<Rightarrow>
         (case jfield m ''files'' of
            JArr raws \<Rightarrow>
              if 100000 < length raws then Inl (ValueError ''index manifest files are invalid'')
              else bindR (manifest_files rep raws [] 0) (\<lambda>(files, bytes).
                   bindR (canonical_manifest c (manifest_doc chunk model dims files bytes)) (\<lambda>doc.
                   Inr (doc, sha256 c (json_body c doc))))
          | _ \<Rightarrow> Inl (ValueError ''index manifest files are invalid''))))))"

end
