(* ===== verification/HA_Index.thy ===== *)
theory HA_Index
  imports HA_Registry Index_Manifest
begin

text \<open>
  Index generations (\<open>ha/index_generation.py\<close>, \<open>IndexGenerationStore\<close>): builds leased to workers and fenced by
  a counter on the head of their knowledge base, publication by compare-and-swap of the head, reader leases,
  and retention.  A method is its transaction; clock readings, new identifiers and tokens are arguments.
  \<open>guard\<close> is the authority guard (the constant success when none is bound).
\<close>

section \<open>Builds\<close>

type_synonym igen = "string \<times> index_gen"

definition index_lease :: "string \<Rightarrow> pyfloat \<Rightarrow> real res" where
  "index_lease what secs =
     (if isfinite secs \<and> 5 \<le> fin_val secs \<and> fin_val secs \<le> 3600 then Inr (fin_val secs)
      else Inl (ValueError (what @ '' lease_seconds must be between 5 and 3600'')))"

definition same_build :: "string \<Rightarrow> string \<Rightarrow> string \<Rightarrow> igen \<Rightarrow> bool" where
  "same_build tenant kb build r \<longleftrightarrow> g_tenant (snd r) = tenant \<and> g_kb (snd r) = kb \<and> g_build (snd r) = build"

definition rotate_lease :: "string \<Rightarrow> string \<Rightarrow> real \<Rightarrow> index_gen \<Rightarrow> index_gen" where
  "rotate_lease worker tok expires g = g\<lparr>g_owner := worker, g_token := tok, g_expires_at := expires\<rparr>"

definition get_igen :: "string \<Rightarrow> ha_db \<Rightarrow> igen option" where
  "get_igen gid d = map_option (\<lambda>g. (gid, g)) (map_of (igens d) gid)"

text \<open>\<open>begin_build\<close> on the head that exists: the build under this \<open>build_id\<close>, or a new one under the next
  fencing token.\<close>

definition adopt_build :: "string \<Rightarrow> real \<Rightarrow> real \<Rightarrow> string \<Rightarrow> index_head \<Rightarrow> igen \<Rightarrow> ha_db \<Rightarrow> (igen option \<times> ha_db) res" where
  "adopt_build worker secs now tok h r d =
     (case r of (gid, g) \<Rightarrow>
      if g_status g = GEN_PUBLISHED then Inr (Some (gid, g), d)
      else if now < g_expires_at g then
        (if g_owner g \<noteq> worker then Inl (IndexConflict ''index build_id is already owned by another worker'')
         else Inr (Some (gid, g), d))
      else if g_fence g \<noteq> ih_fence h then Inl (StaleIndexFence ''index generation was superseded'')
      else
        let d' = d\<lparr>igens := tset gid (\<lambda>_. True) (rotate_lease worker tok (now + secs)) (igens d)\<rparr>
        in Inr (get_igen gid d', d'))"

definition new_build :: "string \<Rightarrow> string \<Rightarrow> string \<Rightarrow> string \<Rightarrow> real \<Rightarrow> real \<Rightarrow> string \<Rightarrow> string \<Rightarrow> index_head \<Rightarrow> ha_db \<Rightarrow>
    (igen option \<times> ha_db) res" where
  "new_build tenant kb build worker secs now gid tok h d =
     bindR (tinsert gid \<lparr>g_tenant = tenant, g_kb = kb, g_build = build, g_status = GEN_BUILDING, g_base = ih_current h,
         g_fence = ih_fence h + 1, g_owner = worker, g_token = tok, g_expires_at = now + secs, g_manifest = None,
         g_manifest_sha = None, g_created_at = now, g_prepared_at = None, g_published_at = None,
         g_aborted_at = None\<rparr> (igens d)) (\<lambda>t.
     let d' = d\<lparr>igens := t, iheads := tset (tenant, kb) (\<lambda>_. True)
                (\<lambda>x. x\<lparr>ih_fence := ih_fence h + 1, ih_updated_at := now, ih_revision := ih_revision x + 1\<rparr>) (iheads d)\<rparr>
     in Inr (get_igen gid d', d'))"

definition begin_build :: "(string \<Rightarrow> string \<Rightarrow> ha_db \<Rightarrow> unit res) \<Rightarrow> string \<Rightarrow> string \<Rightarrow> string \<Rightarrow> string \<Rightarrow> string option \<Rightarrow>
    pyfloat \<Rightarrow> real \<Rightarrow> string \<Rightarrow> string \<Rightarrow> ha_db \<Rightarrow> (igen option \<times> ha_db) res" where
  "begin_build guard tenant kb build worker base secs now gid tok d =
     bindR (clean tenant ''tenant_id'' 255) (\<lambda>_.
     bindR (clean kb ''kb_id'' 255) (\<lambda>_.
     bindR (clean build ''build_id'' 255) (\<lambda>_.
     bindR (clean worker ''worker_id'' 255) (\<lambda>_.
     bindR (clean_opt base ''base_generation_id'' 255) (\<lambda>_.
     bindR (index_lease ''index'' secs) (\<lambda>secs.
     bindR (guard tenant kb d) (\<lambda>_.
     let d1 = d\<lparr>iheads := tinsert_ignore (tenant, kb)
                \<lparr>ih_current = None, ih_fence = 0, ih_revision = 0, ih_updated_at = now\<rparr> (iheads d)\<rparr> in
     case map_of (iheads d1) (tenant, kb) of
       None \<Rightarrow> Inl (IndexGenerationError ''index head creation failed'')
     | Some h \<Rightarrow>
         if base \<noteq> None \<and> ih_current h \<noteq> base then Inl (IndexConflict ''index base generation changed'')
         else (case List.find (same_build tenant kb build) (igens d1) of
                 Some r \<Rightarrow> adopt_build worker secs now tok h r d1
               | None \<Rightarrow> new_build tenant kb build worker secs now gid tok h d1))))))))"

definition head_fence :: "index_gen \<Rightarrow> ha_db \<Rightarrow> int option" where
  "head_fence g d = map_option ih_fence (map_of (iheads d) (g_tenant g, g_kb g))"

definition open_status :: "index_gen \<Rightarrow> bool" where
  "open_status g \<longleftrightarrow> g_status g = GEN_BUILDING \<or> g_status g = GEN_PREPARED"

definition resume_build :: "string \<Rightarrow> string \<Rightarrow> pyfloat \<Rightarrow> real \<Rightarrow> string \<Rightarrow> ha_db \<Rightarrow> (igen option \<times> ha_db) res" where
  "resume_build gid worker secs now tok d =
     bindR (clean gid ''generation_id'' 255) (\<lambda>_.
     bindR (clean worker ''worker_id'' 255) (\<lambda>_.
     bindR (index_lease ''index'' secs) (\<lambda>secs.
     case map_of (igens d) gid of
       None \<Rightarrow> Inl (IndexConflict ''index generation cannot be resumed'')
     | Some g \<Rightarrow>
         if \<not> open_status g then Inl (IndexConflict ''index generation cannot be resumed'')
         else if head_fence g d \<noteq> Some (g_fence g) then Inl (StaleIndexFence ''index generation was superseded'')
         else if now < g_expires_at g then Inl (IndexConflict ''index generation lease is still active'')
         else
           let d' = d\<lparr>igens := tset gid (\<lambda>_. True) (rotate_lease worker tok (now + secs)) (igens d)\<rparr>
           in Inr (get_igen gid d', d'))))"

definition heartbeat_index :: "string \<Rightarrow> string \<Rightarrow> pyfloat \<Rightarrow> real \<Rightarrow> ha_db \<Rightarrow> (igen option \<times> ha_db) res" where
  "heartbeat_index gid tok secs now d =
     bindR (clean gid ''generation_id'' 255) (\<lambda>_.
     bindR (clean tok ''lease_token'' 512) (\<lambda>_.
     bindR (index_lease ''index'' secs) (\<lambda>secs.
     let p = (\<lambda>g. g_token g = tok \<and> open_status g \<and> now < g_expires_at g);
         d' = d\<lparr>igens := tset gid p (\<lambda>g. g\<lparr>g_expires_at := now + secs\<rparr>) (igens d)\<rparr>
     in if thit gid p (igens d) then Inr (get_igen gid d', d')
        else Inl (StaleIndexFence ''index build lease is stale''))))"

text \<open>\<open>_require_live\<close> and \<open>_require_current_fence\<close>\<close>

definition require_live :: "index_gen option \<Rightarrow> string \<Rightarrow> real \<Rightarrow> gen_status list \<Rightarrow> index_gen res" where
  "require_live r tok now statuses =
     (case r of None \<Rightarrow> Inl (StaleIndexFence ''index build lease is stale or expired'')
      | Some g \<Rightarrow>
          if g_status g \<notin> set statuses \<or> g_token g \<noteq> tok \<or> g_expires_at g \<le> now
          then Inl (StaleIndexFence ''index build lease is stale or expired'') else Inr g)"

definition require_current_fence :: "index_gen \<Rightarrow> ha_db \<Rightarrow> unit res" where
  "require_current_fence g d =
     guardR (head_fence g d = Some (g_fence g)) (StaleIndexFence ''index generation was superseded'')"

definition set_prepared :: "json \<Rightarrow> string \<Rightarrow> real \<Rightarrow> index_gen \<Rightarrow> index_gen" where
  "set_prepared doc sha now g =
     g\<lparr>g_status := GEN_PREPARED, g_manifest := Some doc, g_manifest_sha := Some sha, g_prepared_at := Some now\<rparr>"

definition prepare_index :: "(json \<Rightarrow> string) \<Rightarrow> codec \<Rightarrow> string \<Rightarrow> string \<Rightarrow> json \<Rightarrow> real \<Rightarrow> ha_db \<Rightarrow> (igen option \<times> ha_db) res" where
  "prepare_index rep c gid tok manifest now d =
     bindR (clean gid ''generation_id'' 255) (\<lambda>_.
     bindR (clean tok ''lease_token'' 512) (\<lambda>_.
     bindR (normalize_manifest rep c manifest) (\<lambda>(doc, sha).
     bindR (require_live (map_of (igens d) gid) tok now [GEN_BUILDING, GEN_PREPARED]) (\<lambda>g.
     if g_status g = GEN_PREPARED then
       (if g_manifest_sha g \<noteq> Some sha then Inl (IndexConflict ''prepared index manifest changed'')
        else Inr (Some (gid, g), d))
     else bindR (require_current_fence g d) (\<lambda>_.
       let d' = d\<lparr>igens := tset gid (\<lambda>g. g_token g = tok \<and> g_status g = GEN_BUILDING) (set_prepared doc sha now) (igens d)\<rparr>
       in Inr (get_igen gid d', d'))))))"

section \<open>Publication\<close>

text \<open>The transaction of \<open>publish\<close>; \<open>verify\<close> checks the stored files, \<open>hook\<close> is \<open>on_publish\<close>.\<close>

definition publish_commit :: "(string \<Rightarrow> string \<Rightarrow> ha_db \<Rightarrow> unit res) \<Rightarrow> (igen \<Rightarrow> unit res) \<Rightarrow> (igen \<Rightarrow> ha_db \<Rightarrow> ha_db res) \<Rightarrow>
    string \<Rightarrow> string \<Rightarrow> real \<Rightarrow> ha_db \<Rightarrow> ha_db res" where
  "publish_commit guard verify hook gid tok now d =
     bindR (require_live (map_of (igens d) gid) tok now [GEN_PREPARED]) (\<lambda>g.
     bindR (guard (g_tenant g) (g_kb g) d) (\<lambda>_.
     bindR (require_current_fence g d) (\<lambda>_.
     bindR (verify (gid, g)) (\<lambda>_.
     case map_of (iheads d) (g_tenant g, g_kb g) of
       None \<Rightarrow> Inl (StaleIndexFence ''index head is unavailable'')
     | Some h \<Rightarrow>
         if ih_current h \<noteq> g_base g then Inl (IndexConflict ''current index generation changed'')
         else
           let p = (\<lambda>x. ih_revision x = ih_revision h \<and> ih_fence x = g_fence g);
               d1 = d\<lparr>iheads := tset (g_tenant g, g_kb g) p
                  (\<lambda>x. x\<lparr>ih_current := Some gid, ih_updated_at := now, ih_revision := ih_revision x + 1\<rparr>) (iheads d)\<rparr>;
               q = (\<lambda>x. g_status x = GEN_PREPARED \<and> g_token x = tok);
               d2 = d1\<lparr>igens := tset gid q (\<lambda>x. x\<lparr>g_status := GEN_PUBLISHED, g_published_at := Some now,
                                            g_expires_at := now\<rparr>) (igens d1)\<rparr>
           in if \<not> thit (g_tenant g, g_kb g) p (iheads d) then Inl (StaleIndexFence ''index publication CAS failed'')
              else if \<not> thit gid q (igens d1) then Inl (StaleIndexFence ''index generation publication was superseded'')
              else hook (gid, g) d2))))"

text \<open>\<open>publish\<close>: the candidate is read and verified at \<open>d0\<close> (time \<open>now0\<close>), before the transaction at \<open>d\<close>.\<close>

definition publish_index :: "(string \<Rightarrow> string \<Rightarrow> ha_db \<Rightarrow> unit res) \<Rightarrow> (igen \<Rightarrow> unit res) \<Rightarrow> (igen \<Rightarrow> ha_db \<Rightarrow> ha_db res) \<Rightarrow>
    string \<Rightarrow> string \<Rightarrow> real \<Rightarrow> ha_db \<Rightarrow> real \<Rightarrow> ha_db \<Rightarrow> (igen option \<times> ha_db) res" where
  "publish_index guard verify hook gid tok now0 d0 now d =
     bindR (clean gid ''generation_id'' 255) (\<lambda>_.
     bindR (clean tok ''lease_token'' 512) (\<lambda>_.
     bindR (require_live (map_of (igens d0) gid) tok now0 [GEN_PREPARED]) (\<lambda>g.
     bindR (verify (gid, g)) (\<lambda>_.
     bindR (publish_commit guard verify hook gid tok now d) (\<lambda>d'. Inr (get_igen gid d', d'))))))"

definition abort_index :: "string \<Rightarrow> string \<Rightarrow> real \<Rightarrow> ha_db \<Rightarrow> (igen option \<times> ha_db) res" where
  "abort_index gid tok now d =
     bindR (clean gid ''generation_id'' 255) (\<lambda>_.
     bindR (clean tok ''lease_token'' 512) (\<lambda>_.
     let p = (\<lambda>g. g_token g = tok \<and> open_status g \<and> now < g_expires_at g);
         d' = d\<lparr>igens := tset gid p (\<lambda>g. g\<lparr>g_status := GEN_ABORTED, g_aborted_at := Some now, g_expires_at := now\<rparr>) (igens d)\<rparr>
     in if thit gid p (igens d) then Inr (get_igen gid d', d')
        else Inl (StaleIndexFence ''index generation cannot be aborted'')))"

section \<open>Readers\<close>

definition index_current :: "string \<Rightarrow> string \<Rightarrow> ha_db \<Rightarrow> igen option res" where
  "index_current tenant kb d =
     bindR (clean tenant ''tenant_id'' 255) (\<lambda>_.
     bindR (clean kb ''kb_id'' 255) (\<lambda>_.
     Inr (case map_of (iheads d) (tenant, kb) of
            None \<Rightarrow> None
          | Some h \<Rightarrow> (case ih_current h of
                        None \<Rightarrow> None
                      | Some i \<Rightarrow> (case get_igen i d of
                                    None \<Rightarrow> None
                                  | Some r \<Rightarrow> if g_status (snd r) = GEN_PUBLISHED then Some r else None)))))"

text \<open>\<open>acquire_reader\<close>: the frozen generation with the new reader lease, or nothing to read.\<close>

definition acquire_reader :: "string \<Rightarrow> string \<Rightarrow> string \<Rightarrow> pyfloat \<Rightarrow> real \<Rightarrow> string \<Rightarrow> string \<Rightarrow> ha_db \<Rightarrow>
    ((igen \<times> string \<times> string \<times> real) option \<times> ha_db) res" where
  "acquire_reader tenant kb owner secs now rid tok d =
     bindR (clean tenant ''tenant_id'' 255) (\<lambda>_.
     bindR (clean kb ''kb_id'' 255) (\<lambda>_.
     bindR (clean owner ''lease_owner'' 255) (\<lambda>_.
     bindR (index_lease ''reader'' secs) (\<lambda>secs.
     case (case map_of (iheads d) (tenant, kb) of None \<Rightarrow> None | Some h \<Rightarrow> ih_current h) of
       None \<Rightarrow> Inr (None, d)
     | Some gid \<Rightarrow>
         if gid = [] then Inr (None, d)
         else (case map_of (igens d) gid of
                 None \<Rightarrow> Inl IndexIntegrityError
               | Some g \<Rightarrow>
                   if g_tenant g \<noteq> tenant \<or> g_kb g \<noteq> kb \<or> g_status g \<noteq> GEN_PUBLISHED then Inl IndexIntegrityError
                   else bindR (tinsert rid \<lparr>rl_gen = gid, rl_owner = owner, rl_token = tok, rl_expires_at = now + secs,
                                  rl_created_at = now, rl_updated_at = now\<rparr> (readers d)) (\<lambda>t.
                        Inr (Some ((gid, g), rid, tok, now + secs), d\<lparr>readers := t\<rparr>)))))))"

definition heartbeat_reader :: "string \<Rightarrow> string \<Rightarrow> pyfloat \<Rightarrow> real \<Rightarrow> ha_db \<Rightarrow> ha_db res" where
  "heartbeat_reader rid tok secs now d =
     bindR (clean rid ''reader_id'' 255) (\<lambda>_.
     bindR (clean tok ''reader_lease_token'' 512) (\<lambda>_.
     bindR (index_lease ''reader'' secs) (\<lambda>secs.
     let p = (\<lambda>r. rl_token r = tok \<and> now < rl_expires_at r) in
     if thit rid p (readers d)
     then Inr (d\<lparr>readers := tset rid p (\<lambda>r. r\<lparr>rl_expires_at := now + secs, rl_updated_at := now\<rparr>) (readers d)\<rparr>)
     else Inl (StaleIndexFence ''index reader lease is stale''))))"

definition release_reader :: "string \<Rightarrow> string \<Rightarrow> ha_db \<Rightarrow> (bool \<times> ha_db) res" where
  "release_reader rid tok d =
     bindR (clean rid ''reader_id'' 255) (\<lambda>_.
     bindR (clean tok ''reader_lease_token'' 512) (\<lambda>_.
     let p = (\<lambda>r. rl_token r = tok) in Inr (thit rid p (readers d), d\<lparr>readers := tdelete rid p (readers d)\<rparr>)))"

definition prune_reader_leases :: "pyfloat \<Rightarrow> int \<Rightarrow> ha_db \<Rightarrow> (nat \<times> ha_db) res" where
  "prune_reader_leases before limit d =
     bindR (guardR (isfinite before) (ValueError ''reader lease cutoff must be finite'')) (\<lambda>_.
     bindR (guardR (1 \<le> limit \<and> limit \<le> 10000) (ValueError ''reader lease limit is invalid'')) (\<lambda>_.
     let rows = sql_select (\<lambda>(_, r). rl_expires_at r \<le> fin_val before) (\<lambda>(i, r). (rl_expires_at r, i)) (nat limit) (readers d)
     in Inr (length rows, d\<lparr>readers := fold (\<lambda>(i, _) t. tdel i t) rows (readers d)\<rparr>)))"

text \<open>\<open>resolve_current\<close>: the head is read at \<open>d0\<close>, verified, and read again at \<open>d1\<close>.\<close>

definition resolve_current :: "(igen \<Rightarrow> unit res) \<Rightarrow> string \<Rightarrow> string \<Rightarrow> ha_db \<Rightarrow> ha_db \<Rightarrow> igen option res" where
  "resolve_current verify tenant kb d0 d1 =
     bindR (index_current tenant kb d0) (\<lambda>cur.
     case cur of
       None \<Rightarrow> Inr None
     | Some r \<Rightarrow>
         bindR (verify r) (\<lambda>_.
         bindR (index_current tenant kb d1) (\<lambda>latest.
         if map_option fst latest \<noteq> Some (fst r)
         then Inl (StaleIndexFence ''current index generation changed during verification'') else Inr (Some r))))"

section \<open>Listing and retention\<close>

definition list_current :: "int \<Rightarrow> (string \<times> string) option \<Rightarrow> ha_db \<Rightarrow> igen list res" where
  "list_current limit after d =
     bindR (guardR (1 \<le> limit \<and> limit \<le> 1000) (ValueError ''current generation limit must be between 1 and 1000'')) (\<lambda>_.
     bindR (case after of None \<Rightarrow> Inr () | Some (t, k) \<Rightarrow>
              bindR (clean t ''tenant_id'' 255) (\<lambda>_. bindR (clean k ''kb_id'' 255) (\<lambda>_. Inr ()))) (\<lambda>_.
     let live = (\<lambda>(k, h). (case after of None \<Rightarrow> True | Some c \<Rightarrow> fst c < fst k \<or> fst c = fst k \<and> snd c < snd k) \<and>
                   (case ih_current h of None \<Rightarrow> False
                    | Some i \<Rightarrow> (case map_of (igens d) i of None \<Rightarrow> False | Some g \<Rightarrow> g_status g = GEN_PUBLISHED)));
         rows = sql_select live fst (nat limit) (iheads d)
     in Inr (List.map_filter (\<lambda>(_, h). Option.bind (ih_current h) (\<lambda>i. get_igen i d)) rows)))"

definition status_name :: "(string \<times> gen_status) list" where
  "status_name = [(''building'', GEN_BUILDING), (''prepared'', GEN_PREPARED), (''published'', GEN_PUBLISHED), (''aborted'', GEN_ABORTED)]"

definition list_tenant_generations :: "string \<Rightarrow> string option \<Rightarrow> string option \<Rightarrow> (pyfloat \<times> string) option \<Rightarrow> int \<Rightarrow> ha_db \<Rightarrow>
    igen list res" where
  "list_tenant_generations tenant kb status before limit d =
     bindR (clean tenant ''tenant_id'' 255) (\<lambda>_.
     bindR (guardR (1 \<le> limit \<and> limit \<le> 1000) (ValueError ''generation limit must be between 1 and 1000'')) (\<lambda>_.
     bindR (clean_opt kb ''kb_id'' 255) (\<lambda>_.
     bindR (case status of None \<Rightarrow> Inr None
            | Some s \<Rightarrow> (case map_of status_name s of None \<Rightarrow> Inl (ValueError ''generation status is invalid'') | Some x \<Rightarrow> Inr (Some x))) (\<lambda>st.
     bindR (case before of None \<Rightarrow> Inr None
            | Some (t, i) \<Rightarrow>
                bindR (guardR (isfinite t \<and> 0 \<le> fin_val t) (ValueError ''generation cursor is invalid'')) (\<lambda>_.
                bindR (clean i ''before_generation_id'' 255) (\<lambda>_. Inr (Some (fin_val t, i))))) (\<lambda>cursor.
     let p = (\<lambda>(i, g). g_tenant g = tenant \<and> (case kb of None \<Rightarrow> True | Some k \<Rightarrow> g_kb g = k) \<and>
                (case st of None \<Rightarrow> True | Some s \<Rightarrow> g_status g = s) \<and>
                (case cursor of None \<Rightarrow> True | Some (t, j) \<Rightarrow> g_created_at g < t \<or> g_created_at g = t \<and> i < j))
     in Inr (take (nat limit) (rev (sort_key (\<lambda>(i, g). (g_created_at g, i)) (filter p (igens d))))))))))"

text \<open>Whether a generation of this age and status may be collected, given the fencing token of its head
  (\<open>None\<close> when there is no head); an open build only when a later build has superseded it.\<close>

definition index_collectable :: "real \<Rightarrow> int option \<Rightarrow> index_gen \<Rightarrow> bool" where
  "index_collectable before fence g \<longleftrightarrow>
     g_status g = GEN_ABORTED \<and> null_le (g_aborted_at g) before \<or>
     g_status g = GEN_PUBLISHED \<and> null_le (g_published_at g) before \<or>
     open_status g \<and> g_expires_at g \<le> before \<and> (case fence of None \<Rightarrow> True | Some f \<Rightarrow> g_fence g < f)"

definition has_live_reader :: "string \<Rightarrow> real \<Rightarrow> ha_db \<Rightarrow> bool" where
  "has_live_reader gid now d \<longleftrightarrow> list_ex (\<lambda>(_, r). rl_gen r = gid \<and> now < rl_expires_at r) (readers d)"

definition index_garbage :: "pyfloat \<Rightarrow> int \<Rightarrow> real \<Rightarrow> ha_db \<Rightarrow> igen list res" where
  "index_garbage before limit now d =
     bindR (guardR (isfinite before) (ValueError ''garbage collection cutoff must be finite'')) (\<lambda>_.
     bindR (guardR (1 \<le> limit \<and> limit \<le> 1000) (ValueError ''garbage collection limit must be between 1 and 1000'')) (\<lambda>_.
     Inr (sql_select
            (\<lambda>(i, g). (case map_of (iheads d) (g_tenant g, g_kb g) of
                         None \<Rightarrow> True | Some h \<Rightarrow> ih_current h \<noteq> Some i) \<and>
                      index_collectable (fin_val before) (head_fence g d) g \<and> \<not> has_live_reader i now d)
            (\<lambda>(i, g). (g_created_at g, i)) (nat limit) (igens d))))"

definition is_index_head :: "string \<Rightarrow> ha_db \<Rightarrow> bool" where
  "is_index_head gid d \<longleftrightarrow> list_ex (\<lambda>(_, h). ih_current h = Some gid) (iheads d)"

definition forget_index :: "string \<Rightarrow> pyfloat \<Rightarrow> real \<Rightarrow> ha_db \<Rightarrow> (bool \<times> ha_db) res" where
  "forget_index gid before now d =
     bindR (clean gid ''generation_id'' 255) (\<lambda>_.
     bindR (guardR (isfinite before) (ValueError ''garbage collection cutoff must be finite'')) (\<lambda>_.
     let p = (\<lambda>g. \<not> is_index_head gid d \<and> index_collectable (fin_val before) (head_fence g d) g \<and> \<not> has_live_reader gid now d)
     in Inr (thit gid p (igens d), d\<lparr>igens := tdelete gid p (igens d)\<rparr>)))"

end
