(* ===== verification/HA_Deletion.thy ===== *)
theory HA_Deletion
  imports HA_Source HA_Index
begin

text \<open>
  The deletion saga of a shared knowledge base (\<open>ha/kb_deletion.py\<close>): a deletion is fenced in one
  transaction (registry row, deletion row, mutation lease, artifact scope), cleaned outside of it, and
  finalised in another; \<open>delete\<close> runs the three phases and may be repeated after a crash at any point,
  \<open>recover\<close> repeats it for every unfinished deletion.  The saga also provides the registry's create hook and
  the authority guard of the index store.
\<close>

section \<open>Guards and activation\<close>

text \<open>\<open>_identity\<close>\<close>

definition identity :: "string \<Rightarrow> string \<Rightarrow> string res" where
  "identity s field =
     (if s = [] \<or> s \<noteq> py_strip s \<or> 255 < utf8_len s \<or> list_ex (\<lambda>c. ord_char c < 32 \<or> ord_char c = 127) s
      then Inl (ValueError (field @ '' is invalid'')) else Inr s)"

definition assert_index_active :: "string \<Rightarrow> string \<Rightarrow> ha_db \<Rightarrow> unit res" where
  "assert_index_active tenant sid d =
     bindR (identity tenant ''tenant_id'') (\<lambda>_.
     bindR (identity sid ''storage_id'') (\<lambda>_.
     guardR (case map_of (kbs d) sid of None \<Rightarrow> False
             | Some b \<Rightarrow> b_tenant b = tenant \<and> b_lifecycle b = LIFECYCLE_ACTIVE)
       (StaleMutationFence ''index publication KB is not active'')))"

text \<open>The upsert of the artifact scope that activates it: a later epoch, or the same epoch while active.\<close>

definition activate_scope :: "string \<Rightarrow> string \<Rightarrow> int \<Rightarrow> real \<Rightarrow> ha_db \<Rightarrow> ha_db res" where
  "activate_scope tenant sid ep now d =
     (let row = \<lparr>a_state = ''active'', a_epoch = ep, a_updated_at = now\<rparr> in
      case map_of (scopes d) (tenant, sid) of
        None \<Rightarrow> Inr (d\<lparr>scopes := scopes d @ [((tenant, sid), row)]\<rparr>)
      | Some a \<Rightarrow>
          if a_epoch a < ep \<or> a_epoch a = ep \<and> a_state a = ''active''
          then Inr (d\<lparr>scopes := tput (tenant, sid) row (scopes d)\<rparr>)
          else Inl (StaleMutationFence ''artifact scope activation was rejected''))"

definition activate_locked :: "string \<Rightarrow> string \<Rightarrow> int \<Rightarrow> real \<Rightarrow> ha_db \<Rightarrow> ha_db res" where
  "activate_locked tenant sid ep now d =
     bindR (case map_of (dels d) sid of
              None \<Rightarrow> Inr d
            | Some x \<Rightarrow>
                if x_phase x \<noteq> DELETE_COMPLETE \<or> ep \<le> x_epoch x
                then Inl (StaleMutationFence ''previous KB deletion is incomplete'')
                else Inr (d\<lparr>dels := tdelete sid (\<lambda>x. x_phase x = DELETE_COMPLETE \<and> x_epoch x < ep) (dels d)\<rparr>))
       (activate_scope tenant sid ep now)"

definition activate :: "string \<Rightarrow> string \<Rightarrow> int \<Rightarrow> real \<Rightarrow> ha_db \<Rightarrow> ha_db res" where
  "activate tenant sid ep now d =
     bindR (identity tenant ''tenant_id'') (\<lambda>_.
     bindR (identity sid ''storage_id'') (\<lambda>_.
     bindR (guardR (1 \<le> ep) (ValueError ''KB activation epoch is invalid'')) (\<lambda>_.
     case map_of (kbs d) sid of
       None \<Rightarrow> Inl (StaleMutationFence ''KB activation incarnation changed'')
     | Some b \<Rightarrow>
         if b_tenant b \<noteq> tenant \<or> b_lifecycle b \<noteq> LIFECYCLE_ACTIVE \<or> b_epoch b \<noteq> ep
         then Inl (StaleMutationFence ''KB activation incarnation changed'')
         else activate_locked tenant sid ep now d)))"

text \<open>\<open>activate_created_kb\<close>, the create hook.\<close>

definition activate_created_kb :: "real \<Rightarrow> string \<Rightarrow> kb_rec \<Rightarrow> ha_db \<Rightarrow> ha_db res" where
  "activate_created_kb now sid b d =
     bindR (identity (b_tenant b) ''tenant_id'') (\<lambda>tenant.
     bindR (identity sid ''storage_id'') (\<lambda>_.
     bindR (guardR (1 \<le> b_epoch b) (ValueError ''KB activation epoch is invalid'')) (\<lambda>_.
     activate_locked tenant sid (b_epoch b) now d)))"

section \<open>The three phases\<close>

text \<open>The fence of \<open>_begin\<close> for a knowledge base that is not deleted and has no deletion row.\<close>

definition fence_kb :: "string \<Rightarrow> kb_rec \<Rightarrow> real \<Rightarrow> ha_db \<Rightarrow> (int \<times> ha_db) res" where
  "fence_kb sid b now d =
     (if b_lifecycle b \<noteq> LIFECYCLE_ACTIVE then Inr (b_epoch b, d)
      else
        let p = (\<lambda>x. b_lifecycle x = LIFECYCLE_ACTIVE \<and> b_epoch x = b_epoch b) in
        if thit sid p (kbs d)
        then Inr (b_epoch b + 1, d\<lparr>kbs := tset sid p (\<lambda>x. x\<lparr>b_lifecycle := LIFECYCLE_DELETING, b_epoch := b_epoch b + 1,
                                    b_revision := b_revision x + 1, b_updated_at := now\<rparr>) (kbs d)\<rparr>)
        else Inl (StaleMutationFence ''KB deletion fence lost''))"

definition index_head_of :: "string \<Rightarrow> string \<Rightarrow> ha_db \<Rightarrow> string option" where
  "index_head_of tenant sid d = (case map_of (iheads d) (tenant, sid) of None \<Rightarrow> None | Some h \<Rightarrow> ih_current h)"

definition source_head_of :: "string \<Rightarrow> ha_db \<Rightarrow> string option" where
  "source_head_of sid d = map_option sh_gen (map_of (sheads d) sid)"

definition record_deletion :: "string \<Rightarrow> string \<Rightarrow> int \<Rightarrow> real \<Rightarrow> ha_db \<Rightarrow> ha_db res" where
  "record_deletion tenant sid ep now d =
     bindR (tinsert sid \<lparr>x_tenant = tenant, x_epoch = ep, x_phase = DELETE_FENCED,
              x_index_gen = index_head_of tenant sid d, x_source_gen = source_head_of sid d, x_artifacts = 0,
              x_documents = 0, x_started_at = now, x_updated_at = now\<rparr> (dels d)) (\<lambda>t.
     Inr (d\<lparr>dels := t,
            mleases := tset sid (\<lambda>_. True) (\<lambda>l. l\<lparr>l_expires_at := 0, l_updated_at := now\<rparr>) (mleases d),
            scopes := tput (tenant, sid) \<lparr>a_state = ''deleting'', a_epoch = ep, a_updated_at = now\<rparr> (scopes d)\<rparr>))"

text \<open>\<open>_begin\<close>; \<open>auth\<close> is the check of the caller's delete authority when one is passed.\<close>

definition begin_delete :: "(ha_db \<Rightarrow> unit res) \<Rightarrow> string \<Rightarrow> string \<Rightarrow> real \<Rightarrow> ha_db \<Rightarrow> (deletion \<times> ha_db) res" where
  "begin_delete auth tenant sid now d =
     bindR (identity tenant ''tenant_id'') (\<lambda>_.
     bindR (identity sid ''storage_id'') (\<lambda>_.
     case map_of (kbs d) sid of
       None \<Rightarrow> Inl (KeyError sid)
     | Some b \<Rightarrow>
         if b_tenant b \<noteq> tenant then Inl (KeyError sid)
         else bindR (auth d) (\<lambda>_.
           let ex = map_of (dels d) sid in
           if b_lifecycle b = LIFECYCLE_DELETED then
             (case ex of None \<Rightarrow> Inl (KeyError sid)
              | Some x \<Rightarrow> if x_phase x = DELETE_COMPLETE then Inr (x, d) else Inl (KeyError sid))
           else if b_lifecycle b \<notin> {LIFECYCLE_ACTIVE, LIFECYCLE_DELETING}
           then Inl (DistributedKBDeletionError ''knowledge-base lifecycle is invalid'')
           else (case ex of
             Some x \<Rightarrow>
               if x_tenant x \<noteq> tenant \<or> x_epoch x \<noteq> b_epoch b
               then Inl (StaleMutationFence ''KB deletion incarnation changed'') else Inr (x, d)
           | None \<Rightarrow>
               bindR (fence_kb sid b now d) (\<lambda>(ep, d1).
               bindR (record_deletion tenant sid ep now d1) (\<lambda>d2.
               case map_of (dels d2) sid of None \<Rightarrow> Inl AssertionError | Some x \<Rightarrow> Inr (x, d2)))))))"

text \<open>\<open>_clean\<close>; \<open>external\<close> is the outcome of the cleanups outside these tables (control-plane callbacks, artifact
  scope, source catalog, chat sessions): the artifact versions and catalog documents removed, or the failure.
  \<open>x\<close> is the row the saga carries, read at its first phase.\<close>

definition clean_delete :: "(int \<times> int) res \<Rightarrow> string \<Rightarrow> deletion \<Rightarrow> real \<Rightarrow> ha_db \<Rightarrow> (deletion \<times> ha_db) res" where
  "clean_delete external sid x now d =
     (if x_phase x \<noteq> DELETE_FENCED then Inr (x, d)
      else bindR external (\<lambda>(artifacts, documents).
        (case map_of (dels d) sid of
          None \<Rightarrow> Inl (StaleMutationFence ''KB deletion cleanup incarnation changed'')
        | Some cur \<Rightarrow>
            if x_epoch cur \<noteq> x_epoch x then Inl (StaleMutationFence ''KB deletion cleanup incarnation changed'')
            else
              let d' = d\<lparr>dels := tset sid (\<lambda>y. x_epoch y = x_epoch x \<and> x_phase y = DELETE_FENCED)
                         (\<lambda>y. y\<lparr>x_phase := DELETE_CLEANED, x_artifacts := x_artifacts y + artifacts,
                                x_documents := x_documents y + documents, x_updated_at := now\<rparr>) (dels d)\<rparr>
              in (case map_of (dels d') sid of None \<Rightarrow> Inl AssertionError | Some y \<Rightarrow> Inr (y, d')))))"

text \<open>\<open>_finalize\<close>; \<open>eid\<close> and \<open>etime\<close> are the outbox's new identifier and clock reading.\<close>

definition deletion_event :: "dialect \<Rightarrow> codec \<Rightarrow> real \<Rightarrow> string \<Rightarrow> string \<Rightarrow> string \<Rightarrow> int \<Rightarrow> int \<Rightarrow> ha_db \<Rightarrow> ha_db res" where
  "deletion_event dia c etime eid tenant sid ep revn d =
     bindR (outbox_append dia c tenant ''kb.deleted'' ''knowledge_base'' sid revn
              (JObj [(''storage_id'', JStr sid), (''kb_epoch'', JInt ep)]) None
              (Some (''kb-deleted:'' @ sid @ '':'' @ show_int ep)) 10 None etime eid (outbox d))
       (\<lambda>(_, ob). Inr (d\<lparr>outbox := ob\<rparr>))"

definition drop_heads :: "string \<Rightarrow> string \<Rightarrow> string option \<Rightarrow> ha_db \<Rightarrow> ha_db" where
  "drop_heads tenant sid src d =
     d\<lparr>iheads := tdel (tenant, sid) (iheads d), sheads := tdel sid (sheads d),
       sgens := (case src of None \<Rightarrow> sgens d
                 | Some i \<Rightarrow> tset i (\<lambda>g. s_status g = SOURCE_ACTIVE) (\<lambda>g. g\<lparr>s_status := SOURCE_SUPERSEDED\<rparr>) (sgens d))\<rparr>"

definition finalize_delete :: "dialect \<Rightarrow> codec \<Rightarrow> string \<Rightarrow> deletion \<Rightarrow> real \<Rightarrow> real \<Rightarrow> string \<Rightarrow> ha_db \<Rightarrow> (deletion \<times> ha_db) res" where
  "finalize_delete dia c sid x now etime eid d =
     (if x_phase x = DELETE_COMPLETE then Inr (x, d)
      else if x_phase x \<noteq> DELETE_CLEANED then Inl (DistributedKBDeletionError ''KB deletion cleanup is incomplete'')
      else case (map_of (dels d) sid, map_of (kbs d) sid) of
        (Some cur, Some b) \<Rightarrow>
          if x_phase cur = DELETE_COMPLETE then Inr (cur, d)
          else if x_phase cur \<noteq> DELETE_CLEANED \<or> x_epoch cur \<noteq> x_epoch x \<or> b_lifecycle b \<noteq> LIFECYCLE_DELETING
                  \<or> b_epoch b \<noteq> x_epoch x
          then Inl (StaleMutationFence ''KB deletion finalization fence changed'')
          else if index_head_of (x_tenant x) sid d \<noteq> x_index_gen x \<or> source_head_of sid d \<noteq> x_source_gen x
          then Inl (StaleMutationFence ''KB generation head changed after deletion fence'')
          else
            let d1 = drop_heads (x_tenant x) sid (x_source_gen x) d;
                p = (\<lambda>y. b_lifecycle y = LIFECYCLE_DELETING \<and> b_epoch y = x_epoch x);
                d2 = d1\<lparr>kbs := tset sid p (\<lambda>y. y\<lparr>b_lifecycle := LIFECYCLE_DELETED, b_revision := b_revision b + 1,
                                             b_updated_at := now\<rparr>) (kbs d1)\<rparr>;
                d3 = d2\<lparr>dels := tset sid (\<lambda>y. x_epoch y = x_epoch x \<and> x_phase y = DELETE_CLEANED)
                               (\<lambda>y. y\<lparr>x_phase := DELETE_COMPLETE, x_updated_at := now\<rparr>) (dels d2)\<rparr>
            in if \<not> thit sid p (kbs d1) then Inl (StaleMutationFence ''KB tombstone CAS failed'')
               else bindR (deletion_event dia c etime eid (x_tenant x) sid (x_epoch x) (b_revision b + 1) d3) (\<lambda>d4.
                    case map_of (dels d4) sid of None \<Rightarrow> Inl AssertionError | Some y \<Rightarrow> Inr (y, d4))
      | _ \<Rightarrow> Inl (StaleMutationFence ''KB deletion authority disappeared''))"

section \<open>Delete and recover\<close>

text \<open>What a run of \<open>delete\<close> draws from outside: the clock readings of the phases, the outcome of the external
  cleanup, and the outbox's clock reading and identifier.\<close>

record delete_draw =
  dr_begin :: real
  dr_clean :: real
  dr_finalize :: real
  dr_external :: "(int \<times> int) res"
  dr_etime :: real
  dr_eid :: string

text \<open>The phases commit one by one, so a failure keeps what the phases before it did.\<close>

definition delete_kb :: "dialect \<Rightarrow> codec \<Rightarrow> (ha_db \<Rightarrow> unit res) \<Rightarrow> delete_draw \<Rightarrow> string \<Rightarrow> string \<Rightarrow> ha_db \<Rightarrow>
    deletion res \<times> ha_db" where
  "delete_kb dia c auth w tenant sid d =
     (case begin_delete auth tenant sid (dr_begin w) d of
        Inl e \<Rightarrow> (Inl e, d)
      | Inr (x, d1) \<Rightarrow>
          (case clean_delete (dr_external w) sid x (dr_clean w) d1 of
             Inl e \<Rightarrow> (Inl e, d1)
           | Inr (y, d2) \<Rightarrow>
               (case finalize_delete dia c sid y (dr_finalize w) (dr_etime w) (dr_eid w) d2 of
                  Inl e \<Rightarrow> (Inl e, d2)
                | Inr (z, d3) \<Rightarrow> (Inr z, d3))))"

definition unfinished :: "int \<Rightarrow> ha_db \<Rightarrow> (string \<times> deletion) list" where
  "unfinished limit d =
     sql_select (\<lambda>(_, x). x_phase x \<noteq> DELETE_COMPLETE) (\<lambda>(i, x). (x_started_at x, i)) (nat limit) (dels d)"

text \<open>One pass of \<open>recover\<close> over the rows it read: the numbers of recovered and failed deletions.\<close>

fun recover_pass :: "dialect \<Rightarrow> codec \<Rightarrow> (string \<Rightarrow> delete_draw) \<Rightarrow> (string \<times> deletion) list \<Rightarrow> nat \<Rightarrow> nat \<Rightarrow> ha_db \<Rightarrow>
    nat \<times> nat \<times> ha_db" where
  "recover_pass dia c w [] ok bad d = (ok, bad, d)"
| "recover_pass dia c w ((sid, x) # rows) ok bad d =
     (case delete_kb dia c (\<lambda>_. Inr ()) (w sid) (x_tenant x) sid d of
        (Inr _, d') \<Rightarrow> recover_pass dia c w rows (ok + 1) bad d'
      | (Inl _, d') \<Rightarrow> recover_pass dia c w rows ok (bad + 1) d')"

text \<open>The loop of \<open>recover\<close>: until nothing is left or a pass had a failure.  \<open>n\<close> bounds the passes, \<open>None\<close> means
  that they were not enough; \<open>w k\<close> are the draws of pass \<open>k\<close>.\<close>

fun recover_loop :: "nat \<Rightarrow> dialect \<Rightarrow> codec \<Rightarrow> (nat \<Rightarrow> string \<Rightarrow> delete_draw) \<Rightarrow> int \<Rightarrow> nat \<Rightarrow> nat \<Rightarrow> ha_db \<Rightarrow>
    (nat \<times> nat \<times> ha_db) option" where
  "recover_loop 0 dia c w limit ok bad d = None"
| "recover_loop (Suc n) dia c w limit ok bad d =
     (if unfinished limit d = [] then Some (ok, bad, d)
      else case recover_pass dia c (w n) (unfinished limit d) ok bad d of
        (ok', bad', d') \<Rightarrow> if bad' \<noteq> 0 then Some (ok', bad', d') else recover_loop n dia c w limit ok' bad' d')"

definition recover_deletions :: "nat \<Rightarrow> dialect \<Rightarrow> codec \<Rightarrow> (nat \<Rightarrow> string \<Rightarrow> delete_draw) \<Rightarrow> int \<Rightarrow> ha_db \<Rightarrow>
    (nat \<times> nat \<times> ha_db) option res" where
  "recover_deletions n dia c w limit d =
     (if limit < 1 \<or> 1000 < limit then Inl (ValueError ''KB deletion recovery limit is invalid'')
      else Inr (recover_loop n dia c w limit 0 0 d))"

end
