(* ===== verification/HA_Control.thy ===== *)
theory HA_Control
  imports HA_Deletion
begin

text \<open>
  The distributed control plane as one machine.  The stores are wired the way \<open>ha/runtime.py\<close> wires them:
  the registry's create hook is \<open>activate_created_kb\<close>, the authority guard of the index store is
  \<open>assert_index_active\<close>, and an index generation is published with \<open>publish_generation\<close>, whose hook may publish a
  source generation in the same transaction.  A step is one transaction of one of the stores; a failed transaction
  leaves the database as it was.

  Then what a step does to the tables of the index store, as a small abstract protocol (\<open>index_step\<close>): every
  transaction refines a few of its steps (for the source store, see \<open>HA_Source_Props\<close>).
\<close>

declare map_of_append [simp del]

section \<open>Publication as the runtime performs it\<close>

text \<open>What the deployment fixes: the database, the codec, the renderer of JSON numbers, the check of stored files, and
  whether an outbox is bound to the source store.\<close>

record ha_env =
  he_dialect :: dialect
  he_codec :: codec
  he_repr :: "json \<Rightarrow> string"
  he_verify :: "igen \<Rightarrow> unit res"
  he_bound :: bool

text \<open>The draws of an outbox append: its clock reading and its identifier.\<close>

type_synonym draw = "real \<times> string"

text \<open>The event \<open>publish_generation\<close> appends, for the generation \<open>g0\<close> the caller passes and the row the hook gets.\<close>

definition index_event :: "ha_env \<Rightarrow> draw \<Rightarrow> index_gen \<Rightarrow> igen \<Rightarrow> ha_db \<Rightarrow> ha_db res" where
  "index_event v w g0 r d =
     bindR (outbox_append (he_dialect v) (he_codec v) (g_tenant g0) ''index.published'' ''knowledge_base'' (g_kb g0)
              (g_fence (snd r))
              (JObj [(''kb_id'', JStr (g_kb g0)), (''generation_id'', JStr (fst r)),
                     (''manifest_sha256'', case g_manifest_sha (snd r) of None \<Rightarrow> JNull | Some s \<Rightarrow> JStr s)])
              None (Some (''index:'' @ fst r)) 10 None (fst w) (snd w) (outbox d))
       (\<lambda>(_, ob). Inr (d\<lparr>outbox := ob\<rparr>))"

text \<open>The source publication in the same transaction, when the caller passes one: generation, lease, clock, draws.\<close>

type_synonym source_pub = "string \<times> mlease \<times> real \<times> draw"

definition publish_hook :: "ha_env \<Rightarrow> source_pub option \<Rightarrow> draw \<Rightarrow> index_gen \<Rightarrow> igen \<Rightarrow> ha_db \<Rightarrow> ha_db res" where
  "publish_hook v src w g0 r d =
     bindR (case src of None \<Rightarrow> Inr d
            | Some (gid, lease, t, sw) \<Rightarrow>
                bindR (publish_source (he_dialect v) (he_codec v) (he_bound v) gid lease t (fst sw) (snd sw) d)
                  (\<lambda>(_, d'). Inr d'))
       (index_event v w g0 r)"

text \<open>\<open>publish_generation\<close>, for the generation \<open>(gid, g0)\<close> as the worker holds it.\<close>

definition publish_generation :: "ha_env \<Rightarrow> source_pub option \<Rightarrow> draw \<Rightarrow> igen \<Rightarrow> real \<Rightarrow> ha_db \<Rightarrow> real \<Rightarrow> ha_db \<Rightarrow>
    (igen option \<times> ha_db) res" where
  "publish_generation v src w r now0 d0 now d =
     publish_index assert_index_active (he_verify v) (publish_hook v src w (snd r)) (fst r) (g_token (snd r)) now0 d0 now d"

section \<open>The machine\<close>

datatype ha_op =
    Reg_Create string string string string real real
  | Reg_Import "string \<Rightarrow> string option" "string \<Rightarrow> int option" real "legacy_record list"
  | Reg_Delete string "string option" real
  | Reg_Set string string real
  | Reg_Bump string real
  | Acquire string real string real string
  | Beat_Lease real mlease real
  | Release mlease real
  | Stage string string mlease "string option" "string option" string string "int \<times> int \<times> int \<times> int" real
  | Publish_Source string mlease real draw
  | Forget_Source string real
  | Begin_Build string string string string "string option" pyfloat real string string
  | Resume_Build string string pyfloat real string
  | Beat_Build string string pyfloat real
  | Prepare_Index string string json real
  | Publish_Index "source_pub option" draw igen real ha_db real
  | Abort_Build string string real
  | Acquire_Reader string string string pyfloat real string string
  | Beat_Reader string string pyfloat real
  | Release_Reader string string
  | Prune_Readers pyfloat int
  | Forget_Index string pyfloat real
  | Activate string string int real
  | Begin_Delete "ha_db \<Rightarrow> unit res" string string real
  | Clean_Delete "(int \<times> int) res" string deletion real
  | Finalize_Delete string deletion real draw

definition kept :: "('a \<times> ha_db) res \<Rightarrow> ha_db \<Rightarrow> ha_db" where
  "kept r d = (case r of Inl _ \<Rightarrow> d | Inr (_, d') \<Rightarrow> d')"

definition kept_db :: "ha_db res \<Rightarrow> ha_db \<Rightarrow> ha_db" where
  "kept_db r d = (case r of Inl _ \<Rightarrow> d | Inr d' \<Rightarrow> d')"

fun exec :: "ha_env \<Rightarrow> ha_op \<Rightarrow> ha_db \<Rightarrow> ha_db" where
  "exec v (Reg_Create kb tenant owner created now t) d =
     kept (registry_create (he_dialect v) (he_codec v) (activate_created_kb t) kb tenant owner created now d) d"
| "exec v (Reg_Import lcs eps now rs) d =
     (case import_legacy (he_codec v) lcs eps now rs (0, 0, d) of Inl _ \<Rightarrow> d | Inr (_, _, d') \<Rightarrow> d')"
| "exec v (Reg_Delete kb tenant now) d = kept (registry_delete kb tenant now d) d"
| "exec v (Reg_Set sid status now) d = snd (registry_set sid status now d)"
| "exec v (Reg_Bump sid now) d = snd (registry_bump sid now d)"
| "exec v (Acquire owner secs sid now tok) d = kept (acquire_mutation owner secs sid now tok d) d"
| "exec v (Beat_Lease secs lease now) d = kept (heartbeat_mutation secs lease now d) d"
| "exec v (Release lease now) d = release_mutation lease now d"
| "exec v (Stage gid tenant lease base build mkey msha counts now) d =
     kept_db (insert_source_gen gid tenant lease base build mkey msha counts now d) d"
| "exec v (Publish_Source gid lease now w) d =
     kept (publish_source (he_dialect v) (he_codec v) (he_bound v) gid lease now (fst w) (snd w) d) d"
| "exec v (Forget_Source gid before) d = snd (forget_source gid before d)"
| "exec v (Begin_Build tenant kb build worker base secs now gid tok) d =
     kept (begin_build assert_index_active tenant kb build worker base secs now gid tok d) d"
| "exec v (Resume_Build gid worker secs now tok) d = kept (resume_build gid worker secs now tok d) d"
| "exec v (Beat_Build gid tok secs now) d = kept (heartbeat_index gid tok secs now d) d"
| "exec v (Prepare_Index gid tok manifest now) d = kept (prepare_index (he_repr v) (he_codec v) gid tok manifest now d) d"
| "exec v (Publish_Index src w r now0 d0 now) d = kept (publish_generation v src w r now0 d0 now d) d"
| "exec v (Abort_Build gid tok now) d = kept (abort_index gid tok now d) d"
| "exec v (Acquire_Reader tenant kb owner secs now rid tok) d = kept (acquire_reader tenant kb owner secs now rid tok d) d"
| "exec v (Beat_Reader rid tok secs now) d = kept_db (heartbeat_reader rid tok secs now d) d"
| "exec v (Release_Reader rid tok) d = kept (release_reader rid tok d) d"
| "exec v (Prune_Readers before limit) d = kept (prune_reader_leases before limit d) d"
| "exec v (Forget_Index gid before now) d = kept (forget_index gid before now d) d"
| "exec v (Activate tenant sid ep now) d = kept_db (activate tenant sid ep now d) d"
| "exec v (Begin_Delete auth tenant sid now) d = kept (begin_delete auth tenant sid now d) d"
| "exec v (Clean_Delete external sid x now) d = kept (clean_delete external sid x now d) d"
| "exec v (Finalize_Delete sid x now w) d =
     kept (finalize_delete (he_dialect v) (he_codec v) sid x now (fst w) (snd w) d) d"

definition ha_run :: "ha_env \<Rightarrow> ha_op list \<Rightarrow> ha_db \<Rightarrow> ha_db" where
  "ha_run v ops d = fold (exec v) ops d"

inductive ha_reachable :: "ha_env \<Rightarrow> ha_db \<Rightarrow> bool" for v where
  start: "ha_reachable v empty_ha"
| step: "ha_reachable v d \<Longrightarrow> ha_reachable v (exec v op d)"

lemma ha_run_simps [simp]:
  "ha_run v [] d = d" "ha_run v (op # ops) d = ha_run v ops (exec v op d)"
  "ha_run v (ops @ ops') d = ha_run v ops' (ha_run v ops d)"
  by (simp_all add: ha_run_def)

lemma reachable_run: "ha_reachable v d \<Longrightarrow> ha_reachable v (ha_run v ops d)"
  by (induction ops arbitrary: d) (auto intro: ha_reachable.intros)

lemma kept_cases: obtains "kept r d = d" | x d' where "r = Inr (x, d')" "kept r d = d'"
  by (cases r) (auto simp: kept_def)

lemma kept_db_cases: obtains "kept_db r d = d" | d' where "r = Inr d'" "kept_db r d = d'"
  by (cases r) (auto simp: kept_db_def)

text \<open>An invariant of a transaction's effect carries over to the machine.\<close>

lemma kept_rel: "(\<And>x d'. r = Inr (x, d') \<Longrightarrow> P d d') \<Longrightarrow> P d d \<Longrightarrow> P d (kept r d)"
  by (cases r) (auto simp: kept_def)

lemma kept_db_rel: "(\<And>d'. r = Inr d' \<Longrightarrow> P d d') \<Longrightarrow> P d d \<Longrightarrow> P d (kept_db r d)"
  by (cases r) (auto simp: kept_db_def)

section \<open>The index tables\<close>

text \<open>The protocol the index store follows, on its generations and heads.  \<open>gen_step\<close> is what a lease holder may do to
  its generation; the head of a knowledge base moves only to a prepared generation that was built on the current one
  under the current fencing token.\<close>

type_synonym index_tables = "(string, index_gen) table \<times> (string \<times> string, index_head) table"

datatype index_label = IQuiet | IPublish "string \<times> string" | IForget string | IDrop "string \<times> string"

definition gen_step :: "index_gen \<Rightarrow> index_gen \<Rightarrow> bool" where
  "gen_step g g' \<longleftrightarrow> g_tenant g' = g_tenant g \<and> g_kb g' = g_kb g \<and> g_build g' = g_build g \<and> g_base g' = g_base g \<and>
     g_fence g' = g_fence g \<and>
     (g_status g' = g_status g \<and> g_manifest g' = g_manifest g \<and> g_manifest_sha g' = g_manifest_sha g \<or>
      g_status g = GEN_BUILDING \<and> g_status g' = GEN_PREPARED \<or>
      open_status g \<and> g_status g' = GEN_ABORTED)"

inductive index_step :: "index_label \<Rightarrow> index_tables \<Rightarrow> index_tables \<Rightarrow> bool" where
  head: "map_of hs k = None \<Longrightarrow> ih_current h = None \<Longrightarrow> ih_fence h = 0 \<Longrightarrow>
    index_step IQuiet (gs, hs) (gs, hs @ [(k, h)])"
| build: "map_of gs gid = None \<Longrightarrow> k = (g_tenant g, g_kb g) \<Longrightarrow> map_of hs k = Some h \<Longrightarrow> g_status g = GEN_BUILDING \<Longrightarrow>
    g_base g = ih_current h \<Longrightarrow> g_fence g = ih_fence h + 1 \<Longrightarrow> ih_current h' = ih_current h \<Longrightarrow>
    ih_fence h' = ih_fence h + 1 \<Longrightarrow> index_step IQuiet (gs, hs) (gs @ [(gid, g)], tput k h' hs)"
| change: "map_of gs gid = Some g \<Longrightarrow> gen_step g g' \<Longrightarrow> index_step IQuiet (gs, hs) (tput gid g' gs, hs)"
| publish: "map_of gs gid = Some g \<Longrightarrow> g_status g = GEN_PREPARED \<Longrightarrow> k = (g_tenant g, g_kb g) \<Longrightarrow> map_of hs k = Some h \<Longrightarrow>
    ih_current h = g_base g \<Longrightarrow> ih_fence h = g_fence g \<Longrightarrow> ih_fence h' = ih_fence h \<Longrightarrow> ih_current h' = Some gid \<Longrightarrow>
    g' = g\<lparr>g_status := GEN_PUBLISHED, g_published_at := Some now, g_expires_at := now\<rparr> \<Longrightarrow>
    index_step (IPublish k) (gs, hs) (tput gid g' gs, tput k h' hs)"
| forget: "\<forall>k h. map_of hs k = Some h \<longrightarrow> ih_current h \<noteq> Some gid \<Longrightarrow>
    index_step (IForget gid) (gs, hs) (tdel gid gs, hs)"
| drop: "index_step (IDrop k) (gs, hs) (gs, tdel k hs)"

inductive index_steps :: "(index_label \<Rightarrow> bool) \<Rightarrow> index_tables \<Rightarrow> index_tables \<Rightarrow> bool" for P where
  refl [simp, intro]: "index_steps P u u"
| more: "index_steps P u v \<Longrightarrow> index_step l v w \<Longrightarrow> P l \<Longrightarrow> index_steps P u w"

lemma index_steps_one: "index_step l u w \<Longrightarrow> P l \<Longrightarrow> index_steps P u w"
  by (rule index_steps.more [OF index_steps.refl])

lemma index_steps_trans: "index_steps P v w \<Longrightarrow> index_steps P u v \<Longrightarrow> index_steps P u w"
  by (induction rule: index_steps.induct) (auto intro: index_steps.more)

lemma index_steps_mono: "index_steps P u w \<Longrightarrow> (\<And>l. P l \<Longrightarrow> Q l) \<Longrightarrow> index_steps Q u w"
  by (induction rule: index_steps.induct) (auto intro: index_steps.more)

lemma index_steps_inv:
  "index_steps P u w \<Longrightarrow> I u \<Longrightarrow> (\<And>l a b. P l \<Longrightarrow> I a \<Longrightarrow> index_step l a b \<Longrightarrow> I b) \<Longrightarrow> I w"
  by (induction rule: index_steps.induct) blast+

definition index_view :: "ha_db \<Rightarrow> index_tables" where
  "index_view d = (igens d, iheads d)"

text \<open>Which steps of the protocol an operation may take.\<close>

definition index_may :: "ha_op \<Rightarrow> ha_db \<Rightarrow> index_label \<Rightarrow> bool" where
  "index_may op d l = (case l of
     IQuiet \<Rightarrow> True
   | IPublish k \<Rightarrow> (case op of Publish_Index _ _ _ _ _ _ \<Rightarrow> is_ok (assert_index_active (fst k) (snd k) d) | _ \<Rightarrow> False)
   | IForget gid \<Rightarrow> (case op of Forget_Index g _ now \<Rightarrow> g = gid \<and> \<not> has_live_reader gid now d | _ \<Rightarrow> False)
   | IDrop k \<Rightarrow> (case op of Finalize_Delete sid x _ _ \<Rightarrow> k = (x_tenant x, sid) | _ \<Rightarrow> False))"

lemma tset_Some: "map_of t k = Some r \<Longrightarrow> tset k p f t = (if p r then tput k (f r) t else t)"
  by (simp add: tset_def)

lemma tset_row: "map_of t k' = Some r \<Longrightarrow> \<exists>r'. map_of (tset k p f t) k' = Some r' \<and> (r' = r \<or> k' = k \<and> p r \<and> r' = f r)"
  by (cases "k' = k"; cases "p r") auto

lemma tput_fresh: "map_of t k = None \<Longrightarrow> tput k r t = t @ [(k, r)]"
  by (induction t) (auto split: if_splits)

lemma tput_same [simp]: "map_of t k = Some r \<Longrightarrow> tput k r t = t"
  by (induction t) auto

lemma index_tset:
  "(\<And>g. map_of gs gid = Some g \<Longrightarrow> p g \<Longrightarrow> gen_step g (f g)) \<Longrightarrow>
   index_steps (\<lambda>l. l = IQuiet) (gs, hs) (tset gid p f gs, hs)"
  by (cases "map_of gs gid") (auto simp: tset_def intro!: index_steps_one index_step.change)

lemma rotate_step [simp]: "gen_step g (rotate_lease w t e g)"
  by (simp add: gen_step_def rotate_lease_def)

lemma adopt_index:
  "adopt_build w secs now tok h r d = Inr (x, d') \<Longrightarrow> index_steps (\<lambda>l. l = IQuiet) (index_view d) (index_view d')"
  by (auto simp: adopt_build_def Let_def index_view_def split: if_splits prod.splits intro!: index_tset)

lemma new_build_index:
  assumes "new_build tenant kb build w secs now gid tok h d = Inr (x, d')" and "map_of (iheads d) (tenant, kb) = Some h"
  shows "index_steps (\<lambda>l. l = IQuiet) (index_view d) (index_view d')"
  using assms by (auto simp: new_build_def Let_def index_view_def tset_Some intro!: index_steps_one index_step.build)

lemma begin_build_index:
  assumes "begin_build guard tenant kb build w base secs now gid tok d = Inr (x, d')"
  shows "index_steps (\<lambda>l. l = IQuiet) (index_view d) (index_view d')"
proof -
  define d1 where "d1 = d\<lparr>iheads := tinsert_ignore (tenant, kb)
    \<lparr>ih_current = None, ih_fence = 0, ih_revision = 0, ih_updated_at = now\<rparr> (iheads d)\<rparr>"
  have "index_steps (\<lambda>l. l = IQuiet) (index_view d) (index_view d1)"
    by (auto simp: d1_def index_view_def tinsert_ignore_def intro!: index_steps_one index_step.head)
  moreover from assms obtain h where "map_of (iheads d1) (tenant, kb) = Some h" and
    "(\<exists>secs r. adopt_build w secs now tok h r d1 = Inr (x, d')) \<or>
     (\<exists>secs. new_build tenant kb build w secs now gid tok h d1 = Inr (x, d'))"
    unfolding begin_build_def Let_def d1_def [symmetric]
    by (cases "map_of (iheads d1) (tenant, kb)") (auto split: if_splits option.splits)
  then have "index_steps (\<lambda>l. l = IQuiet) (index_view d1) (index_view d')"
    by (blast intro: adopt_index new_build_index)
  ultimately show ?thesis by (rule index_steps_trans [rotated])
qed

lemma resume_index:
  "resume_build gid w secs now tok d = Inr (x, d') \<Longrightarrow> index_steps (\<lambda>l. l = IQuiet) (index_view d) (index_view d')"
  by (cases "map_of (igens d) gid")
    (auto simp: resume_build_def Let_def index_view_def split: if_splits intro!: index_tset)

lemma beat_index:
  "heartbeat_index gid tok secs now d = Inr (x, d') \<Longrightarrow> index_steps (\<lambda>l. l = IQuiet) (index_view d) (index_view d')"
  by (auto simp: heartbeat_index_def Let_def index_view_def gen_step_def split: if_splits intro!: index_tset)

lemma prepare_index_step:
  "prepare_index rep c gid tok m now d = Inr (x, d') \<Longrightarrow> index_steps (\<lambda>l. l = IQuiet) (index_view d) (index_view d')"
  by (auto simp: prepare_index_def Let_def index_view_def gen_step_def set_prepared_def split: if_splits intro!: index_tset)

lemma abort_index_step:
  "abort_index gid tok now d = Inr (x, d') \<Longrightarrow> index_steps (\<lambda>l. l = IQuiet) (index_view d) (index_view d')"
  by (auto simp: abort_index_def Let_def index_view_def gen_step_def split: if_splits intro!: index_tset)

text \<open>The hook of a publication leaves the index tables alone, and so does a source publication.\<close>

lemma supersede_index [simp]: "index_view (supersede_source cur d) = index_view d"
  by (simp add: supersede_source_def index_view_def split: option.splits)

lemma advance_index: "advance_source_head sid gid now d = Inr (n, d') \<Longrightarrow> index_view d' = index_view d"
  by (auto simp: advance_source_head_def index_view_def Let_def split: option.splits if_splits)

lemma source_event_frame: "source_event dia c t i gid g lease n d = Inr d' \<Longrightarrow> \<exists>ob. d' = d\<lparr>outbox := ob\<rparr>"
  by (auto simp: source_event_def)

definition superseded :: "string option \<Rightarrow> (string, source_gen) table \<Rightarrow> (string, source_gen) table" where
  "superseded cur gs = (case cur of None \<Rightarrow> gs
     | Some i \<Rightarrow> tset i (\<lambda>x. s_status x = SOURCE_ACTIVE) (\<lambda>x. x\<lparr>s_status := SOURCE_SUPERSEDED\<rparr>) gs)"

lemma supersede_eq: "supersede_source cur d = d\<lparr>sgens := superseded cur (sgens d)\<rparr>"
  by (simp add: supersede_source_def superseded_def split: option.splits)

lemma superseded_kept: "map_of gs gid = Some g \<Longrightarrow> s_status g \<noteq> SOURCE_ACTIVE \<Longrightarrow> map_of (superseded cur gs) gid = Some g"
  by (auto simp: superseded_def split: option.splits)

text \<open>A source publication that commits: nothing when the generation is active already, else the generation moves from
  prepared to active and becomes the head, whose old generation is superseded.\<close>

definition publish_source_db :: "string \<Rightarrow> string \<Rightarrow> source_gen \<Rightarrow> real \<Rightarrow> ha_db \<Rightarrow> ha_db \<Rightarrow> bool" where
  "publish_source_db gid sid g now d d2 \<longleftrightarrow>
     (\<exists>h. sh_gen h = gid \<and>
       d2 = d\<lparr>sgens := tput gid (g\<lparr>s_status := SOURCE_ACTIVE, s_published_at := Some now\<rparr>)
                   (superseded (source_head_of sid d) (sgens d)),
              sheads := tput sid h (sheads d)\<rparr>)"

lemma supersede_sheads [simp]: "sheads (supersede_source cur d) = sheads d"
  by (simp add: supersede_source_def split: option.splits)

lemma advance_db:
  assumes "advance_source_head sid gid now d = Inr (n, d')"
  shows "\<exists>h. sh_gen h = gid \<and> d' = d\<lparr>sheads := tput sid h (sheads d)\<rparr>"
proof (cases "map_of (sheads d) sid")
  case None
  with assms tput_fresh [OF None] show ?thesis
    by (intro exI [of _ "\<lparr>sh_gen = gid, sh_revision = 1, sh_updated_at = now\<rparr>"]) (simp add: advance_source_head_def)
next
  case (Some h)
  with assms show ?thesis
    by (intro exI [of _ "h\<lparr>sh_gen := gid, sh_revision := sh_revision h + 1, sh_updated_at := now\<rparr>"])
      (auto simp: advance_source_head_def Let_def thit_Some tset_Some)
qed

lemma publish_sourceE:
  assumes "publish_source dia c b gid lease now t i d = Inr (x, d')"
  obtains g where "map_of (sgens d) gid = Some g" "s_status g = SOURCE_ACTIVE" "d' = d"
  | g d2 ob where "map_of (sgens d) gid = Some g" "s_status g = SOURCE_PREPARED"
    "source_authority g lease (source_head_of (ml_storage lease) d) (map_of (kbs d) (ml_storage lease))
       (map_of (mleases d) (ml_storage lease)) now"
    "publish_source_db gid (ml_storage lease) g now d d2" "d' = d2\<lparr>outbox := ob\<rparr>"
proof (cases "map_of (sgens d) gid")
  case None
  with assms show thesis by (simp add: publish_source_def)
next
  case (Some g)
  show thesis
  proof (cases "s_status g")
    case SOURCE_PREPARED
    define cur where "cur = source_head_of (ml_storage lease) d"
    from assms Some SOURCE_PREPARED have auth: "source_authority g lease cur (map_of (kbs d) (ml_storage lease))
        (map_of (mleases d) (ml_storage lease)) now"
      by (simp add: publish_source_def Let_def source_head_of_def cur_def split: if_splits)
    note e = assms [unfolded publish_source_def, simplified Some option.case SOURCE_PREPARED, simplified,
        folded source_head_of_def, folded cur_def]
    from e auth obtain n d1 where
      adv: "advance_source_head (ml_storage lease) gid now (supersede_source cur d) = Inr (n, d1)"
      by (simp add: Let_def source_head_of_def cur_def split: if_splits) blast
    define d2 where d2: "d2 = d1\<lparr>sgens := tset gid (\<lambda>x. s_status x = SOURCE_PREPARED)
                     (\<lambda>x. x\<lparr>s_status := SOURCE_ACTIVE, s_published_at := Some now\<rparr>) (sgens d1)\<rparr>"
    from e auth adv have ev: "(if b then source_event dia c t i gid g lease n d2 else Inr d2) = Inr d'"
      unfolding d2 by (cases b) (auto simp: Let_def source_head_of_def cur_def)
    from advance_db [OF adv] obtain h where h: "sh_gen h = gid"
      "d1 = d\<lparr>sgens := superseded cur (sgens d), sheads := tput (ml_storage lease) h (sheads d)\<rparr>"
      by (auto simp: supersede_eq)
    have m: "map_of (superseded cur (sgens d)) gid = Some g"
      by (rule superseded_kept [OF Some]) (simp add: SOURCE_PREPARED)
    have "publish_source_db gid (ml_storage lease) g now d d2"
      unfolding publish_source_db_def cur_def [symmetric]
      by (rule exI [of _ h]) (simp add: h d2 tset_Some [OF m] SOURCE_PREPARED)
    moreover from ev have "\<exists>ob. d' = d2\<lparr>outbox := ob\<rparr>"
      by (cases b) (auto dest!: source_event_frame intro: exI [of _ "outbox d2"])
    ultimately show thesis using that(2) Some SOURCE_PREPARED auth unfolding cur_def by blast
  next
    case SOURCE_ACTIVE
    with assms Some have "d' = d" by (simp add: publish_source_def)
    with that(1) [OF Some SOURCE_ACTIVE] show thesis by simp
  next
    case SOURCE_SUPERSEDED
    with assms Some show thesis by (simp add: publish_source_def)
  qed
qed

lemma publish_source_index: "publish_source dia c b gid lease now t i d = Inr (x, d') \<Longrightarrow> index_view d' = index_view d"
  by (erule publish_sourceE) (auto simp: publish_source_db_def index_view_def)

lemma index_event_frame: "index_event v w g0 r d = Inr d' \<Longrightarrow> \<exists>ob. d' = d\<lparr>outbox := ob\<rparr>"
  by (auto simp: index_event_def)

lemma publish_hook_index: "publish_hook v src w g0 r d = Inr d' \<Longrightarrow> index_view d' = index_view d"
  by (auto simp: publish_hook_def dest!: index_event_frame publish_source_index split: option.splits)
    (simp_all add: index_view_def)

text \<open>A publication that commits: the generation, its guard, and the tables before the hook.\<close>

lemma publish_commitE:
  assumes "publish_commit guard verify hook gid tok now d = Inr d'"
  obtains g h d2 where "map_of (igens d) gid = Some g" "g_status g = GEN_PREPARED" "g_token g = tok" "now < g_expires_at g"
    "guard (g_tenant g) (g_kb g) d = Inr ()" "verify (gid, g) = Inr ()"
    "map_of (iheads d) (g_tenant g, g_kb g) = Some h" "ih_fence h = g_fence g" "ih_current h = g_base g"
    "d2 = d\<lparr>iheads := tput (g_tenant g, g_kb g)
         (h\<lparr>ih_current := Some gid, ih_updated_at := now, ih_revision := ih_revision h + 1\<rparr>) (iheads d),
       igens := tput gid (g\<lparr>g_status := GEN_PUBLISHED, g_published_at := Some now, g_expires_at := now\<rparr>) (igens d)\<rparr>"
    "hook (gid, g) d2 = Inr d'"
proof -
  from assms obtain g where g: "require_live (map_of (igens d) gid) tok now [GEN_PREPARED] = Inr g"
    and r: "guard (g_tenant g) (g_kb g) d = Inr ()" "require_current_fence g d = Inr ()" "verify (gid, g) = Inr ()"
    unfolding publish_commit_def bindR_Inr by (elim exE conjE) (simp add: unit_eq)
  from g have m: "map_of (igens d) gid = Some g" "g_status g = GEN_PREPARED" "g_token g = tok" "now < g_expires_at g"
    by (auto simp: require_live_def split: option.splits if_splits)
  from r(2) obtain h where h: "map_of (iheads d) (g_tenant g, g_kb g) = Some h" "ih_fence h = g_fence g"
    by (auto simp: require_current_fence_def head_fence_def)
  note e = assms [unfolded publish_commit_def, simplified g r h bindR_simps option.case Let_def thit_Some [OF h(1)]
      tset_Some [OF h(1)]]
  from e have c: "ih_current h = g_base g" by (simp split: if_splits)
  from e have "hook (gid, g) (d\<lparr>iheads := tput (g_tenant g, g_kb g)
         (h\<lparr>ih_current := Some gid, ih_updated_at := now, ih_revision := ih_revision h + 1\<rparr>) (iheads d),
       igens := tput gid (g\<lparr>g_status := GEN_PUBLISHED, g_published_at := Some now, g_expires_at := now\<rparr>) (igens d)\<rparr>) = Inr d'"
    by (simp add: c h thit_Some [OF m(1)] tset_Some [OF m(1)] m)
  with that m r h c show thesis by blast
qed

lemma publish_index_commit:
  "publish_index guard verify hook gid tok now0 d0 now d = Inr (x, d') \<Longrightarrow>
   publish_commit guard verify hook gid tok now d = Inr d'"
  by (auto simp: publish_index_def)

lemma publish_generation_index:
  assumes "publish_generation v src w r now0 d0 now d = Inr (x, d')"
  shows "\<exists>k. assert_index_active (fst k) (snd k) d = Inr () \<and> index_step (IPublish k) (index_view d) (index_view d')"
proof -
  from publish_index_commit [OF assms [unfolded publish_generation_def]]
  show ?thesis
  proof (rule publish_commitE)
    fix g h d2
    assume g: "map_of (igens d) (fst r) = Some g" "g_status g = GEN_PREPARED"
      and act: "assert_index_active (g_tenant g) (g_kb g) d = Inr ()"
      and h: "map_of (iheads d) (g_tenant g, g_kb g) = Some h" "ih_fence h = g_fence g" "ih_current h = g_base g"
      and d2: "d2 = d\<lparr>iheads := tput (g_tenant g, g_kb g)
         (h\<lparr>ih_current := Some (fst r), ih_updated_at := now, ih_revision := ih_revision h + 1\<rparr>) (iheads d),
       igens := tput (fst r) (g\<lparr>g_status := GEN_PUBLISHED, g_published_at := Some now, g_expires_at := now\<rparr>) (igens d)\<rparr>"
      and hook: "publish_hook v src w (snd r) (fst r, g) d2 = Inr d'"
    have "index_step (IPublish (g_tenant g, g_kb g)) (index_view d) (index_view d2)"
      unfolding index_view_def d2 using g h by (auto intro!: index_step.publish)
    with publish_hook_index [OF hook] act show ?thesis by (intro exI [of _ "(g_tenant g, g_kb g)"]) simp
  qed
qed

lemma forget_index_step:
  assumes "forget_index gid before now d = Inr (x, d')"
  shows "d' = d \<or> (\<not> has_live_reader gid now d \<and> index_step (IForget gid) (index_view d) (index_view d'))"
proof -
  from assms obtain p where p: "p = (\<lambda>g. \<not> is_index_head gid d \<and> index_collectable (fin_val before) (head_fence g d) g \<and>
      \<not> has_live_reader gid now d)" and d': "d' = d\<lparr>igens := tdelete gid p (igens d)\<rparr>"
    by (auto simp: forget_index_def Let_def)
  have "is_index_head gid d" if "map_of (iheads d) k = Some h" "ih_current h = Some gid" for k h
    using map_of_SomeD [OF that(1)] that(2) by (auto simp: is_index_head_def list_ex_iff)
  moreover have "d' = d" if "\<not> thit gid p (igens d)"
    using that d' by (simp add: tdelete_def)
  ultimately show ?thesis
    using d' p by (cases "thit gid p (igens d)")
      (auto simp: tdelete_def index_view_def dest!: thitD intro!: index_step.forget)
qed

lemma deletion_event_frame: "deletion_event dia c t i tenant sid ep n d = Inr d' \<Longrightarrow> \<exists>ob. d' = d\<lparr>outbox := ob\<rparr>"
  by (auto simp: deletion_event_def)

text \<open>A finalisation that commits: nothing when the deletion is complete already.\<close>

lemma finalizeE:
  assumes "finalize_delete dia c sid x now t i d = Inr (y, d')"
  obtains "d' = d" "x_phase y = DELETE_COMPLETE" "y = x \<or> map_of (dels d) sid = Some y"
  | cur b ob where "map_of (dels d) sid = Some cur" "map_of (kbs d) sid = Some b" "x_phase cur = DELETE_CLEANED"
    "x_epoch cur = x_epoch x" "b_lifecycle b = LIFECYCLE_DELETING" "b_epoch b = x_epoch x"
    "index_head_of (x_tenant x) sid d = x_index_gen x" "source_head_of sid d = x_source_gen x"
    "y = cur\<lparr>x_phase := DELETE_COMPLETE, x_updated_at := now\<rparr>"
    "d' = d\<lparr>iheads := tdel (x_tenant x, sid) (iheads d), sheads := tdel sid (sheads d),
       sgens := superseded (source_head_of sid d) (sgens d),
       kbs := tput sid (b\<lparr>b_lifecycle := LIFECYCLE_DELETED, b_revision := b_revision b + 1, b_updated_at := now\<rparr>) (kbs d),
       dels := tput sid (cur\<lparr>x_phase := DELETE_COMPLETE, x_updated_at := now\<rparr>) (dels d), outbox := ob\<rparr>"
proof (cases "x_phase x")
  case DELETE_CLEANED
  with assms obtain cur b where m: "map_of (dels d) sid = Some cur" "map_of (kbs d) sid = Some b"
    by (cases "map_of (dels d) sid"; cases "map_of (kbs d) sid") (simp_all add: finalize_delete_def)
  note e = assms [unfolded finalize_delete_def, simplified DELETE_CLEANED m, simplified]
  show thesis
  proof (cases "x_phase cur = DELETE_COMPLETE")
    case True
    with e have "y = cur" "d' = d" by simp_all
    with that(1) True m show thesis by simp
  next
    case False
    with e have c: "x_phase cur = DELETE_CLEANED" "x_epoch cur = x_epoch x" "b_lifecycle b = LIFECYCLE_DELETING"
      "b_epoch b = x_epoch x" "index_head_of (x_tenant x) sid d = x_index_gen x" "source_head_of sid d = x_source_gen x"
      by (simp_all split: if_splits)
    define d3 where "d3 = d\<lparr>iheads := tdel (x_tenant x, sid) (iheads d), sheads := tdel sid (sheads d),
       sgens := superseded (x_source_gen x) (sgens d),
       kbs := tput sid (b\<lparr>b_lifecycle := LIFECYCLE_DELETED, b_revision := b_revision b + 1, b_updated_at := now\<rparr>) (kbs d),
       dels := tput sid (cur\<lparr>x_phase := DELETE_COMPLETE, x_updated_at := now\<rparr>) (dels d)\<rparr>"
    have dh: "drop_heads (x_tenant x) sid (x_source_gen x) d = d\<lparr>iheads := tdel (x_tenant x, sid) (iheads d),
        sheads := tdel sid (sheads d), sgens := superseded (x_source_gen x) (sgens d)\<rparr>"
      by (simp add: drop_heads_def superseded_def)
    from e c obtain d4 where d4: "deletion_event dia c t i (x_tenant x) sid (x_epoch x) (b_revision b + 1) d3 = Inr d4"
      and y: "(case map_of (dels d4) sid of None \<Rightarrow> Inl AssertionError | Some y \<Rightarrow> Inr (y, d4)) = Inr (y, d')"
      unfolding d3_def by (auto simp: Let_def dh m thit_Some [OF m(2)] tset_Some [OF m(2)] tset_Some [OF m(1)])
    from deletion_event_frame [OF d4] obtain ob where "d4 = d3\<lparr>outbox := ob\<rparr>" by blast
    with y have "y = cur\<lparr>x_phase := DELETE_COMPLETE, x_updated_at := now\<rparr>" "d' = d3\<lparr>outbox := ob\<rparr>"
      by (auto simp: d3_def)
    then show thesis by (intro that(2) [OF m c]) (auto simp: d3_def c)
  qed
next
  case DELETE_FENCED
  with assms show thesis by (simp add: finalize_delete_def)
next
  case DELETE_COMPLETE
  with assms have "y = x" "d' = d" by (simp_all add: finalize_delete_def)
  with that(1) DELETE_COMPLETE show thesis by simp
qed

section \<open>The registry, lease and deletion tables\<close>

lemma activate_scopeE: "activate_scope tenant sid ep now d = Inr d' \<Longrightarrow> \<exists>sc. d' = d\<lparr>scopes := sc\<rparr>"
  by (auto simp: activate_scope_def Let_def split: option.splits if_splits)

lemma activate_lockedE:
  assumes "activate_locked tenant sid ep now d = Inr d'"
  obtains ds sc where "d' = d\<lparr>dels := ds, scopes := sc\<rparr>" "\<And>i. i \<noteq> sid \<Longrightarrow> map_of ds i = map_of (dels d) i"
    "\<And>x. map_of (dels d) sid = Some x \<Longrightarrow> x_phase x = DELETE_COMPLETE \<and> x_epoch x < ep"
proof (cases "map_of (dels d) sid")
  case None
  with assms obtain sc where "d' = d\<lparr>scopes := sc\<rparr>" by (auto simp: activate_locked_def dest: activate_scopeE)
  with None that [where ds = "dels d" and sc = sc] show thesis by simp
next
  case (Some x)
  with assms have x: "x_phase x = DELETE_COMPLETE" "x_epoch x < ep" by (auto simp: activate_locked_def split: if_splits)
  with assms Some obtain sc where "d' = d\<lparr>dels := tdel sid (dels d), scopes := sc\<rparr>"
    by (auto simp: activate_locked_def tdelete_def thit_Some dest: activate_scopeE)
  with x Some that show thesis by simp
qed

lemma activateE:
  assumes "activate tenant sid ep now d = Inr d'"
  obtains ds sc where "d' = d\<lparr>dels := ds, scopes := sc\<rparr>" "\<And>i. i \<noteq> sid \<Longrightarrow> map_of ds i = map_of (dels d) i"
    "\<And>x. map_of (dels d) sid = Some x \<Longrightarrow> x_phase x = DELETE_COMPLETE \<and> x_epoch x < ep"
proof -
  from assms have "activate_locked tenant sid ep now d = Inr d'"
    by (auto simp: activate_def split: option.splits if_splits)
  with that show thesis by (blast elim: activate_lockedE)
qed

lemma create_hookE:
  assumes "activate_created_kb now sid b d = Inr d'"
  obtains ds sc where "d' = d\<lparr>dels := ds, scopes := sc\<rparr>" "\<And>i. i \<noteq> sid \<Longrightarrow> map_of ds i = map_of (dels d) i"
    "\<And>x. map_of (dels d) sid = Some x \<Longrightarrow> x_phase x = DELETE_COMPLETE \<and> x_epoch x < b_epoch b"
proof -
  from assms obtain tenant where "activate_locked tenant sid (b_epoch b) now d = Inr d'"
    by (auto simp: activate_created_kb_def)
  with that show thesis by (blast elim: activate_lockedE)
qed

lemma insert_kb_Inr: "insert_kb dia sid b t = Inr t' \<Longrightarrow> map_of t sid = None \<and> t' = tput sid b t"
  by (auto simp: insert_kb_def tput_fresh split: if_splits)

text \<open>A creation that commits: the row is new, or it was a tombstone and is active again under the next epoch.\<close>

lemma createE:
  assumes "registry_create dia c (activate_created_kb t0) kb tenant owner created now d = Inr (x, d')"
  obtains sid b ds sc where "x = (sid, b)" "storage_id_for c kb tenant = Inr sid"
    "d' = d\<lparr>kbs := tput sid b (kbs d), dels := ds, scopes := sc\<rparr>"
    "b_lifecycle b = LIFECYCLE_ACTIVE" "1 \<le> b_epoch b"
    "\<And>r. map_of (kbs d) sid = Some r \<Longrightarrow> b_lifecycle r = LIFECYCLE_DELETED \<and> b_epoch b = b_epoch r + 1 \<and>
       b_tenant b = b_tenant r \<and> b_kb b = b_kb r"
    "\<And>i. i \<noteq> sid \<Longrightarrow> map_of ds i = map_of (dels d) i"
    "\<And>x. map_of (dels d) sid = Some x \<Longrightarrow> x_phase x = DELETE_COMPLETE \<and> x_epoch x < b_epoch b"
proof -
  from assms obtain kb' tn ow where n: "validate_kb_id kb = Inr kb'" "normalize_identity_id tenant ''tenant_id'' = Inr tn"
    "normalize_identity_id owner ''owner_id'' = Inr ow" by (auto simp: registry_create_def)
  define sid where "sid = make_storage_id c kb' tn"
  have sf: "storage_id_for c kb tenant = Inr sid" using n by (simp add: storage_id_for_def sid_def)
  note e = assms [unfolded registry_create_def, simplified n bindR_simps, folded sid_def, unfolded Let_def]
  show thesis
  proof (cases "map_of (kbs d) sid")
    case None
    define b where "b = \<lparr>b_tenant = tn, b_kb = kb', b_owner = ow, b_created_at = created,
        b_lifecycle = LIFECYCLE_ACTIVE, b_epoch = 1, b_revision = 1, b_updated_at = now\<rparr>"
    from e None obtain tb where tb: "insert_kb dia sid b (kbs d) = Inr tb" by (auto simp: b_def sid_def)
    note tb' = insert_kb_Inr [OF tb]
    from e tb tb' None have h: "x = (sid, b)" "activate_created_kb t0 sid b (d\<lparr>kbs := tput sid b (kbs d)\<rparr>) = Inr d'"
      by (auto simp: b_def sid_def)
    from h(2) show thesis
      by (rule create_hookE) (auto intro!: that [of sid b] simp: h None b_def sf)
  next
    case (Some r)
    define b where "b = revive ow created now r"
    from e Some have lc: "b_lifecycle r = LIFECYCLE_DELETED" by (auto simp: sid_def split: if_splits)
    from e Some lc have h: "x = (sid, b)" "activate_created_kb t0 sid b (d\<lparr>kbs := tput sid b (kbs d)\<rparr>) = Inr d'"
      by (auto simp: b_def sid_def tset_def)
    have "1 \<le> b_epoch b" using h(2) by (auto simp: activate_created_kb_def)
    with h(2) show thesis
      by (elim create_hookE) (auto intro!: that [of sid b] simp: h Some lc b_def revive_def sf)
  qed
qed

lemma import_oneE:
  assumes "import_one c lcs eps now r (n, m, d) = Inr (n', m', d')"
  shows "\<exists>kb. d' = d\<lparr>kbs := kb\<rparr> \<and> (\<forall>i b. map_of (kbs d) i = Some b \<longrightarrow> map_of kb i = Some b)"
proof -
  have k: "d = d\<lparr>kbs := kbs d\<rparr>" by simp
  from assms show ?thesis
    unfolding import_one_def bindR_Inr prod.case Let_def
    by (elim exE conjE, split option.splits if_splits; force split: if_splits option.splits intro: exI [of _ "kbs d"])
qed

lemma import_legacyE:
  "import_legacy c lcs eps now rs (n, m, d) = Inr (n', m', d') \<Longrightarrow>
   \<exists>kb. d' = d\<lparr>kbs := kb\<rparr> \<and> (\<forall>i b. map_of (kbs d) i = Some b \<longrightarrow> map_of kb i = Some b)"
proof (induction rs arbitrary: n m d)
  case Nil
  then show ?case by (intro exI [of _ "kbs d"]) simp
next
  case (Cons r rs)
  then obtain n1 m1 d1 where 1: "import_one c lcs eps now r (n, m, d) = Inr (n1, m1, d1)"
    and 2: "import_legacy c lcs eps now rs (n1, m1, d1) = Inr (n', m', d')"
    by (auto simp del: bindR_Inr simp: bindR_def split: sum.splits)
  from import_oneE [OF 1] Cons.IH [OF 2] show ?case by fastforce
qed

lemma import_legacy_db:
  "import_legacy c lcs eps now rs (n, m, d) = Inr y \<Longrightarrow>
   \<exists>kb. snd (snd y) = d\<lparr>kbs := kb\<rparr> \<and> (\<forall>i b. map_of (kbs d) i = Some b \<longrightarrow> map_of kb i = Some b)"
  by (cases y) (auto dest: import_legacyE)

text \<open>The fence of a deletion.\<close>

lemma record_deletionE:
  assumes "record_deletion tenant sid ep now d = Inr d'"
  obtains x sc where "map_of (dels d) sid = None"
    "x = \<lparr>x_tenant = tenant, x_epoch = ep, x_phase = DELETE_FENCED, x_index_gen = index_head_of tenant sid d,
       x_source_gen = source_head_of sid d, x_artifacts = 0, x_documents = 0, x_started_at = now, x_updated_at = now\<rparr>"
    "d' = d\<lparr>dels := dels d @ [(sid, x)],
       mleases := tset sid (\<lambda>_. True) (\<lambda>l. l\<lparr>l_expires_at := 0, l_updated_at := now\<rparr>) (mleases d), scopes := sc\<rparr>"
  using assms unfolding record_deletion_def bindR_Inr tinsert_Inr by (elim exE conjE) (rule that; auto)

lemma fence_kbE:
  assumes "fence_kb sid b now d = Inr (ep, d')" and "map_of (kbs d) sid = Some b"
    and "b_lifecycle b \<in> {LIFECYCLE_ACTIVE, LIFECYCLE_DELETING}"
  shows "\<exists>b'. (b_lifecycle b = LIFECYCLE_ACTIVE \<and> b' = b\<lparr>b_lifecycle := LIFECYCLE_DELETING, b_epoch := b_epoch b + 1,
         b_revision := b_revision b + 1, b_updated_at := now\<rparr> \<or> b_lifecycle b = LIFECYCLE_DELETING \<and> b' = b) \<and>
     ep = b_epoch b' \<and> d' = d\<lparr>kbs := tput sid b' (kbs d)\<rparr>"
proof (cases "b_lifecycle b = LIFECYCLE_ACTIVE")
  case True
  with assms have "ep = b_epoch b + 1" "d' = d\<lparr>kbs := tput sid (b\<lparr>b_lifecycle := LIFECYCLE_DELETING,
      b_epoch := b_epoch b + 1, b_revision := b_revision b + 1, b_updated_at := now\<rparr>) (kbs d)\<rparr>"
    by (auto simp: fence_kb_def Let_def thit_Some tset_Some)
  with True show ?thesis by (intro exI conjI disjI1) simp_all
next
  case False
  with assms show ?thesis by (intro exI [of _ b]) (simp add: fence_kb_def)
qed

lemma begin_deleteE:
  assumes "begin_delete auth tenant sid now d = Inr (x, d')"
  obtains b where "map_of (kbs d) sid = Some b" "b_tenant b = tenant" "d' = d" "map_of (dels d) sid = Some x"
    "b_lifecycle b = LIFECYCLE_DELETED \<and> x_phase x = DELETE_COMPLETE \<or>
     b_lifecycle b \<in> {LIFECYCLE_ACTIVE, LIFECYCLE_DELETING} \<and> x_tenant x = tenant \<and> x_epoch x = b_epoch b"
  | b b' sc where "map_of (kbs d) sid = Some b" "b_tenant b = tenant" "map_of (dels d) sid = None"
    "b_lifecycle b = LIFECYCLE_ACTIVE \<and> b' = b\<lparr>b_lifecycle := LIFECYCLE_DELETING, b_epoch := b_epoch b + 1,
         b_revision := b_revision b + 1, b_updated_at := now\<rparr> \<or> b_lifecycle b = LIFECYCLE_DELETING \<and> b' = b"
    "x = \<lparr>x_tenant = tenant, x_epoch = b_epoch b', x_phase = DELETE_FENCED, x_index_gen = index_head_of tenant sid d,
       x_source_gen = source_head_of sid d, x_artifacts = 0, x_documents = 0, x_started_at = now, x_updated_at = now\<rparr>"
    "d' = d\<lparr>kbs := tput sid b' (kbs d), dels := dels d @ [(sid, x)],
       mleases := tset sid (\<lambda>_. True) (\<lambda>l. l\<lparr>l_expires_at := 0, l_updated_at := now\<rparr>) (mleases d), scopes := sc\<rparr>"
proof -
  from assms obtain b where b: "map_of (kbs d) sid = Some b" "b_tenant b = tenant"
    by (auto simp: begin_delete_def split: option.splits if_splits)
  note e = assms [unfolded begin_delete_def, simplified b option.case Let_def, simplified]
  show thesis
  proof (cases "map_of (dels d) sid")
    case (Some y)
    with e have "y = x" "d' = d" "b_lifecycle b = LIFECYCLE_DELETED \<and> x_phase x = DELETE_COMPLETE \<or>
     b_lifecycle b \<in> {LIFECYCLE_ACTIVE, LIFECYCLE_DELETING} \<and> x_tenant x = tenant \<and> x_epoch x = b_epoch b"
      by (auto split: if_splits)
    with Some that(1) [OF b] show thesis by simp
  next
    case None
    with e obtain ep d1 d2 where lc: "b_lifecycle b \<in> {LIFECYCLE_ACTIVE, LIFECYCLE_DELETING}"
      and f: "fence_kb sid b now d = Inr (ep, d1)" and r: "record_deletion tenant sid ep now d1 = Inr d2"
      and x: "(case map_of (dels d2) sid of None \<Rightarrow> Inl AssertionError | Some x \<Rightarrow> Inr (x, d2)) = Inr (x, d')"
      by (auto split: if_splits)
    from fence_kbE [OF f b(1) lc] obtain b' where b': "b_lifecycle b = LIFECYCLE_ACTIVE \<and>
        b' = b\<lparr>b_lifecycle := LIFECYCLE_DELETING, b_epoch := b_epoch b + 1, b_revision := b_revision b + 1,
               b_updated_at := now\<rparr> \<or> b_lifecycle b = LIFECYCLE_DELETING \<and> b' = b"
      "ep = b_epoch b'" "d1 = d\<lparr>kbs := tput sid b' (kbs d)\<rparr>" by blast
    from r obtain y sc where y: "y = \<lparr>x_tenant = tenant, x_epoch = ep, x_phase = DELETE_FENCED,
        x_index_gen = index_head_of tenant sid d1, x_source_gen = source_head_of sid d1, x_artifacts = 0,
        x_documents = 0, x_started_at = now, x_updated_at = now\<rparr>"
      and d2: "d2 = d1\<lparr>dels := dels d1 @ [(sid, y)],
       mleases := tset sid (\<lambda>_. True) (\<lambda>l. l\<lparr>l_expires_at := 0, l_updated_at := now\<rparr>) (mleases d1), scopes := sc\<rparr>"
      by (elim record_deletionE) blast
    have "map_of (dels d2) sid = Some y" by (simp add: d2 b'(3) None)
    with x have "y = x" "d' = d2" by simp_all
    moreover have "index_head_of tenant sid d1 = index_head_of tenant sid d" "source_head_of sid d1 = source_head_of sid d"
      by (simp_all add: b'(3) index_head_of_def source_head_of_def)
    ultimately have "d' = d\<lparr>kbs := tput sid b' (kbs d), dels := dels d @ [(sid, x)],
        mleases := tset sid (\<lambda>_. True) (\<lambda>l. l\<lparr>l_expires_at := 0, l_updated_at := now\<rparr>) (mleases d), scopes := sc\<rparr>"
      and "x = \<lparr>x_tenant = tenant, x_epoch = b_epoch b', x_phase = DELETE_FENCED, x_index_gen = index_head_of tenant sid d,
        x_source_gen = source_head_of sid d, x_artifacts = 0, x_documents = 0, x_started_at = now, x_updated_at = now\<rparr>"
      using y d2 b'(2,3) by simp_all
    then show thesis by (rule that(2) [OF b None b'(1), rotated])
  qed
qed

section \<open>Every transaction refines the index protocol\<close>

lemma clean_deleteE:
  assumes "clean_delete ext sid x now d = Inr (y, d')"
  obtains "d' = d" "y = x" "x_phase x \<noteq> DELETE_FENCED"
  | cur a n where "map_of (dels d) sid = Some cur" "x_epoch cur = x_epoch x" "ext = Inr (a, n)"
    "d' = d\<lparr>dels := tput sid y (dels d)\<rparr>"
    "y = (if x_phase cur = DELETE_FENCED then cur\<lparr>x_phase := DELETE_CLEANED, x_artifacts := x_artifacts cur + a,
            x_documents := x_documents cur + n, x_updated_at := now\<rparr> else cur)"
proof (cases "x_phase x = DELETE_FENCED")
  case False
  with assms that(1) show thesis by (simp add: clean_delete_def)
next
  case True
  with assms obtain a n where ext: "ext = Inr (a, n)" by (auto simp: clean_delete_def)
  with assms True obtain cur where cur: "map_of (dels d) sid = Some cur" "x_epoch cur = x_epoch x"
    by (auto simp: clean_delete_def split: option.splits if_splits)
  define z where "z = (if x_phase cur = DELETE_FENCED then cur\<lparr>x_phase := DELETE_CLEANED, x_artifacts := x_artifacts cur + a,
            x_documents := x_documents cur + n, x_updated_at := now\<rparr> else cur)"
  from assms True ext cur have "y = z \<and> d' = d\<lparr>dels := tput sid z (dels d)\<rparr>"
    by (cases "x_phase cur = DELETE_FENCED") (auto simp: clean_delete_def Let_def tset_Some z_def)
  with that(2) [OF cur ext] show thesis unfolding z_def by blast
qed

text \<open>What leaves the index tables alone.\<close>

lemma index_views [simp]:
  "index_view (d\<lparr>kbs := a\<rparr>) = index_view d" "index_view (d\<lparr>mleases := b\<rparr>) = index_view d"
  "index_view (d\<lparr>sgens := c\<rparr>) = index_view d" "index_view (d\<lparr>sheads := e\<rparr>) = index_view d"
  "index_view (d\<lparr>readers := f\<rparr>) = index_view d" "index_view (d\<lparr>dels := g\<rparr>) = index_view d"
  "index_view (d\<lparr>scopes := h\<rparr>) = index_view d" "index_view (d\<lparr>outbox := i\<rparr>) = index_view d"
  by (simp_all add: index_view_def)

lemma registry_index:
  "registry_delete kb tn now d = Inr (b, d') \<Longrightarrow> index_view d' = index_view d"
  "index_view (snd (registry_set sid st now d)) = index_view d"
  "index_view (snd (registry_bump sid now d)) = index_view d"
  by (auto simp: registry_delete_def registry_set_def registry_bump_def Let_def split: option.splits)

lemma lease_index:
  "acquire_mutation ow secs sid now tok d = Inr (l, d') \<Longrightarrow> index_view d' = index_view d"
  "heartbeat_mutation secs lease now d = Inr (l, d') \<Longrightarrow> index_view d' = index_view d"
  "index_view (release_mutation lease now d) = index_view d"
  by (auto simp: acquire_mutation_def heartbeat_mutation_def release_mutation_def Let_def split: option.splits if_splits)

lemma source_index:
  "insert_source_gen gid tn lease base build mk ms cs now d = Inr d' \<Longrightarrow> index_view d' = index_view d"
  "index_view (snd (forget_source gid before d)) = index_view d"
  by (auto simp: insert_source_gen_def forget_source_def Let_def split: prod.splits)

text \<open>The effects of the reader operations on the lease table.\<close>

definition head_gen :: "string \<Rightarrow> string \<Rightarrow> ha_db \<Rightarrow> string option" where
  "head_gen tenant kb d = (case map_of (iheads d) (tenant, kb) of None \<Rightarrow> None | Some h \<Rightarrow> ih_current h)"

lemma acquire_readerE:
  assumes "acquire_reader tenant kb owner secs now rid tok d = Inr (x, d')"
  obtains "x = None" "d' = d" "head_gen tenant kb d \<in> {None, Some []}"
  | gid g e where "x = Some ((gid, g), rid, tok, e)" "head_gen tenant kb d = Some gid" "map_of (igens d) gid = Some g"
    "g_tenant g = tenant" "g_kb g = kb" "g_status g = GEN_PUBLISHED" "map_of (readers d) rid = None"
    "e = now + fin_val secs"
    "d' = d\<lparr>readers := readers d @ [(rid, \<lparr>rl_gen = gid, rl_owner = owner, rl_token = tok, rl_expires_at = e,
        rl_created_at = now, rl_updated_at = now\<rparr>)]\<rparr>"
proof -
  from assms have cl: "clean tenant ''tenant_id'' 255 = Inr tenant" "clean kb ''kb_id'' 255 = Inr kb"
    "clean owner ''lease_owner'' 255 = Inr owner" "index_lease ''reader'' secs = Inr (fin_val secs)"
    by (auto simp: acquire_reader_def clean_def index_lease_def split: if_splits)
  note e = assms [unfolded acquire_reader_def, folded head_gen_def, simplified cl bindR_simps]
  show thesis
  proof (cases "head_gen tenant kb d")
    case None
    with e that(1) show thesis by simp
  next
    case (Some gid)
    show thesis
    proof (cases "gid = []")
      case True
      with e Some that(1) show thesis by simp
    next
      case False
      with e Some obtain g where g: "map_of (igens d) gid = Some g" by (auto split: option.splits)
      with e Some False have p: "g_tenant g = tenant" "g_kb g = kb" "g_status g = GEN_PUBLISHED"
        by (auto split: if_splits)
      with e Some False g have "map_of (readers d) rid = None" "x = Some ((gid, g), rid, tok, now + fin_val secs)"
        "d' = d\<lparr>readers := readers d @ [(rid, \<lparr>rl_gen = gid, rl_owner = owner, rl_token = tok,
          rl_expires_at = now + fin_val secs, rl_created_at = now, rl_updated_at = now\<rparr>)]\<rparr>"
        by auto
      with that(2) [OF _ Some g p] show thesis by simp
    qed
  qed
qed

lemma beat_readerE:
  "heartbeat_reader rid tok secs now d = Inr d' \<Longrightarrow>
   d' = d\<lparr>readers := tset rid (\<lambda>r. rl_token r = tok \<and> now < rl_expires_at r)
            (\<lambda>r. r\<lparr>rl_expires_at := now + fin_val secs, rl_updated_at := now\<rparr>) (readers d)\<rparr>"
  by (auto simp: heartbeat_reader_def index_lease_def Let_def split: if_splits)

lemma release_readerE:
  "release_reader rid tok d = Inr (b, d') \<Longrightarrow> d' = d\<lparr>readers := tdelete rid (\<lambda>r. rl_token r = tok) (readers d)\<rparr>"
  by (auto simp: release_reader_def Let_def)

lemma prune_readersE:
  "prune_reader_leases before limit d = Inr (n, d') \<Longrightarrow> \<exists>rows. d' = d\<lparr>readers := fold (\<lambda>(i, _) t. tdel i t) rows (readers d)\<rparr> \<and>
     (\<forall>(i, r) \<in> set rows. (i, r) \<in> set (readers d) \<and> rl_expires_at r \<le> fin_val before)"
  unfolding prune_reader_leases_def Let_def bindR_Inr
  by (elim exE conjE) (auto simp: sql_select_def dest!: in_set_takeD)

lemma reader_index:
  "acquire_reader tn kb ow secs now rid tok d = Inr (x, d') \<Longrightarrow> index_view d' = index_view d"
  "heartbeat_reader rid tok secs now d = Inr d' \<Longrightarrow> index_view d' = index_view d"
  "release_reader rid tok d = Inr (b, d') \<Longrightarrow> index_view d' = index_view d"
  "prune_reader_leases before limit d = Inr (n, d') \<Longrightarrow> index_view d' = index_view d"
  by (auto elim: acquire_readerE dest!: beat_readerE release_readerE prune_readersE)

lemma create_index:
  "registry_create dia c (activate_created_kb t) kb tn ow cr now d = Inr (x, d') \<Longrightarrow> index_view d' = index_view d"
  by (erule createE) simp

lemma import_index: "import_legacy c lcs eps now rs (n, m, d) = Inr (n', m', d') \<Longrightarrow> index_view d' = index_view d"
  by (drule import_legacyE) auto

lemma activate_index: "activate tn sid ep now d = Inr d' \<Longrightarrow> index_view d' = index_view d"
  by (erule activateE) simp

lemma begin_index: "begin_delete auth tn sid now d = Inr (y, d') \<Longrightarrow> index_view d' = index_view d"
  by (erule begin_deleteE) simp_all

lemma clean_index: "clean_delete ext sid z now d = Inr (y, d') \<Longrightarrow> index_view d' = index_view d"
  by (erule clean_deleteE) simp_all

lemmas deletion_index = create_index import_index activate_index begin_index clean_index

text \<open>The refinement.\<close>

abbreviation index_refines :: "(index_label \<Rightarrow> bool) \<Rightarrow> ha_db \<Rightarrow> ha_db \<Rightarrow> bool" where
  "index_refines P d d' \<equiv> index_steps P (index_view d) (index_view d')"

lemma index_refines_frame: "index_view d' = index_view d \<Longrightarrow> index_refines P d d'"
  by simp

lemma index_refines_quiet: "index_refines (\<lambda>l. l = IQuiet) d d' \<Longrightarrow> index_refines (index_may op d) d d'"
  by (erule index_steps_mono) (simp add: index_may_def)

lemma kept_frame: "(\<And>x d'. r = Inr (x, d') \<Longrightarrow> index_view d' = index_view d) \<Longrightarrow> index_refines P d (kept r d)"
  by (cases r) (auto simp: kept_def)

lemma kept_db_frame: "(\<And>d'. r = Inr d' \<Longrightarrow> index_view d' = index_view d) \<Longrightarrow> index_refines P d (kept_db r d)"
  by (cases r) (auto simp: kept_db_def)

lemma kept_quiet: "(\<And>x d'. r = Inr (x, d') \<Longrightarrow> index_refines (\<lambda>l. l = IQuiet) d d') \<Longrightarrow>
    index_refines (index_may op d) d (kept r d)"
  by (cases r) (auto simp: kept_def intro: index_refines_quiet)

lemmas index_kept_frame = create_index [THEN kept_frame] registry_index(1) [THEN kept_frame]
  lease_index(1,2) [THEN kept_frame] publish_source_index [THEN kept_frame] reader_index(1,3,4) [THEN kept_frame]
  begin_index [THEN kept_frame] clean_index [THEN kept_frame] registry_index(2,3) lease_index(3) source_index(2)

lemmas index_kept_db = source_index(1) [THEN kept_db_frame] reader_index(2) [THEN kept_db_frame]
  activate_index [THEN kept_db_frame]

lemmas index_kept_quiet = begin_build_index [THEN kept_quiet] resume_index [THEN kept_quiet]
  beat_index [THEN kept_quiet] prepare_index_step [THEN kept_quiet] abort_index_step [THEN kept_quiet]

lemma exec_index: "index_refines (index_may op d) d (exec v op d)"
proof (cases op)
  case (Publish_Index src w r now0 d0 now)
  show ?thesis
  proof (cases "publish_generation v src w r now0 d0 now d")
    case (Inr y)
    then obtain x d' where y: "publish_generation v src w r now0 d0 now d = Inr (x, d')" by (cases y) simp
    from publish_generation_index [OF y] show ?thesis
      by (auto simp: Publish_Index y kept_def index_may_def intro: index_steps_one)
  qed (simp add: Publish_Index kept_def)
next
  case (Forget_Index gid before now)
  show ?thesis
  proof (cases "forget_index gid before now d")
    case (Inr y)
    then obtain x d' where y: "forget_index gid before now d = Inr (x, d')" by (cases y) simp
    from forget_index_step [OF y] show ?thesis
      by (auto simp: Forget_Index y kept_def index_may_def intro: index_steps_one)
  qed (simp add: Forget_Index kept_def)
next
  case (Finalize_Delete sid x now w)
  show ?thesis
  proof (cases "finalize_delete (he_dialect v) (he_codec v) sid x now (fst w) (snd w) d")
    case (Inr y)
    then obtain y' d' where y: "finalize_delete (he_dialect v) (he_codec v) sid x now (fst w) (snd w) d = Inr (y', d')"
      by (cases y) simp
    have "index_view d' = index_view d \<or> index_view d' = (igens d, tdel (x_tenant x, sid) (iheads d))"
      using y by (rule finalizeE) (auto simp: index_view_def)
    then show ?thesis
      by (elim disjE) (simp_all add: Finalize_Delete y kept_def index_may_def index_view_def [of d]
          index_steps_one [OF index_step.drop])
  qed (simp add: Finalize_Delete kept_def)
next
  case (Reg_Import lcs eps now rs)
  then show ?thesis by (auto split: sum.splits dest: deletion_index)
qed (simp_all add: index_refines_frame index_kept_frame index_kept_quiet index_kept_db)

section \<open>What a transaction leaves alone\<close>

text \<open>The authority tables: registry, leases, deletions; with the reader leases they are all an index or source
  transaction does not write.\<close>

definition authority :: "ha_db \<Rightarrow> (string, kb_rec) table \<times> (string, lease_row) table \<times> (string, deletion) table" where
  "authority d = (kbs d, mleases d, dels d)"

definition quiet :: "ha_db \<Rightarrow> ha_db \<Rightarrow> bool" where
  "quiet d d' \<longleftrightarrow> authority d' = authority d \<and> readers d' = readers d"

lemma quiet_refl [simp]: "quiet d d"
  by (simp add: quiet_def)

lemma quiet_updates [simp]:
  "quiet d (e\<lparr>igens := a\<rparr>) = quiet d e" "quiet d (e\<lparr>iheads := b\<rparr>) = quiet d e" "quiet d (e\<lparr>sgens := c\<rparr>) = quiet d e"
  "quiet d (e\<lparr>sheads := f\<rparr>) = quiet d e" "quiet d (e\<lparr>scopes := g\<rparr>) = quiet d e" "quiet d (e\<lparr>outbox := h\<rparr>) = quiet d e"
  "quiet (e\<lparr>igens := a\<rparr>) d = quiet e d" "quiet (e\<lparr>iheads := b\<rparr>) d = quiet e d" "quiet (e\<lparr>sgens := c\<rparr>) d = quiet e d"
  "quiet (e\<lparr>sheads := f\<rparr>) d = quiet e d"
  by (simp_all add: quiet_def authority_def)

lemma adopt_quiet: "adopt_build w secs now tok h r d = Inr (x, d') \<Longrightarrow> quiet d d'"
  by (auto simp: adopt_build_def Let_def split: if_splits prod.splits)

lemma new_build_quiet: "new_build tn kb b w secs now gid tok h d = Inr (x, d') \<Longrightarrow> quiet d d'"
  by (auto simp: new_build_def Let_def)

lemma begin_build_quiet:
  assumes "begin_build guard tenant kb build w base secs now gid tok d = Inr (x, d')"
  shows "quiet d d'"
proof -
  define d1 where "d1 = d\<lparr>iheads := tinsert_ignore (tenant, kb)
    \<lparr>ih_current = None, ih_fence = 0, ih_revision = 0, ih_updated_at = now\<rparr> (iheads d)\<rparr>"
  from assms obtain h where "map_of (iheads d1) (tenant, kb) = Some h" and
    "(\<exists>secs r. adopt_build w secs now tok h r d1 = Inr (x, d')) \<or>
     (\<exists>secs. new_build tenant kb build w secs now gid tok h d1 = Inr (x, d'))"
    unfolding begin_build_def Let_def d1_def [symmetric]
    by (cases "map_of (iheads d1) (tenant, kb)") (auto split: if_splits option.splits)
  then have "quiet d1 d'" by (blast intro: adopt_quiet new_build_quiet)
  then show ?thesis by (simp add: d1_def)
qed

lemma resume_quiet: "resume_build gid w secs now tok d = Inr (x, d') \<Longrightarrow> quiet d d'"
  by (cases "map_of (igens d) gid") (auto simp: resume_build_def Let_def split: if_splits)

lemma beat_quiet: "heartbeat_index gid tok secs now d = Inr (x, d') \<Longrightarrow> quiet d d'"
  by (auto simp: heartbeat_index_def Let_def split: if_splits)

lemma prepare_quiet: "prepare_index rep c gid tok m now d = Inr (x, d') \<Longrightarrow> quiet d d'"
  by (auto simp: prepare_index_def Let_def split: if_splits)

lemma abort_quiet: "abort_index gid tok now d = Inr (x, d') \<Longrightarrow> quiet d d'"
  by (auto simp: abort_index_def Let_def split: if_splits)

lemma forget_index_quiet: "forget_index gid before now d = Inr (x, d') \<Longrightarrow> quiet d d'"
  by (auto simp: forget_index_def Let_def)

lemma publish_source_quiet: "publish_source dia c b gid lease now t i d = Inr (x, d') \<Longrightarrow> quiet d d'"
  by (erule publish_sourceE) (auto simp: publish_source_db_def)

lemma publish_hook_quiet: "publish_hook v src w g0 r d = Inr d' \<Longrightarrow> quiet d d'"
  by (auto simp: publish_hook_def dest!: index_event_frame publish_source_quiet split: option.splits)

lemma publish_generation_quiet:
  assumes "publish_generation v src w r now0 d0 now d = Inr (x, d')"
  shows "quiet d d'"
  using publish_index_commit [OF assms [unfolded publish_generation_def]]
  by (rule publish_commitE) (auto dest: publish_hook_quiet)

lemma source_quiet:
  "insert_source_gen gid tn lease base build mk ms cs now d = Inr d' \<Longrightarrow> quiet d d'"
  "quiet d (snd (forget_source gid before d))"
  by (auto simp: insert_source_gen_def forget_source_def Let_def split: prod.splits)

fun data_op :: "ha_op \<Rightarrow> bool" where
  "data_op (Stage _ _ _ _ _ _ _ _ _) = True"
| "data_op (Publish_Source _ _ _ _) = True"
| "data_op (Forget_Source _ _) = True"
| "data_op (Begin_Build _ _ _ _ _ _ _ _ _) = True"
| "data_op (Resume_Build _ _ _ _ _) = True"
| "data_op (Beat_Build _ _ _ _) = True"
| "data_op (Prepare_Index _ _ _ _) = True"
| "data_op (Publish_Index _ _ _ _ _ _) = True"
| "data_op (Abort_Build _ _ _) = True"
| "data_op (Forget_Index _ _ _) = True"
| "data_op _ = False"

lemma kept_quiet_rel: "(\<And>x d'. r = Inr (x, d') \<Longrightarrow> quiet d d') \<Longrightarrow> quiet d (kept r d)"
  by (cases r) (auto simp: kept_def)

lemma kept_db_quiet_rel: "(\<And>d'. r = Inr d' \<Longrightarrow> quiet d d') \<Longrightarrow> quiet d (kept_db r d)"
  by (cases r) (auto simp: kept_db_def)

lemma exec_quiet: "data_op op \<Longrightarrow> quiet d (exec v op d)"
  by (cases op)
    (simp_all add: begin_build_quiet [THEN kept_quiet_rel] resume_quiet [THEN kept_quiet_rel]
      beat_quiet [THEN kept_quiet_rel] prepare_quiet [THEN kept_quiet_rel] abort_quiet [THEN kept_quiet_rel]
      forget_index_quiet [THEN kept_quiet_rel] publish_source_quiet [THEN kept_quiet_rel]
      publish_generation_quiet [THEN kept_quiet_rel] source_quiet(1) [THEN kept_db_quiet_rel] source_quiet(2))

lemma exec_data [simp]:
  assumes "data_op op"
  shows "kbs (exec v op d) = kbs d" "mleases (exec v op d) = mleases d" "dels (exec v op d) = dels d"
    "readers (exec v op d) = readers d"
  using exec_quiet [OF assms, of d v] by (simp_all add: quiet_def authority_def)

end
