(* ===== verification/HA_Authority_Props.thy ===== *)
theory HA_Authority_Props
  imports HA_Control
begin

text \<open>
  Who may change a knowledge base: mutation leases exclude each other for good, a deletion fences every store at
  once, and what belonged to an incarnation before its deletion has no authority over any later one.
\<close>

declare map_of_append [simp del]

section \<open>What an operation does to a registry row\<close>

text \<open>The operations that may make the knowledge base \<open>sid\<close> active: creating it again, and setting its lifecycle.\<close>

definition reactivates :: "ha_env \<Rightarrow> string \<Rightarrow> ha_op \<Rightarrow> bool" where
  "reactivates v sid op = (case op of
     Reg_Create kb tenant _ _ _ _ \<Rightarrow> storage_id_for (he_codec v) kb tenant = Inr sid
   | Reg_Set s _ _ \<Rightarrow> s = sid
   | _ \<Rightarrow> False)"

definition row_later :: "ha_env \<Rightarrow> string \<Rightarrow> ha_op \<Rightarrow> kb_rec \<Rightarrow> kb_rec \<Rightarrow> bool" where
  "row_later v sid op b b' \<longleftrightarrow> b_tenant b' = b_tenant b \<and> b_kb b' = b_kb b \<and> b_epoch b \<le> b_epoch b' \<and>
     (b_lifecycle b \<noteq> LIFECYCLE_ACTIVE \<longrightarrow> \<not> reactivates v sid op \<longrightarrow> b_lifecycle b' \<noteq> LIFECYCLE_ACTIVE)"

lemma row_later_refl [simp]: "row_later v sid op b b"
  by (simp add: row_later_def)

lemma lifecycle_distinct [simp]: "LIFECYCLE_ACTIVE \<noteq> LIFECYCLE_DELETING" "LIFECYCLE_DELETING \<noteq> LIFECYCLE_ACTIVE"
  "LIFECYCLE_ACTIVE \<noteq> LIFECYCLE_DELETED" "LIFECYCLE_DELETED \<noteq> LIFECYCLE_ACTIVE"
  "LIFECYCLE_DELETING \<noteq> LIFECYCLE_DELETED" "LIFECYCLE_DELETED \<noteq> LIFECYCLE_DELETING"
  by (simp_all add: lifecycle_marks)

text \<open>No operation removes a row.\<close>

definition rows_later :: "ha_env \<Rightarrow> ha_op \<Rightarrow> ha_db \<Rightarrow> ha_db \<Rightarrow> bool" where
  "rows_later v op d d' \<longleftrightarrow> (\<forall>sid b. map_of (kbs d) sid = Some b \<longrightarrow>
     (\<exists>b'. map_of (kbs d') sid = Some b' \<and> row_later v sid op b b'))"

lemma rows_later_frame: "kbs d' = kbs d \<Longrightarrow> rows_later v op d d'"
  by (simp add: rows_later_def)

lemma rows_later_tset:
  assumes "\<And>b. p b \<Longrightarrow> row_later v sid op b (f b)"
  shows "rows_later v op d (d\<lparr>kbs := tset sid p f (kbs d)\<rparr>)"
  unfolding rows_later_def
proof (intro allI impI)
  fix s b assume "map_of (kbs d) s = Some b"
  from tset_row [OF this, of sid p f] assms
  show "\<exists>b'. map_of (kbs (d\<lparr>kbs := tset sid p f (kbs d)\<rparr>)) s = Some b' \<and> row_later v s op b b'" by fastforce
qed

lemma rows_later_tput:
  "map_of (kbs d) sid = Some b \<Longrightarrow> row_later v sid op b b' \<Longrightarrow> kbs d' = tput sid b' (kbs d) \<Longrightarrow> rows_later v op d d'"
  by (auto simp: rows_later_def)

lemma create_rows:
  assumes "registry_create dia (he_codec v) (activate_created_kb t) kb tn ow cr now d = Inr (x, d')"
  shows "rows_later v (Reg_Create kb tn ow cr now t) d d'"
  using assms by (rule createE) (auto simp: rows_later_def row_later_def reactivates_def)

lemma delete_rows: "registry_delete kb tn now d = Inr (b, d') \<Longrightarrow> rows_later v op d d'"
  by (auto simp: registry_delete_def Let_def row_later_def rows_later_frame split: option.splits intro!: rows_later_tset)

lemma set_rows: "rows_later v (Reg_Set sid st now) d (snd (registry_set sid st now d))"
  by (auto simp: registry_set_def Let_def reactivates_def row_later_def rows_later_def)

lemma bump_rows: "rows_later v op d (snd (registry_bump sid now d))"
proof (cases "map_of (kbs d) sid")
  case None
  then show ?thesis by (auto simp: registry_bump_def Let_def thit_def tset_def intro: rows_later_frame)
next
  case (Some b)
  then show ?thesis
    by (intro rows_later_tput [OF Some, of _ _ "b\<lparr>b_epoch := b_epoch b + 1, b_revision := b_revision b + 1, b_updated_at := now\<rparr>"])
      (auto simp: registry_bump_def Let_def thit_Some tset_Some row_later_def)
qed

lemma lease_rows:
  "acquire_mutation ow secs sid now tok d = Inr (l, d') \<Longrightarrow> kbs d' = kbs d"
  "heartbeat_mutation secs lease now d = Inr (l, d') \<Longrightarrow> kbs d' = kbs d"
  by (auto simp: acquire_mutation_def heartbeat_mutation_def Let_def split: option.splits if_splits)

lemma begin_rows: "begin_delete auth tn sid now d = Inr (y, d') \<Longrightarrow> rows_later v op d d'"
proof (erule begin_deleteE)
  fix b b' sc
  assume "map_of (kbs d) sid = Some b" and "b_lifecycle b = LIFECYCLE_ACTIVE \<and> b' = b\<lparr>b_lifecycle := LIFECYCLE_DELETING,
      b_epoch := b_epoch b + 1, b_revision := b_revision b + 1, b_updated_at := now\<rparr> \<or> b_lifecycle b = LIFECYCLE_DELETING \<and> b' = b"
    and "d' = d\<lparr>kbs := tput sid b' (kbs d), dels := dels d @ [(sid, y)],
       mleases := tset sid (\<lambda>_. True) (\<lambda>l. l\<lparr>l_expires_at := 0, l_updated_at := now\<rparr>) (mleases d), scopes := sc\<rparr>"
  then show ?thesis by (intro rows_later_tput [of d sid b v op b']) (auto simp: row_later_def)
qed (simp add: rows_later_frame)

lemma clean_rows: "clean_delete ext sid z now d = Inr (y, d') \<Longrightarrow> rows_later v op d d'"
  by (erule clean_deleteE) (simp_all add: rows_later_frame)

lemma finalize_rows: "finalize_delete dia c sid z now t i d = Inr (y, d') \<Longrightarrow> rows_later v op d d'"
  by (erule finalizeE) (auto simp: row_later_def rows_later_def)

lemma kept_rows: "(\<And>x d'. r = Inr (x, d') \<Longrightarrow> rows_later v op d d') \<Longrightarrow> rows_later v op d (kept r d)"
  by (cases r) (auto simp: kept_def rows_later_frame)

lemma kept_db_rows: "(\<And>d'. r = Inr d' \<Longrightarrow> rows_later v op d d') \<Longrightarrow> rows_later v op d (kept_db r d)"
  by (cases r) (auto simp: kept_db_def rows_later_frame)

lemma import_rows: "rows_later v op d (exec v (Reg_Import lcs eps now rs) d)"
  by (auto split: sum.splits simp: rows_later_frame dest!: import_legacyE)
    (fastforce simp: rows_later_def)

lemma reader_kbs:
  "acquire_reader tn kb ow secs now rid tok d = Inr (x, d') \<Longrightarrow> kbs d' = kbs d \<and> mleases d' = mleases d \<and> dels d' = dels d"
  "heartbeat_reader rid tok secs now d = Inr d' \<Longrightarrow> kbs d' = kbs d \<and> mleases d' = mleases d \<and> dels d' = dels d"
  "release_reader rid tok d = Inr (b, d') \<Longrightarrow> kbs d' = kbs d \<and> mleases d' = mleases d \<and> dels d' = dels d"
  "prune_reader_leases before limit d = Inr (n, d') \<Longrightarrow> kbs d' = kbs d \<and> mleases d' = mleases d \<and> dels d' = dels d"
  subgoal by (erule acquire_readerE) simp_all
  subgoal by (drule beat_readerE) simp
  subgoal by (drule release_readerE) simp
  subgoal by (drule prune_readersE) auto
  done

lemma activate_rows: "activate tn sid ep now d = Inr d' \<Longrightarrow> rows_later v op d d'"
  by (erule activateE) (simp add: rows_later_frame)

lemma exec_rows: "rows_later v op d (exec v op d)"
proof (cases "data_op op")
  case True
  then show ?thesis by (simp add: rows_later_frame)
next
  case False
  have frame: "rows_later v op d (kept r d)" if "\<And>x d'. r = Inr (x, d') \<Longrightarrow> kbs d' = kbs d" for r :: "('a \<times> ha_db) res"
    using that by (intro kept_rows rows_later_frame)
  from False show ?thesis
    by (cases op)
      (simp_all del: exec.simps(2) add: import_rows create_rows [THEN kept_rows] delete_rows [THEN kept_rows] set_rows bump_rows
        lease_rows [THEN rows_later_frame, THEN kept_rows] rows_later_frame release_mutation_def
        reader_kbs(1,3,4) [THEN conjunct1, THEN rows_later_frame, THEN kept_rows]
        reader_kbs(2) [THEN conjunct1, THEN rows_later_frame, THEN kept_db_rows]
        activate_rows [THEN kept_db_rows] begin_rows [THEN kept_rows] clean_rows [THEN kept_rows]
        finalize_rows [THEN kept_rows])
qed

lemma row_exec: "map_of (kbs d) sid = Some b \<Longrightarrow> \<exists>b'. map_of (kbs (exec v op d)) sid = Some b' \<and> row_later v sid op b b'"
  using exec_rows by (auto simp: rows_later_def)

lemma row_run:
  "map_of (kbs d) sid = Some b \<Longrightarrow>
   \<exists>b'. map_of (kbs (ha_run v ops d)) sid = Some b' \<and> b_tenant b' = b_tenant b \<and> b_kb b' = b_kb b \<and> b_epoch b \<le> b_epoch b' \<and>
     (b_lifecycle b \<noteq> LIFECYCLE_ACTIVE \<longrightarrow> (\<forall>op \<in> set ops. \<not> reactivates v sid op) \<longrightarrow> b_lifecycle b' \<noteq> LIFECYCLE_ACTIVE)"
proof (induction ops arbitrary: d b)
  case (Cons op ops)
  from row_exec [OF Cons.prems] obtain b1 where 1: "map_of (kbs (exec v op d)) sid = Some b1" "row_later v sid op b b1" by blast
  from Cons.IH [OF 1(1)] 1(2) show ?case by (fastforce simp: row_later_def)
qed simp

section \<open>What an operation does to a lease row\<close>

definition lease_later :: "lease_row \<Rightarrow> lease_row \<Rightarrow> bool" where
  "lease_later l l' \<longleftrightarrow> l_fence l < l_fence l' \<or>
     l_fence l' = l_fence l \<and> l_token l' = l_token l \<and> l_owner l' = l_owner l \<and> l_epoch l' = l_epoch l"

lemma lease_later_refl [simp]: "lease_later l l"
  by (simp add: lease_later_def)

lemma lease_later_trans: "lease_later l l' \<Longrightarrow> lease_later l' l'' \<Longrightarrow> lease_later l l''"
  by (auto simp: lease_later_def)

definition leases_later :: "ha_db \<Rightarrow> ha_db \<Rightarrow> bool" where
  "leases_later d d' \<longleftrightarrow> (\<forall>sid l. map_of (mleases d) sid = Some l \<longrightarrow>
     (\<exists>l'. map_of (mleases d') sid = Some l' \<and> lease_later l l'))"

lemma leases_later_frame: "mleases d' = mleases d \<Longrightarrow> leases_later d d'"
  by (simp add: leases_later_def)

lemma leases_later_tset:
  assumes "\<And>l. p l \<Longrightarrow> lease_later l (f l)"
  shows "leases_later d (d\<lparr>mleases := tset sid p f (mleases d)\<rparr>)"
  unfolding leases_later_def
proof (intro allI impI)
  fix s l assume "map_of (mleases d) s = Some l"
  from tset_row [OF this, of sid p f] assms
  show "\<exists>l'. map_of (mleases (d\<lparr>mleases := tset sid p f (mleases d)\<rparr>)) s = Some l' \<and> lease_later l l'" by fastforce
qed

lemma acquireE:
  assumes "acquire_mutation ow secs sid now tok d = Inr (L, d')"
  obtains b n where "map_of (kbs d) sid = Some b" "b_lifecycle b = LIFECYCLE_ACTIVE"
    "L = \<lparr>ml_storage = sid, ml_owner = ow, ml_token = tok, ml_fence = n, ml_epoch = b_epoch b, ml_expires_at = now + secs\<rparr>"
    "d' = d\<lparr>mleases := tput sid \<lparr>l_owner = ow, l_token = tok, l_expires_at = now + secs, l_fence = n, l_epoch = b_epoch b,
       l_updated_at = now\<rparr> (mleases d)\<rparr>"
    "\<And>l. map_of (mleases d) sid = Some l \<Longrightarrow> n = l_fence l + 1 \<and> l_expires_at l \<le> now"
proof -
  from assms obtain b where b: "map_of (kbs d) sid = Some b" "b_lifecycle b = LIFECYCLE_ACTIVE"
    by (auto simp: acquire_mutation_def split: option.splits if_splits)
  show thesis
  proof (cases "map_of (mleases d) sid")
    case None
    with assms b show thesis by (intro that [OF b, of 1]) (auto simp: acquire_mutation_def split: if_splits)
  next
    case (Some l)
    with assms b show thesis
      by (intro that [OF b, of "l_fence l + 1"]) (auto simp: acquire_mutation_def Let_def split: if_splits)
  qed
qed

lemma acquire_leases: "acquire_mutation ow secs sid now tok d = Inr (L, d') \<Longrightarrow> leases_later d d'"
  by (erule acquireE) (auto simp: leases_later_def lease_later_def)

lemma heartbeat_leases: "heartbeat_mutation secs lease now d = Inr (L, d') \<Longrightarrow> leases_later d d'"
  by (auto simp: heartbeat_mutation_def Let_def lease_later_def split: if_splits intro!: leases_later_tset)

lemma release_leases: "leases_later d (release_mutation lease now d)"
  by (auto simp: release_mutation_def lease_later_def intro!: leases_later_tset)

lemma begin_leases: "begin_delete auth tn sid now d = Inr (y, d') \<Longrightarrow> leases_later d d'"
  by (erule begin_deleteE) (auto simp: leases_later_def lease_later_def)

lemma finalize_leases: "finalize_delete dia c sid z now t i d = Inr (y, d') \<Longrightarrow> mleases d' = mleases d"
  by (erule finalizeE) simp_all

lemma clean_leases: "clean_delete ext sid z now d = Inr (y, d') \<Longrightarrow> mleases d' = mleases d"
  by (erule clean_deleteE) simp_all

lemma registry_leases:
  "registry_create dia c (activate_created_kb t) kb tn ow cr now d = Inr (x, d') \<Longrightarrow> mleases d' = mleases d"
  "registry_delete kb tn' now d = Inr (b, d') \<Longrightarrow> mleases d' = mleases d"
  "mleases (snd (registry_set sid st now d)) = mleases d" "mleases (snd (registry_bump sid now d)) = mleases d"
  "activate tn sid ep now d = Inr d' \<Longrightarrow> mleases d' = mleases d"
  subgoal by (erule createE) simp
  subgoal by (auto simp: registry_delete_def Let_def split: option.splits)
  subgoal by (simp add: registry_set_def Let_def)
  subgoal by (simp add: registry_bump_def Let_def split: option.splits)
  subgoal by (erule activateE) simp
  done

lemma import_leases: "mleases (exec v (Reg_Import lcs eps now rs) d) = mleases d"
  by (auto split: sum.splits dest: import_legacyE)

lemma kept_leases: "(\<And>x d'. r = Inr (x, d') \<Longrightarrow> leases_later d d') \<Longrightarrow> leases_later d (kept r d)"
  by (cases r) (auto simp: kept_def leases_later_frame)

lemma kept_db_leases: "(\<And>d'. r = Inr d' \<Longrightarrow> leases_later d d') \<Longrightarrow> leases_later d (kept_db r d)"
  by (cases r) (auto simp: kept_db_def leases_later_frame)

lemma exec_leases: "leases_later d (exec v op d)"
proof (cases "data_op op")
  case False
  then show ?thesis
    by (cases op)
      (simp_all del: exec.simps(2) add: leases_later_frame import_leases registry_leases(3,4) release_leases
        registry_leases(1,2) [THEN leases_later_frame, THEN kept_leases]
        registry_leases(5) [THEN leases_later_frame, THEN kept_db_leases]
        acquire_leases [THEN kept_leases] heartbeat_leases [THEN kept_leases] begin_leases [THEN kept_leases]
        finalize_leases [THEN leases_later_frame, THEN kept_leases] clean_leases [THEN leases_later_frame, THEN kept_leases]
        reader_kbs(1,3,4) [THEN conjunct2, THEN conjunct1, THEN leases_later_frame, THEN kept_leases]
        reader_kbs(2) [THEN conjunct2, THEN conjunct1, THEN leases_later_frame, THEN kept_db_leases])
qed (simp add: leases_later_frame)

lemma lease_run:
  "map_of (mleases d) sid = Some l \<Longrightarrow> \<exists>l'. map_of (mleases (ha_run v ops d)) sid = Some l' \<and> lease_later l l'"
proof (induction ops arbitrary: d l)
  case (Cons op ops)
  from exec_leases [of d v op] Cons.prems obtain l1 where 1: "map_of (mleases (exec v op d)) sid = Some l1" "lease_later l l1"
    by (auto simp: leases_later_def)
  from Cons.IH [OF 1(1)] lease_later_trans [OF 1(2)] show ?case by auto
qed simp

section \<open>Mutation leases\<close>

lemma live_lease_row:
  "assert_live_mutation L now d = Inr u \<Longrightarrow> \<exists>l b. map_of (mleases d) (ml_storage L) = Some l \<and> map_of (kbs d) (ml_storage L) = Some b \<and>
     l_fence l = ml_fence L \<and> l_token l = ml_token L \<and> now < l_expires_at l \<and> b_epoch b = ml_epoch L \<and> b_lifecycle b = LIFECYCLE_ACTIVE"
  by (auto simp: assert_live_mutation_def lease_matches_def split: option.splits)

text \<open>C4. Mutation leases exclude each other, for good.  When a second lease on a knowledge base is granted, however
  much has happened since the first, the first is not live at that moment; its fencing token is smaller; and from then on
  it never again passes \<open>assert_live\<close>, is never renewed, and authorises no source publication, at any clock reading.
  The new lease is live until it expires.\<close>

theorem lease_exclusion:
  assumes "acquire_mutation o1 s1 sid t1 tok1 d = Inr (L1, d1)"
    and "acquire_mutation o2 s2 sid t2 tok2 (ha_run v ops d1) = Inr (L2, d2)"
  shows "\<not> is_ok (assert_live_mutation L1 t2 (ha_run v ops d1)) \<and> ml_fence L1 < ml_fence L2 \<and>
    \<not> is_ok (assert_live_mutation L1 now (ha_run v ops' d2)) \<and>
    \<not> is_ok (heartbeat_mutation secs L1 now (ha_run v ops' d2)) \<and>
    (publish_source dia c bnd gid L1 now w i (ha_run v ops' d2) = Inr (g, d3) \<longrightarrow> d3 = ha_run v ops' d2) \<and>
    (t < t2 + s2 \<longrightarrow> assert_live_mutation L2 t d2 = Inr ())"
proof -
  from assms(1) obtain b n where L1: "ml_storage L1 = sid" "ml_fence L1 = n"
    "\<exists>l. map_of (mleases d1) sid = Some l \<and> l_fence l = n" by (elim acquireE) auto
  then obtain l where l: "map_of (mleases (ha_run v ops d1)) sid = Some l" "n \<le> l_fence l"
    using lease_run by (fastforce simp: lease_later_def)
  from assms(2) obtain b2 where b2: "map_of (kbs (ha_run v ops d1)) sid = Some b2" "b_lifecycle b2 = LIFECYCLE_ACTIVE"
    and exp: "l_expires_at l \<le> t2" and L2: "L2 = \<lparr>ml_storage = sid, ml_owner = o2, ml_token = tok2, ml_fence = l_fence l + 1,
        ml_epoch = b_epoch b2, ml_expires_at = t2 + s2\<rparr>"
    and d2: "d2 = (ha_run v ops d1)\<lparr>mleases := tput sid \<lparr>l_owner = o2, l_token = tok2, l_expires_at = t2 + s2,
        l_fence = l_fence l + 1, l_epoch = b_epoch b2, l_updated_at = t2\<rparr> (mleases (ha_run v ops d1))\<rparr>"
    using l(1) by (elim acquireE) auto
  have "\<exists>l. map_of (mleases d2) sid = Some l \<and> n < l_fence l" using l(2) by (simp add: d2)
  then obtain l' where l': "map_of (mleases (ha_run v ops' d2)) sid = Some l'" "n < l_fence l'"
    using lease_run by (fastforce simp: lease_later_def)
  have "\<not> is_ok (assert_live_mutation L1 t2 (ha_run v ops d1))"
    using live_lease_row [of L1 t2] l L1 exp by (cases "assert_live_mutation L1 t2 (ha_run v ops d1)") fastforce+
  moreover have "\<not> is_ok (assert_live_mutation L1 now (ha_run v ops' d2))"
    using live_lease_row [of L1 now] l' L1 by (cases "assert_live_mutation L1 now (ha_run v ops' d2)") fastforce+
  moreover have "\<not> is_ok (heartbeat_mutation secs L1 now (ha_run v ops' d2))"
    using l' L1 by (simp add: heartbeat_mutation_def thit_Some Let_def)
  moreover have "d3 = ha_run v ops' d2" if "publish_source dia c bnd gid L1 now w i (ha_run v ops' d2) = Inr (g, d3)"
    using that by (rule publish_sourceE) (use l' L1 in \<open>simp_all add: source_authority_def\<close>)
  moreover have "assert_live_mutation L2 t d2 = Inr ()" if "t < t2 + s2"
    using that b2 by (simp add: assert_live_mutation_def lease_matches_def L2 d2)
  ultimately show ?thesis using l L1 L2 by auto
qed

end
