(* ===== verification/HA_Index_Props.thy ===== *)
theory HA_Index_Props
  imports HA_Control
begin

text \<open>
  What the index store promises, on every reachable state of the control plane and across any later operations: the
  head of a knowledge base is a published generation of its own, the fencing token orders publications, a live reader
  keeps its generation, and the knowledge base's head stands still while it is being deleted.
\<close>

section \<open>The invariant\<close>

definition head_ok :: "(string, index_gen) table \<Rightarrow> string \<times> string \<Rightarrow> index_head \<Rightarrow> bool" where
  "head_ok gs k h \<longleftrightarrow> 0 \<le> ih_fence h \<and>
     (\<forall>gid. ih_current h = Some gid \<longrightarrow>
        (\<exists>g. map_of gs gid = Some g \<and> (g_tenant g, g_kb g) = k \<and> g_status g = GEN_PUBLISHED \<and> g_fence g \<le> ih_fence h))"

fun index_inv :: "index_tables \<Rightarrow> bool" where
  "index_inv (gs, hs) \<longleftrightarrow> distinct (map fst gs) \<and> distinct (map fst hs) \<and>
     (\<forall>k h. map_of hs k = Some h \<longrightarrow> head_ok gs k h) \<and> (\<forall>gid g. map_of gs gid = Some g \<longrightarrow> 1 \<le> g_fence g)"

lemma index_invD: "index_inv u \<Longrightarrow> map_of (snd u) k = Some h \<Longrightarrow> head_ok (fst u) k h"
  by (cases u) (simp only: index_inv.simps fst_conv snd_conv)

lemma keys_tput: "distinct (map fst t) \<Longrightarrow> distinct (map fst (tput k r t))"
  by (simp add: map_fst_tput)

lemma keys_tdel: "distinct (map fst t) \<Longrightarrow> distinct (map fst (tdel k t))"
  by (simp add: tdel_def distinct_map_filter)

lemma head_ok_later:
  assumes "head_ok gs k h" and "ih_current h' = ih_current h" and "ih_fence h \<le> ih_fence h'"
    and "\<And>gid g. ih_current h = Some gid \<Longrightarrow> map_of gs gid = Some g \<Longrightarrow> g_status g = GEN_PUBLISHED \<Longrightarrow>
      \<exists>g'. map_of gs' gid = Some g' \<and> g_tenant g' = g_tenant g \<and> g_kb g' = g_kb g \<and> g_status g' = GEN_PUBLISHED \<and>
        g_fence g' = g_fence g"
  shows "head_ok gs' k h'"
  unfolding head_ok_def
proof (intro conjI allI impI)
  show "0 \<le> ih_fence h'" using assms(1,3) by (simp add: head_ok_def)
next
  fix gid assume "ih_current h' = Some gid"
  with assms(1,2) obtain g where g: "ih_current h = Some gid" "map_of gs gid = Some g" "(g_tenant g, g_kb g) = k"
    "g_status g = GEN_PUBLISHED" "g_fence g \<le> ih_fence h" unfolding head_ok_def by metis
  from assms(4) [OF g(1,2,4)] g assms(3)
  show "\<exists>g. map_of gs' gid = Some g \<and> (g_tenant g, g_kb g) = k \<and> g_status g = GEN_PUBLISHED \<and> g_fence g \<le> ih_fence h'"
    by fastforce
qed

text \<open>A step keeps the heads it does not move, and every published generation but the one it forgets.\<close>

lemma published_kept:
  assumes "index_step l u w" and "map_of (fst u) gid = Some g" and "g_status g = GEN_PUBLISHED" and "l \<noteq> IForget gid"
  shows "\<exists>g'. map_of (fst w) gid = Some g' \<and> g_tenant g' = g_tenant g \<and> g_kb g' = g_kb g \<and> g_status g' = GEN_PUBLISHED \<and>
    g_fence g' = g_fence g \<and> g_manifest g' = g_manifest g \<and> g_manifest_sha g' = g_manifest_sha g"
  using assms by (cases rule: index_step.cases) (auto simp: gen_step_def open_status_def split: option.splits)

lemma gen_fences_step:
  assumes "index_step l u w" and "index_inv u" and "map_of (fst w) gid = Some g"
  shows "1 \<le> g_fence g"
  using assms(1)
proof (cases rule: index_step.cases)
  case (build gs gid' k g' hs h h')
  from assms(2) build have "1 \<le> g_fence g'" by (auto simp: head_ok_def)
  with build assms(2,3) show ?thesis by (auto split: option.splits if_splits)
qed (use assms(2,3) in \<open>auto simp: gen_step_def split: if_splits\<close>)

lemma heads_step:
  assumes s: "index_step l u w" and inv: "index_inv u" and k: "map_of (snd w) k = Some h"
  shows "head_ok (fst w) k h"
proof -
  have keep: "head_ok (fst w) k h" if "map_of (snd u) k = Some h0" "ih_current h = ih_current h0" "ih_fence h0 \<le> ih_fence h"
      "\<And>gid. ih_current h0 = Some gid \<Longrightarrow> l \<noteq> IForget gid" for h0
  proof (rule head_ok_later [OF _ that(2,3)])
    show "head_ok (fst u) k h0" using index_invD [OF inv that(1)] .
  qed (use published_kept [OF s] that(4) in blast)
  show ?thesis using s
  proof (cases rule: index_step.cases)
    case (head hs k' h' gs)
    with k keep [of h] show ?thesis by (cases "map_of hs k") (auto simp: head_ok_def split: if_splits)
  next
    case (build gs gid k' g hs h0 h')
    with k keep [of h0] keep [of h] show ?thesis by (auto split: if_splits)
  next
    case (publish gs gid g k' hs h0 h' g' now)
    show ?thesis
    proof (cases "k = k'")
      case True
      from index_invD [OF inv, of k' h0] publish have "0 \<le> ih_fence h0" by (simp add: head_ok_def)
      with True k publish show ?thesis by (auto simp: head_ok_def)
    qed (use publish k keep [of h] in auto)
  next
    case (forget hs gid gs)
    with k keep [of h] show ?thesis by (cases k) auto
  qed (use k keep [of h] in \<open>auto split: if_splits\<close>)
qed

lemma index_inv_step:
  assumes "index_step l u w" and "index_inv u"
  shows "index_inv w"
proof -
  have "distinct (map fst (fst w)) \<and> distinct (map fst (snd w))"
    using assms by (cases rule: index_step.cases) (auto simp: keys_tput keys_tdel keys_insert simp del: map_append)
  with heads_step [OF assms] gen_fences_step [OF assms] show ?thesis by (cases w) simp
qed

lemma index_inv_exec: "index_inv (index_view d) \<Longrightarrow> index_inv (index_view (exec v op d))"
  using exec_index by (rule index_steps_inv) (auto intro: index_inv_step)

lemma index_inv_reachable: "ha_reachable v d \<Longrightarrow> index_inv (index_view d)"
proof (induction rule: ha_reachable.induct)
  case start
  then show ?case by (simp add: empty_ha_def index_view_def)
qed (rule index_inv_exec)

section \<open>The head is always readable\<close>

lemma reachable_head_ok: "ha_reachable v d \<Longrightarrow> map_of (iheads d) k = Some h \<Longrightarrow> head_ok (igens d) k h"
  using index_invD [OF index_inv_reachable, of v d k h] by (simp add: index_view_def)

text \<open>C2. On every reachable state of the control plane the index head of a knowledge base either is empty or names a
  generation that is stored, belongs to that tenant and knowledge base, is published, and carries a fencing token no
  later than the head's.  So a reader that asks for a lease is never told that the index is damaged
  (\<open>IndexIntegrityError\<close>), and \<open>current\<close> returns exactly the generation the head names.\<close>

theorem index_head_sound:
  assumes "ha_reachable v d"
  shows "acquire_reader t kb owner secs now rid tok d \<noteq> Inl IndexIntegrityError
    \<and> (map_of (iheads d) (t, kb) = Some h \<longrightarrow> head_ok (igens d) (t, kb) h)
    \<and> (is_clean t 255 \<longrightarrow> is_clean kb 255 \<longrightarrow>
        index_current t kb d = Inr (Option.bind (head_gen t kb d) (\<lambda>gid. get_igen gid d)))"
proof -
  have ok: "\<exists>g. map_of (igens d) gid = Some g \<and> g_tenant g = t \<and> g_kb g = kb \<and> g_status g = GEN_PUBLISHED"
    if "head_gen t kb d = Some gid" for gid
    using that reachable_head_ok [OF assms, of "(t, kb)"] by (auto simp: head_gen_def head_ok_def split: option.splits)
  have "acquire_reader t kb owner secs now rid tok d \<noteq> Inl IndexIntegrityError"
    using ok unfolding acquire_reader_def head_gen_def [symmetric]
    by (cases "head_gen t kb d") (auto simp: bindR_Inl clean_def index_lease_def tinsert_def split: if_splits)
  moreover have "index_current t kb d = Inr (Option.bind (head_gen t kb d) (\<lambda>gid. get_igen gid d))"
    if "is_clean t 255" "is_clean kb 255"
    using that ok unfolding index_current_def by (auto simp: clean_def head_gen_def get_igen_def split: option.splits)
  ultimately show ?thesis using reachable_head_ok [OF assms] by blast
qed

section \<open>Fencing\<close>

definition drops_head :: "string \<times> string \<Rightarrow> ha_op \<Rightarrow> bool" where
  "drops_head k op = (case op of Finalize_Delete sid x _ _ \<Rightarrow> k = (x_tenant x, sid) | _ \<Rightarrow> False)"

text \<open>Where the head of a knowledge base has got to since its fencing token was \<open>f\<close> and its generation \<open>cur\<close>.\<close>

definition head_since :: "int \<Rightarrow> string option \<Rightarrow> string \<times> string \<Rightarrow> index_tables \<Rightarrow> bool" where
  "head_since f cur k u \<longleftrightarrow> (\<exists>h. map_of (snd u) k = Some h \<and> f \<le> ih_fence h \<and>
     (ih_current h = cur \<or> (\<exists>gid g. ih_current h = Some gid \<and> map_of (fst u) gid = Some g \<and> f \<le> g_fence g)))"

lemma head_since_step:
  assumes s: "index_step l u w" and inv: "index_inv u" and hs: "head_since f cur k u" and l: "l \<noteq> IDrop k"
  shows "head_since f cur k w"
proof -
  from hs obtain h where h: "map_of (snd u) k = Some h" "f \<le> ih_fence h"
    and c: "ih_current h = cur \<or> (\<exists>gid g. ih_current h = Some gid \<and> map_of (fst u) gid = Some g \<and> f \<le> g_fence g)"
    by (auto simp: head_since_def)
  have keep: "head_since f cur k w" if "map_of (snd w) k = Some h'" "ih_current h' = ih_current h" "ih_fence h \<le> ih_fence h'"
      "\<And>gid. ih_current h = Some gid \<Longrightarrow> l \<noteq> IForget gid" for h'
  proof -
    have "\<exists>g'. map_of (fst w) gid = Some g' \<and> g_fence g' = g_fence g"
      if "ih_current h = Some gid" "map_of (fst u) gid = Some g" for gid g
    proof -
      from index_invD [OF inv h(1)] that have "g_status g = GEN_PUBLISHED" by (auto simp: head_ok_def)
      with published_kept [OF s that(2)] that show ?thesis using \<open>\<And>gid. ih_current h = Some gid \<Longrightarrow> l \<noteq> IForget gid\<close> by blast
    qed
    with c that h(2) show ?thesis unfolding head_since_def by fastforce
  qed
  show ?thesis using s
  proof (cases rule: index_step.cases)
    case (build gs gid k' g hs h0 h')
    with h keep [of h'] keep [of h] show ?thesis by (cases "k = k'") auto
  next
    case (publish gs gid g k' hs h0 h' g' now)
    with h keep [of h] show ?thesis by (cases "k = k'") (auto simp: head_since_def)
  next
    case (head hs k' h' gs)
    with h keep [of h] show ?thesis by auto
  next
    case (forget hs gid gs)
    with h keep [of h] show ?thesis by (cases k) auto
  qed (use h l keep [of h] in auto)
qed

lemma head_since_exec:
  assumes "index_inv (index_view d)" and "head_since f cur k (index_view d)" and "\<not> drops_head k op"
  shows "head_since f cur k (index_view (exec v op d))"
proof -
  have "index_inv (index_view (exec v op d)) \<and> head_since f cur k (index_view (exec v op d))"
  proof (rule index_steps_inv [OF exec_index, where I = "\<lambda>u. index_inv u \<and> head_since f cur k u"])
    fix l a b assume "index_may op d l" "index_inv a \<and> head_since f cur k a" "index_step l a b"
    moreover from this(1) assms(3) have "l \<noteq> IDrop k" by (auto simp: index_may_def drops_head_def split: ha_op.splits)
    ultimately show "index_inv b \<and> head_since f cur k b" by (auto intro: index_inv_step head_since_step)
  qed (use assms in simp)
  then show ?thesis by simp
qed

lemma head_since_run:
  "index_inv (index_view d) \<Longrightarrow> head_since f cur k (index_view d) \<Longrightarrow> \<forall>op \<in> set ops. \<not> drops_head k op \<Longrightarrow>
   head_since f cur k (index_view (ha_run v ops d))"
  by (induction ops arbitrary: d) (auto intro: head_since_exec index_inv_exec)

text \<open>C1. The fencing token orders publications.  Take any reachable state and any later operations that do not
  finalise a deletion of the knowledge base: its fencing token has not decreased, and its head is the generation it was,
  or one whose build was started under the token the head had then or a later one.  A build that has been superseded
  (its token is smaller) can therefore never become current, whoever resumes, prepares or publishes it.\<close>

theorem superseded_never_current:
  assumes "ha_reachable v d" and "map_of (iheads d) k = Some h" and "\<forall>op \<in> set ops. \<not> drops_head k op"
  shows "\<exists>h'. map_of (iheads (ha_run v ops d)) k = Some h' \<and> ih_fence h \<le> ih_fence h' \<and>
    (ih_current h' = ih_current h \<or>
     (\<exists>gid g. ih_current h' = Some gid \<and> map_of (igens (ha_run v ops d)) gid = Some g \<and>
        g_status g = GEN_PUBLISHED \<and> ih_fence h \<le> g_fence g))"
proof -
  have "head_since (ih_fence h) (ih_current h) k (index_view d)"
    using assms(2) by (simp add: head_since_def index_view_def)
  from head_since_run [OF index_inv_reachable [OF assms(1)] this assms(3), of v]
  obtain h' where h': "map_of (iheads (ha_run v ops d)) k = Some h'" "ih_fence h \<le> ih_fence h'"
    "ih_current h' = ih_current h \<or> (\<exists>gid g. ih_current h' = Some gid \<and>
       map_of (igens (ha_run v ops d)) gid = Some g \<and> ih_fence h \<le> g_fence g)"
    unfolding head_since_def index_view_def fst_conv snd_conv by blast
  from reachable_head_ok [OF reachable_run [OF assms(1)] h'(1)] h'(3)
  have "ih_current h' = ih_current h \<or> (\<exists>gid g. ih_current h' = Some gid \<and>
       map_of (igens (ha_run v ops d)) gid = Some g \<and> g_status g = GEN_PUBLISHED \<and> ih_fence h \<le> g_fence g)"
    by (auto simp: head_ok_def)
  with h' show ?thesis by blast
qed

section \<open>Readers\<close>

text \<open>The operations that leave a live reader lease alone until \<open>e\<close>: the collector runs before the lease expires, only
  leases expired by then are pruned, the reader is not released, and a renewal does not shorten the lease.\<close>

fun keeps_reader :: "string \<Rightarrow> real \<Rightarrow> ha_op \<Rightarrow> bool" where
  "keeps_reader rid e (Forget_Index gid before now) = (now < e)"
| "keeps_reader rid e (Prune_Readers before limit) = (fin_val before < e)"
| "keeps_reader rid e (Release_Reader r tok) = (r \<noteq> rid)"
| "keeps_reader rid e (Beat_Reader r tok secs now) = (r = rid \<longrightarrow> e \<le> now + fin_val secs)"
| "keeps_reader rid e _ = True"

definition reads :: "string \<Rightarrow> string \<Rightarrow> real \<Rightarrow> ha_db \<Rightarrow> bool" where
  "reads rid gid e d \<longleftrightarrow> (\<exists>r. map_of (readers d) rid = Some r \<and> rl_gen r = gid \<and> e \<le> rl_expires_at r)"

lemma fold_tdel: "map_of (fold (\<lambda>(i, _) t. tdel i t) rows t) k = (if k \<in> fst ` set rows then None else map_of t k)"
  by (induction rows arbitrary: t) (auto split: prod.splits)

lemma prune_reads:
  assumes "prune_reader_leases before limit d = Inr (n, d')" and "distinct (map fst (readers d))" and "fin_val before < e"
    and "reads rid gid e d"
  shows "reads rid gid e d'"
proof -
  from prune_readersE [OF assms(1)] obtain rows where d': "d' = d\<lparr>readers := fold (\<lambda>(i, _) t. tdel i t) rows (readers d)\<rparr>"
    and rows: "\<forall>(i, r) \<in> set rows. (i, r) \<in> set (readers d) \<and> rl_expires_at r \<le> fin_val before" by blast
  from assms(4) obtain r where r: "map_of (readers d) rid = Some r" "rl_gen r = gid" "e \<le> rl_expires_at r"
    by (auto simp: reads_def)
  have "rid \<notin> fst ` set rows"
  proof
    assume "rid \<in> fst ` set rows"
    then obtain r' where "(rid, r') \<in> set (readers d)" "rl_expires_at r' \<le> fin_val before" using rows by force
    with r assms(2,3) show False by (auto dest: map_of_is_SomeI)
  qed
  with r show ?thesis by (simp add: d' reads_def fold_tdel)
qed

text \<open>Only the reader operations write the reader leases.\<close>

lemma kept_readers: "(\<And>x d'. r = Inr (x, d') \<Longrightarrow> readers d' = readers d) \<Longrightarrow> readers (kept r d) = readers d"
  by (cases r) (auto simp: kept_def)

lemma kept_db_readers: "(\<And>d'. r = Inr d' \<Longrightarrow> readers d' = readers d) \<Longrightarrow> readers (kept_db r d) = readers d"
  by (cases r) (auto simp: kept_db_def)

lemma authority_readers:
  "registry_create dia c (activate_created_kb t) kb tn ow cr now d = Inr (x, d') \<Longrightarrow> readers d' = readers d"
  "registry_delete kb tn' now d = Inr (b, d') \<Longrightarrow> readers d' = readers d"
  "acquire_mutation ow secs sid now tok d = Inr (l, d') \<Longrightarrow> readers d' = readers d"
  "heartbeat_mutation secs lease now d = Inr (l, d') \<Longrightarrow> readers d' = readers d"
  "begin_delete auth tn sid now d = Inr (y, d') \<Longrightarrow> readers d' = readers d"
  "clean_delete ext sid z now d = Inr (y, d') \<Longrightarrow> readers d' = readers d"
  "finalize_delete dia c sid z now t i d = Inr (y, d') \<Longrightarrow> readers d' = readers d"
  subgoal by (erule createE) simp
  subgoal by (auto simp: registry_delete_def Let_def split: option.splits)
  subgoal by (auto simp: acquire_mutation_def Let_def split: option.splits if_splits)
  subgoal by (auto simp: heartbeat_mutation_def Let_def split: if_splits)
  subgoal by (erule begin_deleteE) simp_all
  subgoal by (erule clean_deleteE) simp_all
  subgoal by (erule finalizeE) simp_all
  done

lemma single_readers:
  "readers (snd (registry_set sid st now d)) = readers d" "readers (snd (registry_bump sid now d)) = readers d"
  "readers (release_mutation lease now d) = readers d"
  by (simp_all add: registry_set_def registry_bump_def release_mutation_def Let_def split: option.splits)

lemma activate_readers: "activate tn sid ep now d = Inr d' \<Longrightarrow> readers d' = readers d"
  by (erule activateE) simp

fun reader_op :: "ha_op \<Rightarrow> bool" where
  "reader_op (Acquire_Reader _ _ _ _ _ _ _) = True"
| "reader_op (Beat_Reader _ _ _ _) = True"
| "reader_op (Release_Reader _ _) = True"
| "reader_op (Prune_Readers _ _) = True"
| "reader_op _ = False"

lemma import_readers: "readers (exec v (Reg_Import lcs eps now rs) d) = readers d"
  by (auto split: sum.splits dest: import_legacyE)

lemma exec_readers: "\<not> reader_op op \<Longrightarrow> readers (exec v op d) = readers d"
proof (cases "data_op op")
  case False
  assume "\<not> reader_op op"
  with False show ?thesis
    by (cases op) (simp_all del: exec.simps(2) add: import_readers authority_readers [THEN kept_readers] single_readers
      activate_readers [THEN kept_db_readers])
qed simp

lemma readers_distinct_exec: "distinct (map fst (readers d)) \<Longrightarrow> distinct (map fst (readers (exec v op d)))"
proof (cases "reader_op op")
  case True
  assume dist: "distinct (map fst (readers d))"
  have del: "distinct (map fst t) \<Longrightarrow> distinct (map fst (fold (\<lambda>(i, _) t. tdel i t) rows t))" for rows :: "(string \<times> reader_lease) list" and t :: "(string, reader_lease) table"
    by (induction rows arbitrary: t) (auto simp: keys_tdel)
  from True show ?thesis
  proof (cases op)
    case (Acquire_Reader tn kb ow secs now rid tok)
    show ?thesis unfolding Acquire_Reader exec.simps
      by (rule kept_rel [where P = "\<lambda>_ d'. distinct (map fst (readers d'))"])
        (auto elim!: acquire_readerE simp: dist keys_insert simp del: map_append)
  next
    case (Prune_Readers before limit)
    show ?thesis unfolding Prune_Readers exec.simps
      by (rule kept_rel [where P = "\<lambda>_ d'. distinct (map fst (readers d'))"])
        (auto dest!: prune_readersE simp: dist del)
  next
    case (Release_Reader rid tok)
    show ?thesis unfolding Release_Reader exec.simps
      by (rule kept_rel [where P = "\<lambda>_ d'. distinct (map fst (readers d'))"])
        (auto dest!: release_readerE simp: dist keys_tdelete)
  next
    case (Beat_Reader rid tok secs now)
    show ?thesis unfolding Beat_Reader exec.simps
      by (rule kept_db_rel [where P = "\<lambda>_ d'. distinct (map fst (readers d'))"])
        (auto dest!: beat_readerE simp: dist)
  qed auto
qed (simp add: exec_readers)

lemma renewed_reads:
  assumes "reads rid gid e d" and "r = rid \<longrightarrow> e \<le> t"
  shows "reads rid gid e (d\<lparr>readers := tset r p (\<lambda>x. x\<lparr>rl_expires_at := t, rl_updated_at := n\<rparr>) (readers d)\<rparr>)"
proof -
  from assms(1) obtain x where "map_of (readers d) rid = Some x" "rl_gen x = gid" "e \<le> rl_expires_at x"
    by (auto simp: reads_def)
  with assms(2) show ?thesis by (cases "r = rid"; cases "p x") (auto simp: reads_def)
qed

lemma reads_exec:
  assumes "distinct (map fst (readers d))" and "reads rid gid e d" and "keeps_reader rid e op"
  shows "reads rid gid e (exec v op d)"
proof (cases "reader_op op")
  case False
  with assms(2) show ?thesis by (simp add: reads_def exec_readers)
next
  case True
  then show ?thesis
  proof (cases op)
    case (Acquire_Reader tn kb ow secs now r tok)
    show ?thesis unfolding Acquire_Reader exec.simps
      by (rule kept_rel [where P = "\<lambda>_ d'. reads rid gid e d'"])
        (use assms(2) in \<open>auto elim!: acquire_readerE simp: reads_def\<close>)
  next
    case (Prune_Readers before limit)
    show ?thesis unfolding Prune_Readers exec.simps
      by (rule kept_rel [where P = "\<lambda>_ d'. reads rid gid e d'"])
        (use assms Prune_Readers in \<open>auto elim: prune_reads\<close>)
  next
    case (Release_Reader r tok)
    show ?thesis unfolding Release_Reader exec.simps
      by (rule kept_rel [where P = "\<lambda>_ d'. reads rid gid e d'"])
        (use assms Release_Reader in \<open>auto dest!: release_readerE simp: reads_def\<close>)
  next
    case (Beat_Reader r tok secs now)
    show ?thesis unfolding Beat_Reader exec.simps
      by (rule kept_db_rel [where P = "\<lambda>_ d'. reads rid gid e d'"])
        (use assms(2,3) Beat_Reader in \<open>auto dest!: beat_readerE intro: renewed_reads\<close>)
  qed auto
qed

text \<open>The content of a published generation.\<close>

definition frozen :: "string \<Rightarrow> index_gen \<Rightarrow> index_tables \<Rightarrow> bool" where
  "frozen gid g u \<longleftrightarrow> (\<exists>g'. map_of (fst u) gid = Some g' \<and> g_tenant g' = g_tenant g \<and> g_kb g' = g_kb g \<and>
     g_status g' = GEN_PUBLISHED \<and> g_fence g' = g_fence g \<and> g_manifest g' = g_manifest g \<and> g_manifest_sha g' = g_manifest_sha g)"

lemma frozen_step: "index_step l u w \<Longrightarrow> frozen gid g u \<Longrightarrow> l \<noteq> IForget gid \<Longrightarrow> frozen gid g w"
  unfolding frozen_def using published_kept by metis

lemma reads_live: "reads rid gid e d \<Longrightarrow> now < e \<Longrightarrow> has_live_reader gid now d"
  by (force simp: reads_def has_live_reader_def list_ex_iff dest: map_of_SomeD)

lemma may_forget: "index_may op d (IForget gid) \<Longrightarrow> \<exists>before now. op = Forget_Index gid before now \<and> \<not> has_live_reader gid now d"
  by (cases op) (auto simp: index_may_def)

lemma frozen_exec:
  assumes "reads rid gid e d" and "keeps_reader rid e op" and "frozen gid g (index_view d)"
  shows "frozen gid g (index_view (exec v op d))"
proof (rule index_steps_inv [OF exec_index])
  fix l a b assume l: "index_may op d l" and "frozen gid g a" "index_step l a b"
  moreover have "l \<noteq> IForget gid"
    using l assms(1,2) reads_live by (auto dest!: may_forget)
  ultimately show "frozen gid g b" by (blast intro: frozen_step)
qed (rule assms(3))

lemma reader_run:
  "distinct (map fst (readers d)) \<Longrightarrow> reads rid gid e d \<Longrightarrow> frozen gid g (index_view d) \<Longrightarrow>
   \<forall>op \<in> set ops. keeps_reader rid e op \<Longrightarrow>
   reads rid gid e (ha_run v ops d) \<and> frozen gid g (index_view (ha_run v ops d))"
  by (induction ops arbitrary: d) (auto simp: readers_distinct_exec reads_exec frozen_exec)

lemma readers_distinct: "ha_reachable v d \<Longrightarrow> distinct (map fst (readers d))"
proof (induction rule: ha_reachable.induct)
  case start
  then show ?case by (simp add: empty_ha_def)
qed (rule readers_distinct_exec)

text \<open>C3. A reader's snapshot is stable.  When \<open>acquire_reader\<close> freezes a generation, then until the lease expires
  (and unless the lease is given up, shortened or pruned past its end) no interleaving of operations, be it new
  publications, an abort, a deletion of the knowledge base or the garbage collector, removes the generation or changes
  its owner, its status or its manifest, and the lease row is still there.\<close>

theorem reader_snapshot_stable:
  assumes "ha_reachable v d"
    and "acquire_reader t kb owner secs now rid tok d = Inr (Some ((gid, g), rid', tok', e), d')"
    and "\<forall>op \<in> set ops. keeps_reader rid e op"
  shows "frozen gid g (index_view (ha_run v ops d')) \<and> reads rid gid e (ha_run v ops d')"
proof -
  from assms(2) have g: "map_of (igens d) gid = Some g" "g_status g = GEN_PUBLISHED" and "map_of (readers d) rid = None"
    and d': "d' = d\<lparr>readers := readers d @ [(rid, \<lparr>rl_gen = gid, rl_owner = owner, rl_token = tok, rl_expires_at = e,
        rl_created_at = now, rl_updated_at = now\<rparr>)]\<rparr>"
    by (auto elim: acquire_readerE)
  then have "reads rid gid e d'" "frozen gid g (index_view d')"
    by (simp_all add: reads_def frozen_def index_view_def)
  moreover have "d' = exec v (Acquire_Reader t kb owner secs now rid tok) d"
    using assms(2) by (simp add: kept_def)
  with assms(1) have "ha_reachable v d'" by (simp only: ha_reachable.step)
  ultimately show ?thesis using reader_run [OF readers_distinct] assms(3) by blast
qed

end
