(* ===== verification/HA_Source_Props.thy ===== *)
theory HA_Source_Props
  imports HA_Control
begin

text \<open>
  What the source generation store promises: the protocol its transactions refine, the agreement of heads and active
  generations on every reachable state, and that of two generations staged on the same base at most one is ever published.
\<close>

declare map_of_append [simp del]

section \<open>The protocol\<close>

type_synonym source_tables = "(string, source_gen) table \<times> (string, source_head) table"

datatype source_label = SStage string | SPublish string | SForget string | SDrop string

definition source_view :: "ha_db \<Rightarrow> source_tables" where
  "source_view d = (sgens d, sheads d)"

definition head_id :: "source_tables \<Rightarrow> string \<Rightarrow> string option" where
  "head_id u sid = map_option sh_gen (map_of (snd u) sid)"

inductive source_step :: "source_label \<Rightarrow> source_tables \<Rightarrow> source_tables \<Rightarrow> bool" where
  stage: "map_of gs gid = None \<Longrightarrow> s_status g = SOURCE_PREPARED \<Longrightarrow> source_step (SStage gid) (gs, hs) (gs @ [(gid, g)], hs)"
| publish: "map_of gs gid = Some g \<Longrightarrow> s_status g = SOURCE_PREPARED \<Longrightarrow> s_storage g = sid \<Longrightarrow> s_base g = head_id (gs, hs) sid \<Longrightarrow>
    sh_gen h = gid \<Longrightarrow> g' = g\<lparr>s_status := SOURCE_ACTIVE, s_published_at := Some now\<rparr> \<Longrightarrow>
    source_step (SPublish sid) (gs, hs) (tput gid g' (superseded (head_id (gs, hs) sid) gs), tput sid h hs)"
| forget: "\<forall>sid. head_id (gs, hs) sid \<noteq> Some gid \<Longrightarrow> map_of gs gid = Some g \<Longrightarrow> s_status g \<noteq> SOURCE_ACTIVE \<Longrightarrow>
    source_step (SForget gid) (gs, hs) (tdel gid gs, hs)"
| drop: "source_step (SDrop sid) (gs, hs) (superseded (head_id (gs, hs) sid) gs, tdel sid hs)"

text \<open>Which step of the protocol an operation may take.\<close>

definition source_may :: "ha_op \<Rightarrow> ha_db \<Rightarrow> source_label \<Rightarrow> bool" where
  "source_may op d l = (case l of
     SStage gid \<Rightarrow> (case op of Stage i _ _ _ _ _ _ _ _ \<Rightarrow> i = gid | _ \<Rightarrow> False)
   | SPublish sid \<Rightarrow> (\<exists>b. map_of (kbs d) sid = Some b \<and> b_lifecycle b = LIFECYCLE_ACTIVE)
   | SForget gid \<Rightarrow> (case op of Forget_Source i _ \<Rightarrow> i = gid | _ \<Rightarrow> False)
   | SDrop sid \<Rightarrow> (case op of Finalize_Delete s _ _ _ \<Rightarrow> s = sid | _ \<Rightarrow> False))"

definition source_refines :: "ha_op \<Rightarrow> ha_db \<Rightarrow> ha_db \<Rightarrow> ha_db \<Rightarrow> bool" where
  "source_refines op d0 d d' \<longleftrightarrow> source_view d' = source_view d \<or>
     (\<exists>l. source_may op d0 l \<and> source_step l (source_view d) (source_view d'))"

lemma source_refines_frame: "source_view d' = source_view d \<Longrightarrow> source_refines op d0 d d'"
  by (simp add: source_refines_def)

lemma source_views [simp]:
  "source_view (d\<lparr>kbs := a\<rparr>) = source_view d" "source_view (d\<lparr>mleases := b\<rparr>) = source_view d"
  "source_view (d\<lparr>igens := c\<rparr>) = source_view d" "source_view (d\<lparr>iheads := e\<rparr>) = source_view d"
  "source_view (d\<lparr>readers := f\<rparr>) = source_view d" "source_view (d\<lparr>dels := g\<rparr>) = source_view d"
  "source_view (d\<lparr>scopes := h\<rparr>) = source_view d" "source_view (d\<lparr>outbox := i\<rparr>) = source_view d"
  by (simp_all add: source_view_def)

lemma source_head_id: "source_head_of sid d = head_id (source_view d) sid"
  by (simp add: source_head_of_def head_id_def source_view_def)

lemma publish_source_refines:
  assumes "publish_source dia c b gid lease now t i d = Inr (x, d')" and "kbs d0 = kbs d"
  shows "source_refines op d0 d d'"
  using assms(1)
proof (rule publish_sourceE)
  fix g d2 ob
  assume g: "map_of (sgens d) gid = Some g" "s_status g = SOURCE_PREPARED"
    and auth: "source_authority g lease (source_head_of (ml_storage lease) d) (map_of (kbs d) (ml_storage lease))
       (map_of (mleases d) (ml_storage lease)) now"
    and db: "publish_source_db gid (ml_storage lease) g now d d2" "d' = d2\<lparr>outbox := ob\<rparr>"
  from db obtain h where h: "sh_gen h = gid" "source_view d' = (tput gid (g\<lparr>s_status := SOURCE_ACTIVE, s_published_at := Some now\<rparr>)
      (superseded (source_head_of (ml_storage lease) d) (sgens d)), tput (ml_storage lease) h (sheads d))"
    by (auto simp: publish_source_db_def source_view_def)
  from auth have a: "s_storage g = ml_storage lease" "s_base g = source_head_of (ml_storage lease) d"
    and k: "\<exists>b. map_of (kbs d) (ml_storage lease) = Some b \<and> b_lifecycle b = LIFECYCLE_ACTIVE"
    by (auto simp: source_authority_def split: option.splits)
  have "source_step (SPublish (ml_storage lease)) (source_view d) (source_view d')"
    using g a h(1) unfolding h(2) source_head_id unfolding source_view_def by (intro source_step.publish) auto
  with k assms(2) show ?thesis unfolding source_refines_def source_may_def by (intro disjI2 exI conjI) auto
qed (simp add: source_refines_frame)

lemma publish_hook_refines:
  assumes "publish_hook v src w g0 r d = Inr d'" and "kbs d0 = kbs d"
  shows "source_refines op d0 d d'"
proof (cases src)
  case None
  with assms(1) show ?thesis by (auto simp: publish_hook_def source_refines_frame dest!: index_event_frame)
next
  case (Some s)
  obtain gid lease t sw where s: "s = (gid, lease, t, sw)" by (cases s)
  from assms(1) Some s obtain y d1 where p: "publish_source (he_dialect v) (he_codec v) (he_bound v) gid lease t (fst sw) (snd sw) d = Inr (y, d1)"
    and e: "index_event v w g0 r d1 = Inr d'" by (auto simp: publish_hook_def)
  from index_event_frame [OF e] have "source_view d' = source_view d1" by auto
  with publish_source_refines [OF p assms(2), of op] show ?thesis by (simp add: source_refines_def)
qed

lemma publish_generation_refines:
  assumes "publish_generation v src w r now0 d0 now d = Inr (x, d')"
  shows "source_refines op d d d'"
  using publish_index_commit [OF assms [unfolded publish_generation_def]]
proof (rule publish_commitE)
  fix g h d2
  assume d2: "d2 = d\<lparr>iheads := tput (g_tenant g, g_kb g)
         (h\<lparr>ih_current := Some (fst r), ih_updated_at := now, ih_revision := ih_revision h + 1\<rparr>) (iheads d),
       igens := tput (fst r) (g\<lparr>g_status := GEN_PUBLISHED, g_published_at := Some now, g_expires_at := now\<rparr>) (igens d)\<rparr>"
    and hook: "publish_hook v src w (snd r) (fst r, g) d2 = Inr d'"
  have "kbs d = kbs d2" "source_view d2 = source_view d" by (simp_all add: d2)
  with publish_hook_refines [OF hook this(1), of op] show ?thesis by (simp add: source_refines_def)
qed

lemma stage_refines:
  assumes "insert_source_gen gid tn lease base build mk ms cs now d = Inr d'"
  shows "source_refines (Stage gid tn lease base build mk ms cs now) d d d'"
proof -
  from assms obtain g where "map_of (sgens d) gid = None" "s_status g = SOURCE_PREPARED" "d' = d\<lparr>sgens := sgens d @ [(gid, g)]\<rparr>"
    unfolding insert_source_gen_def by (cases cs) (simp, metis source_gen.select_convs(6))
  then have "source_step (SStage gid) (source_view d) (source_view d')"
    by (auto simp: source_view_def intro: source_step.stage)
  then show ?thesis unfolding source_refines_def source_may_def by (intro disjI2 exI conjI) auto
qed

lemma forget_refines: "source_refines (Forget_Source gid before) d d (snd (forget_source gid before d))"
proof (cases "thit gid (\<lambda>g. \<not> is_source_head gid d \<and> source_collectable before g) (sgens d)")
  case True
  then obtain g where g: "map_of (sgens d) gid = Some g" "\<not> is_source_head gid d" "source_collectable before g"
    by (auto dest!: thitD)
  have "\<forall>sid. head_id (sgens d, sheads d) sid \<noteq> Some gid"
    using g(2) by (auto simp: head_id_def is_source_head_def list_ex_iff dest: map_of_SomeD)
  moreover from g(3) have "s_status g \<noteq> SOURCE_ACTIVE" by (auto simp: source_collectable_def)
  ultimately have "source_step (SForget gid) (source_view d) (source_view (snd (forget_source gid before d)))"
    using g(1) True by (simp add: forget_source_def Let_def source_view_def tdelete_def source_step.forget)
  then show ?thesis unfolding source_refines_def source_may_def by (intro disjI2 exI conjI) auto
qed (simp add: forget_source_def Let_def tdelete_def source_refines_frame)

lemma finalize_refines:
  "finalize_delete dia c sid x now t i d = Inr (y, d') \<Longrightarrow> source_refines (Finalize_Delete sid x now w) d d d'"
proof (erule finalizeE)
  fix cur b ob
  assume "d' = d\<lparr>iheads := tdel (x_tenant x, sid) (iheads d), sheads := tdel sid (sheads d),
       sgens := superseded (source_head_of sid d) (sgens d),
       kbs := tput sid (b\<lparr>b_lifecycle := LIFECYCLE_DELETED, b_revision := b_revision b + 1, b_updated_at := now\<rparr>) (kbs d),
       dels := tput sid (cur\<lparr>x_phase := DELETE_COMPLETE, x_updated_at := now\<rparr>) (dels d), outbox := ob\<rparr>"
  then have "source_step (SDrop sid) (source_view d) (source_view d')"
    using source_step.drop [of sid "sgens d" "sheads d"] by (simp add: source_view_def source_head_id)
  then show ?thesis unfolding source_refines_def source_may_def by (intro disjI2 exI conjI) auto
qed (simp add: source_refines_frame)

section \<open>Every transaction is at most one step\<close>

lemma source_kept: "(\<And>x d'. r = Inr (x, d') \<Longrightarrow> source_refines op d d d') \<Longrightarrow> source_refines op d d (kept r d)"
  by (cases r) (auto simp: kept_def source_refines_frame)

lemma source_kept_db: "(\<And>d'. r = Inr d' \<Longrightarrow> source_refines op d d d') \<Longrightarrow> source_refines op d d (kept_db r d)"
  by (cases r) (auto simp: kept_db_def source_refines_frame)

lemma source_kept_frame: "(\<And>x d'. r = Inr (x, d') \<Longrightarrow> source_view d' = source_view d) \<Longrightarrow> source_refines op d d (kept r d)"
  by (rule source_kept) (rule source_refines_frame)

lemma source_kept_db_frame: "(\<And>d'. r = Inr d' \<Longrightarrow> source_view d' = source_view d) \<Longrightarrow> source_refines op d d (kept_db r d)"
  by (rule source_kept_db) (rule source_refines_frame)

lemma adopt_source: "adopt_build w secs now tok h r d = Inr (x, d') \<Longrightarrow> source_view d' = source_view d"
  by (auto simp: adopt_build_def Let_def split: if_splits prod.splits)

lemma new_build_source: "new_build tn kb b w secs now gid tok h d = Inr (x, d') \<Longrightarrow> source_view d' = source_view d"
  by (auto simp: new_build_def Let_def)

lemma begin_build_source:
  assumes "begin_build guard tenant kb build w base secs now gid tok d = Inr (x, d')"
  shows "source_view d' = source_view d"
proof -
  define d1 where "d1 = d\<lparr>iheads := tinsert_ignore (tenant, kb)
    \<lparr>ih_current = None, ih_fence = 0, ih_revision = 0, ih_updated_at = now\<rparr> (iheads d)\<rparr>"
  from assms obtain h where "map_of (iheads d1) (tenant, kb) = Some h" and
    "(\<exists>secs r. adopt_build w secs now tok h r d1 = Inr (x, d')) \<or>
     (\<exists>secs. new_build tenant kb build w secs now gid tok h d1 = Inr (x, d'))"
    unfolding begin_build_def Let_def d1_def [symmetric]
    by (cases "map_of (iheads d1) (tenant, kb)") (auto split: if_splits option.splits)
  then have "source_view d' = source_view d1" by (blast intro: adopt_source new_build_source)
  then show ?thesis by (simp add: d1_def)
qed

lemma index_source:
  "resume_build gid w secs now tok d = Inr (x, d') \<Longrightarrow> source_view d' = source_view d"
  "heartbeat_index gid tok secs now d = Inr (x, d') \<Longrightarrow> source_view d' = source_view d"
  "prepare_index rep c gid tok m now d = Inr (x, d') \<Longrightarrow> source_view d' = source_view d"
  "abort_index gid tok now d = Inr (x, d') \<Longrightarrow> source_view d' = source_view d"
  "forget_index gid before now d = Inr (y, d') \<Longrightarrow> source_view d' = source_view d"
  subgoal by (cases "map_of (igens d) gid") (auto simp: resume_build_def Let_def split: if_splits)
  subgoal by (auto simp: heartbeat_index_def Let_def split: if_splits)
  subgoal by (auto simp: prepare_index_def Let_def split: if_splits)
  subgoal by (auto simp: abort_index_def Let_def split: if_splits)
  subgoal by (auto simp: forget_index_def Let_def)
  done

lemma authority_source:
  "registry_create dia c (activate_created_kb t) kb tn ow cr now d = Inr (x, d') \<Longrightarrow> source_view d' = source_view d"
  "registry_delete kb tn' now d = Inr (b, d') \<Longrightarrow> source_view d' = source_view d"
  "acquire_mutation ow secs sid now tok d = Inr (l, d') \<Longrightarrow> source_view d' = source_view d"
  "heartbeat_mutation secs lease now d = Inr (l, d') \<Longrightarrow> source_view d' = source_view d"
  "begin_delete auth tn sid now d = Inr (y, d') \<Longrightarrow> source_view d' = source_view d"
  "clean_delete ext sid z now d = Inr (y, d') \<Longrightarrow> source_view d' = source_view d"
  "acquire_reader tn kb ow' secs' now rid tok d = Inr (q, d') \<Longrightarrow> source_view d' = source_view d"
  "release_reader rid tok d = Inr (b, d') \<Longrightarrow> source_view d' = source_view d"
  "prune_reader_leases before limit d = Inr (n, d') \<Longrightarrow> source_view d' = source_view d"
  subgoal by (erule createE) simp
  subgoal by (auto simp: registry_delete_def Let_def split: option.splits)
  subgoal by (auto simp: acquire_mutation_def Let_def split: option.splits if_splits)
  subgoal by (auto simp: heartbeat_mutation_def Let_def split: if_splits)
  subgoal by (erule begin_deleteE) simp_all
  subgoal by (erule clean_deleteE) simp_all
  subgoal by (erule acquire_readerE) simp_all
  subgoal by (drule release_readerE) simp
  subgoal by (drule prune_readersE) auto
  done

lemma single_source:
  "source_view (snd (registry_set sid st now d)) = source_view d" "source_view (snd (registry_bump sid now d)) = source_view d"
  "source_view (release_mutation lease now d) = source_view d"
  by (simp_all add: registry_set_def registry_bump_def release_mutation_def Let_def split: option.splits)

lemma db_source:
  "activate tn sid ep now d = Inr d' \<Longrightarrow> source_view d' = source_view d"
  "heartbeat_reader rid tok secs now d = Inr d' \<Longrightarrow> source_view d' = source_view d"
  subgoal by (erule activateE) simp
  subgoal by (drule beat_readerE) simp
  done

lemma import_source: "source_view (exec v (Reg_Import lcs eps now rs) d) = source_view d"
  by (auto split: sum.splits dest: import_legacyE)

lemma exec_source: "source_refines op d d (exec v op d)"
  by (cases op)
    (simp_all del: exec.simps(2) add: source_refines_frame import_source single_source
      authority_source [THEN source_kept_frame] db_source [THEN source_kept_db_frame]
      begin_build_source [THEN source_kept_frame] index_source [THEN source_kept_frame]
      stage_refines [THEN source_kept_db] publish_source_refines [OF _ HOL.refl, THEN source_kept] forget_refines
      publish_generation_refines [THEN source_kept] finalize_refines [THEN source_kept])

section \<open>Heads and active generations agree\<close>

definition active_in :: "(string, source_gen) table \<Rightarrow> string \<Rightarrow> string \<Rightarrow> bool" where
  "active_in gs sid gid \<longleftrightarrow> (case map_of gs gid of None \<Rightarrow> False | Some g \<Rightarrow> s_storage g = sid \<and> s_status g = SOURCE_ACTIVE)"

definition source_inv :: "source_tables \<Rightarrow> bool" where
  "source_inv u \<longleftrightarrow> (\<forall>sid gid. head_id u sid = Some gid \<longleftrightarrow> active_in (fst u) sid gid)"

lemma source_invD: "source_inv (gs, hs) \<Longrightarrow> head_id (gs', hs) sid = Some gid \<longleftrightarrow> active_in gs sid gid"
  by (simp add: source_inv_def head_id_def)

lemma head_id_simps [simp]:
  "head_id (gs, tput sid h hs) k = (if k = sid then Some (sh_gen h) else head_id (gs, hs) k)"
  "head_id (gs, tdel sid hs) k = (if k = sid then None else head_id (gs, hs) k)"
  by (simp_all add: head_id_def)

lemma active_simps [simp]:
  "active_in (tput i g gs) sid gid = (if gid = i then s_storage g = sid \<and> s_status g = SOURCE_ACTIVE else active_in gs sid gid)"
  "active_in (tdel i gs) sid gid = (gid \<noteq> i \<and> active_in gs sid gid)"
  by (simp_all add: active_in_def)

lemma active_unique: "source_inv (gs, hs) \<Longrightarrow> active_in gs sid i \<Longrightarrow> active_in gs sid j \<Longrightarrow> i = j"
  unfolding source_inv_def by (metis fst_conv option.inject)

text \<open>After the head of \<open>sid\<close> is superseded no generation of \<open>sid\<close> is active, and nothing else has changed.\<close>

lemma superseded_active:
  assumes "source_inv (gs, hs)"
  shows "active_in (superseded (head_id (gs', hs) sid) gs) k gid \<longleftrightarrow> k \<noteq> sid \<and> active_in gs k gid"
proof (cases "head_id (gs', hs) sid")
  case None
  with source_invD [OF assms, of gs' sid] have "\<not> active_in gs sid gid" for gid by simp
  then show ?thesis by (auto simp: None superseded_def)
next
  case (Some i)
  with source_invD [OF assms, of gs' sid i] have act: "active_in gs sid i" by simp
  then obtain gi where gi: "map_of gs i = Some gi" "s_storage gi = sid" "s_status gi = SOURCE_ACTIVE"
    by (auto simp: active_in_def split: option.splits)
  then have s: "superseded (head_id (gs', hs) sid) gs = tput i (gi\<lparr>s_status := SOURCE_SUPERSEDED\<rparr>) gs"
    by (simp add: Some superseded_def tset_Some)
  show ?thesis
  proof (cases "gid = i")
    case True
    with gi show ?thesis by (auto simp: s active_in_def)
  next
    case False
    with active_unique [OF assms act, of gid] show ?thesis by (auto simp: s)
  qed
qed

lemma source_inv_step:
  assumes "source_step l u w" and "source_inv u"
  shows "source_inv w"
  using assms(1)
proof (cases rule: source_step.cases)
  case (stage gs gid g hs)
  have "active_in (gs @ [(gid, g)]) sid i = active_in gs sid i" for sid i
    using stage by (auto simp: active_in_def split: option.splits)
  with stage assms(2) source_invD [of gs hs] show ?thesis by (simp add: source_inv_def)
next
  case (publish gs gid g sid hs h g' now)
  with assms(2) have inv: "source_inv (gs, hs)" and g': "s_storage g' = sid" "s_status g' = SOURCE_ACTIVE" by simp_all
  have na: "\<not> active_in gs k gid" for k using publish by (simp add: active_in_def)
  have h: "sh_gen h = gid" using publish by simp
  have w: "w = (tput gid g' (superseded (head_id (gs, hs) sid) gs), tput sid h hs)" using publish by simp
  show ?thesis unfolding source_inv_def w fst_conv
    using na by (auto simp: superseded_active [OF inv] source_invD [OF inv] g' h)
next
  case (forget gs hs gid g)
  with assms(2) have inv: "source_inv (gs, hs)" by simp
  have "\<not> active_in gs k gid" for k using forget by (simp add: active_in_def)
  then show ?thesis unfolding source_inv_def forget(3) fst_conv by (auto simp: source_invD [OF inv])
next
  case (drop sid gs hs)
  with assms(2) have inv: "source_inv (gs, hs)" by simp
  show ?thesis unfolding source_inv_def drop(3) fst_conv
    by (auto simp: superseded_active [OF inv] source_invD [OF inv])
qed

lemma source_inv_exec: "source_inv (source_view d) \<Longrightarrow> source_inv (source_view (exec v op d))"
  using exec_source [of op d v] source_inv_step unfolding source_refines_def by metis

lemma source_inv_reachable: "ha_reachable v d \<Longrightarrow> source_inv (source_view d)"
proof (induction rule: ha_reachable.induct)
  case start
  then show ?case by (simp add: empty_ha_def source_view_def source_inv_def head_id_def active_in_def)
qed (rule source_inv_exec)

text \<open>C6. Heads and active source generations agree.  On every reachable state of the control plane a source
  generation is active exactly when it is the head of its knowledge base, so a knowledge base has at most one active
  generation, and \<open>current\<close> finds it; a generation that has not been published, or has been superseded, is no head.\<close>

theorem source_heads_active:
  assumes "ha_reachable v d"
  shows "(map_option sh_gen (map_of (sheads d) sid) = Some gid) =
      (\<exists>g. map_of (sgens d) gid = Some g \<and> s_storage g = sid \<and> s_status g = SOURCE_ACTIVE)
    \<and> (source_current sid d = None \<longleftrightarrow> map_of (sheads d) sid = None)"
proof -
  have eq: "(map_option sh_gen (map_of (sheads d) sid) = Some gid) = active_in (sgens d) sid gid" for gid
    using source_inv_reachable [OF assms] by (simp add: source_inv_def source_view_def head_id_def)
  have "source_current sid d = None \<longleftrightarrow> map_of (sheads d) sid = None"
  proof (cases "map_of (sheads d) sid")
    case (Some h)
    with eq [of "sh_gen h"] have "active_in (sgens d) sid (sh_gen h)" by simp
    with Some show ?thesis by (auto simp: source_current_def active_in_def split: option.splits)
  qed (simp add: source_current_def)
  then show ?thesis using eq [of gid] by (simp add: active_in_def split: option.split)
qed

section \<open>No lost update\<close>

definition restages :: "string option \<Rightarrow> ha_op \<Rightarrow> bool" where
  "restages base op = (case op of Stage i _ _ _ _ _ _ _ _ \<Rightarrow> base = Some i | _ \<Rightarrow> False)"

definition finalizes :: "string \<Rightarrow> ha_op \<Rightarrow> bool" where
  "finalizes sid op = (case op of Finalize_Delete s _ _ _ \<Rightarrow> s = sid | _ \<Rightarrow> False)"

text \<open>The knowledge base has moved past \<open>base\<close>: it has a head, which is another one, and \<open>base\<close> cannot be published
  any more.\<close>

definition moved_past :: "string \<Rightarrow> string option \<Rightarrow> source_tables \<Rightarrow> bool" where
  "moved_past sid base u \<longleftrightarrow> head_id u sid \<noteq> None \<and> head_id u sid \<noteq> base \<and>
     (\<forall>i g. base = Some i \<longrightarrow> map_of (fst u) i = Some g \<longrightarrow> s_status g \<noteq> SOURCE_PREPARED)"

lemma superseded_prepared: "map_of (superseded cur gs) i = Some g \<Longrightarrow> s_status g = SOURCE_PREPARED \<Longrightarrow> map_of gs i = Some g"
  by (auto simp: superseded_def tset_def split: option.splits if_splits)

lemma moved_past_step:
  assumes "source_step l u w" and "moved_past sid base u" and "l \<noteq> SDrop sid" and "\<And>i. base = Some i \<Longrightarrow> l \<noteq> SStage i"
  shows "moved_past sid base w"
  using assms(1)
proof (cases rule: source_step.cases)
  case (stage gs gid g hs)
  with assms(2,4) show ?thesis by (auto simp: moved_past_def head_id_def split: option.splits if_splits)
next
  case (publish gs gid g sid' hs h g' now)
  have "base \<noteq> Some gid" using publish assms(2) by (auto simp: moved_past_def)
  with publish assms(2) show ?thesis
    by (auto simp: moved_past_def head_id_def [of "(gs, hs)"] dest!: superseded_prepared) (auto simp: head_id_def)
next
  case (forget gs hs gid g)
  with assms(2) show ?thesis by (auto simp: moved_past_def head_id_def)
next
  case (drop sid' gs hs)
  with assms(2,3) show ?thesis by (auto simp: moved_past_def head_id_def dest!: superseded_prepared)
qed

lemma moved_past_exec:
  assumes "moved_past sid base (source_view d)" and "\<not> finalizes sid op" and "\<not> restages base op"
  shows "moved_past sid base (source_view (exec v op d))"
proof -
  from exec_source [of op d v] consider "source_view (exec v op d) = source_view d"
    | l where "source_may op d l" "source_step l (source_view d) (source_view (exec v op d))"
    by (auto simp: source_refines_def)
  then show ?thesis
  proof cases
    case (2 l)
    have "l \<noteq> SDrop sid" using 2(1) assms(2) by (cases op) (auto simp: source_may_def finalizes_def)
    moreover have "l \<noteq> SStage i" if "base = Some i" for i
      using 2(1) assms(3) that by (cases op) (auto simp: source_may_def restages_def)
    ultimately show ?thesis using moved_past_step [OF 2(2) assms(1)] by blast
  qed (use assms(1) in simp)
qed

lemma moved_past_run:
  "moved_past sid base (source_view d) \<Longrightarrow> \<forall>op \<in> set ops. \<not> finalizes sid op \<and> \<not> restages base op \<Longrightarrow>
   moved_past sid base (source_view (ha_run v ops d))"
  by (induction ops arbitrary: d) (auto intro: moved_past_exec)

text \<open>C5. No lost update.  When a source generation staged on \<open>base\<close> is published, the knowledge base has moved past
  that base for good: whatever happens next (short of the end of a deletion, and of staging a generation under the
  identifier of the base itself), no other generation staged on the same base is ever published.  Of two writers that
  started from the same snapshot one fails.\<close>

theorem source_no_lost_update:
  assumes "ha_reachable v d" and "map_of (sgens d) gid = Some g" and "s_status g = SOURCE_PREPARED"
    and "publish_source dia c bnd gid L now w i d = Inr (g', d1)"
    and "\<forall>op \<in> set ops. \<not> finalizes (s_storage g) op \<and> \<not> restages (s_base g) op"
    and "map_of (sgens (ha_run v ops d1)) gid2 = Some g2" and "s_storage g2 = s_storage g" and "s_base g2 = s_base g"
    and "publish_source dia' c' bnd' gid2 L2 now2 w2 i2 (ha_run v ops d1) = Inr (g2', d2)"
  shows "d2 = ha_run v ops d1"
  using assms(9)
proof (rule publish_sourceE)
  fix x d3 ob
  assume x: "map_of (sgens (ha_run v ops d1)) gid2 = Some x" "s_status x = SOURCE_PREPARED"
    and auth: "source_authority x L2 (source_head_of (ml_storage L2) (ha_run v ops d1))
       (map_of (kbs (ha_run v ops d1)) (ml_storage L2)) (map_of (mleases (ha_run v ops d1)) (ml_storage L2)) now2"
  have sid: "s_base g = source_head_of (ml_storage L) d \<and> ml_storage L = s_storage g \<and>
      publish_source_db gid (ml_storage L) g now d (d1\<lparr>outbox := outbox d\<rparr>)"
    using assms(4) by (rule publish_sourceE)
      (use assms(2,3) in \<open>auto simp: source_authority_def publish_source_db_def\<close>)
  then obtain h where h1: "sh_gen h = gid" and eq: "d1\<lparr>outbox := outbox d\<rparr> = d\<lparr>sgens := tput gid
      (g\<lparr>s_status := SOURCE_ACTIVE, s_published_at := Some now\<rparr>) (superseded (s_base g) (sgens d)),
      sheads := tput (s_storage g) h (sheads d)\<rparr>"
    by (auto simp: publish_source_db_def)
  have h: "sh_gen h = gid" "source_view d1 = (tput gid (g\<lparr>s_status := SOURCE_ACTIVE, s_published_at := Some now\<rparr>)
      (superseded (s_base g) (sgens d)), tput (s_storage g) h (sheads d))"
    using h1 arg_cong [OF eq, of sgens] arg_cong [OF eq, of sheads] by (simp_all add: source_view_def)
  have base: "head_id (source_view d) (s_storage g) = s_base g" using sid by (simp add: source_head_id)
  have gid: "s_base g \<noteq> Some gid"
    using source_inv_reachable [OF assms(1)] base assms(2,3) by (auto simp: source_inv_def active_in_def source_view_def)
  have "s_status y \<noteq> SOURCE_PREPARED" if "s_base g = Some j" "map_of (superseded (s_base g) (sgens d)) j = Some y" for j y
  proof
    assume "s_status y = SOURCE_PREPARED"
    with superseded_prepared [OF that(2)] have "\<not> active_in (sgens d) (s_storage g) j" by (simp add: active_in_def)
    with source_inv_reachable [OF assms(1)] base that(1) show False by (simp add: source_inv_def source_view_def)
  qed
  then have "moved_past (s_storage g) (s_base g) (source_view d1)"
    using gid h(1) unfolding h(2) by (auto simp: moved_past_def)
  from moved_past_run [OF this assms(5), of v] have "head_id (source_view (ha_run v ops d1)) (s_storage g) \<noteq> s_base g"
    by (simp add: moved_past_def)
  moreover have "x = g2" using x(1) assms(6) by simp
  ultimately show ?thesis using auth assms(7,8) by (auto simp: source_authority_def source_head_id)
qed

end
