(* ===== verification/HA_Recover_Props.thy ===== *)
theory HA_Recover_Props
  imports HA_Deletion_Props
begin

text \<open>
  The recovery of unfinished deletions ends: every pass without a failure completes at least one of them and starts none,
  so the loop runs at most once per unfinished deletion and once more.
\<close>

declare map_of_append [simp del]

definition complete_at :: "string \<Rightarrow> ha_db \<Rightarrow> bool" where
  "complete_at i d \<longleftrightarrow> (\<exists>x. map_of (dels d) i = Some x \<and> x_phase x = DELETE_COMPLETE)"

definition pending_ids :: "ha_db \<Rightarrow> string list" where
  "pending_ids d = filter (\<lambda>i. \<not> complete_at i d) (map fst (dels d))"

text \<open>What a run of \<open>delete\<close> on a recorded deletion does to the deletion rows.\<close>

definition only_completes :: "ha_db \<Rightarrow> ha_db \<Rightarrow> bool" where
  "only_completes d d' \<longleftrightarrow> map fst (dels d') = map fst (dels d) \<and> (\<forall>i. complete_at i d \<longrightarrow> complete_at i d')"

lemma only_completes_refl [simp]: "only_completes d d"
  by (simp add: only_completes_def)

lemma only_completes_trans: "only_completes d d' \<Longrightarrow> only_completes d' d'' \<Longrightarrow> only_completes d d''"
  by (simp add: only_completes_def)

lemma only_completes_tput:
  assumes "map_of (dels d) sid = Some x" and "x_phase x = DELETE_COMPLETE \<Longrightarrow> x_phase y = DELETE_COMPLETE"
    and "dels d' = tput sid y (dels d)"
  shows "only_completes d d'"
proof -
  have "sid \<in> set (map fst (dels d))" using assms(1) by (force dest: map_of_SomeD)
  with assms show ?thesis by (auto simp: only_completes_def complete_at_def map_fst_tput)
qed

lemma clean_completes: "clean_delete ext sid x now d = Inr (y, d') \<Longrightarrow> only_completes d d'"
proof (erule clean_deleteE)
  fix cur a n
  assume "map_of (dels d) sid = Some cur" "d' = d\<lparr>dels := tput sid y (dels d)\<rparr>"
    "y = (if x_phase cur = DELETE_FENCED then cur\<lparr>x_phase := DELETE_CLEANED, x_artifacts := x_artifacts cur + a,
            x_documents := x_documents cur + n, x_updated_at := now\<rparr> else cur)"
  then show ?thesis by (intro only_completes_tput [of d sid cur y]) simp_all
qed simp

lemma finalize_completes: "finalize_delete dia c sid x now t i d = Inr (y, d') \<Longrightarrow> only_completes d d'"
  by (erule finalizeE) (simp, rule only_completes_tput, auto)

lemma delete_completes:
  assumes "delete_kb dia c auth w t sid d = (r, d')" and "map_of (dels d) sid = Some x"
  shows "only_completes d d' \<and> (r = Inr z \<longrightarrow> complete_at sid d')"
proof (cases "begin_delete auth t sid (dr_begin w) d")
  case (Inl e)
  with assms(1) show ?thesis by (auto simp: delete_kb_def)
next
  case (Inr p)
  obtain x1 d1 where p: "p = (x1, d1)" by (cases p)
  with Inr assms(2) have b: "begin_delete auth t sid (dr_begin w) d = Inr (x, d)"
    by (auto elim!: begin_deleteE)
  show ?thesis
  proof (cases "clean_delete (dr_external w) sid x (dr_clean w) d")
    case (Inl e)
    with assms(1) b show ?thesis by (auto simp: delete_kb_def)
  next
    case (Inr q)
    obtain y d2 where q: "q = (y, d2)" by (cases q)
    have y: "map_of (dels d2) sid = Some y" using Inr assms(2) unfolding q by (auto elim!: clean_deleteE)
    have cl: "only_completes d d2" using Inr unfolding q by (rule clean_completes)
    show ?thesis
    proof (cases "finalize_delete dia c sid y (dr_finalize w) (dr_etime w) (dr_eid w) d2")
      case (Inl e)
      with assms(1) b Inr cl show ?thesis by (auto simp: delete_kb_def q)
    next
      case (Inr s)
      obtain z' d3 where s: "s = (z', d3)" by (cases s)
      have "complete_at sid d3" using Inr y unfolding s by (auto elim!: finalizeE simp: complete_at_def)
      moreover have "d' = d3"
        using assms(1) b Inr \<open>clean_delete (dr_external w) sid x (dr_clean w) d = Inr q\<close> by (simp add: delete_kb_def q s)
      ultimately show ?thesis using only_completes_trans [OF cl finalize_completes [OF Inr [unfolded s]]] by simp
    qed
  qed
qed

lemma recover_pass_completes:
  assumes "recover_pass dia c w rows ok bad d = (ok', bad', d')" and "\<forall>(i, x) \<in> set rows. i \<in> set (map fst (dels d))"
  shows "only_completes d d' \<and> bad \<le> bad' \<and> (bad' = bad \<longrightarrow> (\<forall>(i, x) \<in> set rows. complete_at i d'))"
  using assms
proof (induction rows arbitrary: ok bad d)
  case Nil
  then show ?case by simp
next
  case (Cons row rows)
  obtain sid x where row: "row = (sid, x)" by (cases row)
  obtain r d1 where del: "delete_kb dia c (\<lambda>_. Inr ()) (w sid) (x_tenant x) sid d = (r, d1)" by fastforce
  from Cons.prems(2) row obtain x0 where x0: "map_of (dels d) sid = Some x0"
    by (cases "map_of (dels d) sid") (auto simp: map_of_eq_None_iff)
  from delete_completes [OF del x0] have oc: "only_completes d d1" by blast
  then have keys: "\<forall>(i, x) \<in> set rows. i \<in> set (map fst (dels d1))"
    using Cons.prems(2) by (auto simp: only_completes_def)
  show ?case
  proof (cases r)
    case (Inl e)
    with Cons.prems(1) row del have "recover_pass dia c w rows ok (bad + 1) d1 = (ok', bad', d')" by simp
    from Cons.IH [OF this keys] only_completes_trans [OF oc] show ?thesis by auto
  next
    case (Inr z)
    with Cons.prems(1) row del have "recover_pass dia c w rows (ok + 1) bad d1 = (ok', bad', d')" by simp
    note ih = Cons.IH [OF this keys]
    have "complete_at sid d1" using delete_completes [OF del x0] Inr by blast
    with ih have "complete_at sid d'" by (auto simp: only_completes_def)
    with ih only_completes_trans [OF oc] show ?thesis by (auto simp: row)
  qed
qed

lemma unfinished_pending:
  assumes "distinct (map fst (dels d))" and "(i, x) \<in> set (unfinished limit d)"
  shows "i \<in> set (pending_ids d)"
proof -
  from assms(2) have "(i, x) \<in> set (dels d)" "x_phase x \<noteq> DELETE_COMPLETE"
    by (auto simp: unfinished_def sql_select_def dest!: in_set_takeD)
  moreover from this(1) assms(1) have "map_of (dels d) i = Some x" by simp
  ultimately show ?thesis by (force simp: pending_ids_def complete_at_def)
qed

lemma unfinished_none:
  assumes "distinct (map fst (dels d))" and "1 \<le> limit" and "unfinished limit d = []"
  shows "pending_ids d = []"
proof -
  from assms(2,3) have none: "filter (\<lambda>(_, x). x_phase x \<noteq> DELETE_COMPLETE) (dels d) = []"
    by (auto simp: unfinished_def sql_select_def simp flip: length_0_conv)
  have "complete_at i d" if "(i, x) \<in> set (dels d)" for i x
    using that none assms(1) by (force simp: complete_at_def filter_empty_conv)
  then show ?thesis by (auto simp: pending_ids_def filter_empty_conv)
qed

lemma pending_decreases:
  assumes "only_completes d d'" and "i \<in> set (pending_ids d)" and "complete_at i d'"
  shows "length (pending_ids d') < length (pending_ids d)"
proof -
  have "pending_ids d' = filter (\<lambda>i. \<not> complete_at i d') (pending_ids d)"
    using assms(1) by (auto simp: only_completes_def pending_ids_def intro!: filter_cong)
  moreover have "length (filter (\<lambda>i. \<not> complete_at i d') (pending_ids d)) < length (pending_ids d)"
    by (rule length_filter_less [of i]) (use assms(2,3) in auto)
  ultimately show ?thesis by simp
qed

lemma recover_loop_ends:
  assumes "distinct (map fst (dels d))" and "1 \<le> limit" and "length (pending_ids d) < n"
  shows "\<exists>ok' bad' d'. recover_loop n dia c w limit ok 0 d = Some (ok', bad', d') \<and> only_completes d d' \<and>
    (bad' = 0 \<longrightarrow> pending_ids d' = [])"
  using assms
proof (induction n arbitrary: d ok)
  case (Suc n)
  show ?case
  proof (cases "unfinished limit d = []")
    case True
    with unfinished_none [OF Suc.prems(1,2)] show ?thesis by simp
  next
    case False
    obtain ok1 bad1 d1 where p: "recover_pass dia c (w n) (unfinished limit d) ok 0 d = (ok1, bad1, d1)"
      by (cases "recover_pass dia c (w n) (unfinished limit d) ok 0 d") auto
    have "\<forall>(i, x) \<in> set (unfinished limit d). i \<in> set (map fst (dels d))"
      using unfinished_pending [OF Suc.prems(1)] by (auto simp: pending_ids_def)
    note rp = recover_pass_completes [OF p this]
    show ?thesis
    proof (cases "bad1 = 0")
      case True
      from False obtain i x where ix: "(i, x) \<in> set (unfinished limit d)" by (cases "unfinished limit d") auto
      with rp True have "complete_at i d1" by auto
      from pending_decreases [OF _ unfinished_pending [OF Suc.prems(1) ix] this] rp
      have "length (pending_ids d1) < length (pending_ids d)" by blast
      moreover from rp Suc.prems(1) have "distinct (map fst (dels d1))" by (simp add: only_completes_def)
      ultimately obtain ok' bad' d' where "recover_loop n dia c w limit ok1 0 d1 = Some (ok', bad', d')"
        "only_completes d1 d'" "bad' = 0 \<longrightarrow> pending_ids d' = []"
        using Suc.IH [of d1 ok1] Suc.prems(2,3) by auto
      with p False True rp show ?thesis by (auto intro: only_completes_trans)
    qed (use p False rp in auto)
  qed
qed simp

text \<open>C10. \<open>recover\<close> ends.  With a primary key on the deletion rows, \<open>n\<close> passes are enough when there are fewer than
  \<open>n\<close> unfinished deletions, whatever the external cleanups and the outbox do: the loop returns its two counters,
  loses no deletion row and undoes no completion, and when it reports no failure every deletion is complete.\<close>

theorem recovery_ends:
  assumes "distinct (map fst (dels d))" and "1 \<le> limit" and "limit \<le> 1000" and "length (pending_ids d) < n"
  shows "\<exists>ok bad d'. recover_deletions n dia c w limit d = Inr (Some (ok, bad, d')) \<and>
    map fst (dels d') = map fst (dels d) \<and> (\<forall>i. complete_at i d \<longrightarrow> complete_at i d') \<and>
    (bad = 0 \<longrightarrow> (\<forall>i \<in> set (map fst (dels d')). complete_at i d'))"
proof -
  from recover_loop_ends [OF assms(1,2,4)] obtain ok bad d' where "recover_loop n dia c w limit 0 0 d = Some (ok, bad, d')"
    "only_completes d d'" "bad = 0 \<longrightarrow> pending_ids d' = []" by blast
  moreover have "\<forall>i \<in> set (map fst (dels d')). complete_at i d'" if "pending_ids d' = []"
    using that unfolding pending_ids_def filter_empty_conv by blast
  ultimately show ?thesis
    using assms(2,3) unfolding recover_deletions_def only_completes_def by (intro exI [of _ ok] exI [of _ bad] exI [of _ d']) simp
qed

end
