(* ===== verification/HA_Demo.thy ===== *)
theory HA_Demo
  imports HA_Recover_Props HA_Job_Props
begin

text \<open>
  A knowledge base of the control plane, followed through concrete transactions: it is created, leased, its sources are
  staged and published, its index is built and published, and it is deleted and created again.  Every promise of the
  control plane is applied to this run.
\<close>

declare map_of_append [simp del]

section \<open>The run\<close>

definition demo_env :: ha_env where
  "demo_env = \<lparr>he_dialect = SQLite, he_codec = demo_codec, he_repr = (\<lambda>_. ''''), he_verify = (\<lambda>_. Inr ()), he_bound = False\<rparr>"

lemma demo_env_simps [simp]: "he_dialect demo_env = SQLite" "he_codec demo_env = demo_codec" "he_verify demo_env r = Inr ()"
  "he_bound demo_env = False"
  by (simp_all add: demo_env_def)

lemma demo_ids: "validate_kb_id ''kb'' = Inr ''kb''" "normalize_identity_id ''default'' f = Inr ''default''"
  "normalize_identity_id ''o'' f = Inr ''o''" "identity ''default'' f = Inr ''default''" "identity ''kb'' f = Inr ''kb''"
  "make_storage_id c ''kb'' ''default'' = ''kb''"
  by code_simp+

text \<open>Created at time 10, deleted between 40 and 42, created again at 50.\<close>

definition demo_row :: kb_rec where
  "demo_row = \<lparr>b_tenant = ''default'', b_kb = ''kb'', b_owner = ''o'', b_created_at = ''c'', b_lifecycle = LIFECYCLE_ACTIVE,
     b_epoch = 1, b_revision = 1, b_updated_at = 10\<rparr>"

definition demo_created :: ha_db where
  "demo_created = empty_ha\<lparr>kbs := [(''kb'', demo_row)],
     scopes := [((''default'', ''kb''), \<lparr>a_state = ''active'', a_epoch = 1, a_updated_at = 10\<rparr>)]\<rparr>"

lemma demo_create: "exec demo_env (Reg_Create ''kb'' ''default'' ''o'' ''c'' 10 10) empty_ha = demo_created"
  by (simp add: registry_create_def demo_ids insert_kb_def empty_ha_def activate_created_kb_def activate_locked_def
      activate_scope_def demo_created_def demo_row_def kept_def Let_def)

lemma demo_created_reachable: "ha_reachable demo_env demo_created"
  using ha_reachable.step [OF ha_reachable.start] demo_create by metis

definition demo_lease :: mlease where
  "demo_lease = \<lparr>ml_storage = ''kb'', ml_owner = ''w'', ml_token = ''mut-1'', ml_fence = 1, ml_epoch = 1, ml_expires_at = 80\<rparr>"

definition demo_leased :: ha_db where
  "demo_leased = demo_created\<lparr>mleases := [(''kb'', \<lparr>l_owner = ''w'', l_token = ''mut-1'', l_expires_at = 80, l_fence = 1,
     l_epoch = 1, l_updated_at = 20\<rparr>)]\<rparr>"

lemma demo_acquire: "acquire_mutation ''w'' 60 ''kb'' 20 ''mut-1'' demo_created = Inr (demo_lease, demo_leased)"
  by (simp add: acquire_mutation_def demo_created_def demo_leased_def demo_lease_def demo_row_def empty_ha_def)

lemma demo_leased_reachable: "ha_reachable demo_env demo_leased"
proof -
  have "exec demo_env (Acquire ''w'' 60 ''kb'' 20 ''mut-1'') demo_created = demo_leased" by (simp add: demo_acquire kept_def)
  with ha_reachable.step [OF demo_created_reachable] show ?thesis by metis
qed

text \<open>Two generations staged on the same (empty) base; the first is published at 21.\<close>

definition demo_gen :: source_gen where
  "demo_gen = \<lparr>s_storage = ''kb'', s_tenant = ''default'', s_epoch = 1, s_base = None, s_build = None,
     s_status = SOURCE_PREPARED, s_manifest_key = ''m'', s_manifest_sha = ''h'', s_file_count = 0, s_total_bytes = 0,
     s_document_count = 0, s_document_bytes = 0, s_fence = 1, s_created_at = 20, s_published_at = None\<rparr>"

definition demo_staged :: ha_db where
  "demo_staged = demo_leased\<lparr>sgens := [(''src-1'', demo_gen), (''src-2'', demo_gen)]\<rparr>"

abbreviation demo_stage :: "string \<Rightarrow> ha_op" where
  "demo_stage gid \<equiv> Stage gid ''default'' demo_lease None None ''m'' ''h'' (0, 0, 0, 0) 20"

lemma demo_stages: "exec demo_env (demo_stage ''src-2'') (exec demo_env (demo_stage ''src-1'') demo_leased) = demo_staged"
  by (simp add: insert_source_gen_def tinsert_def kept_db_def demo_staged_def demo_gen_def demo_leased_def demo_created_def
      demo_lease_def empty_ha_def)

lemma demo_staged_reachable: "ha_reachable demo_env demo_staged"
  using ha_reachable.step [OF ha_reachable.step [OF demo_leased_reachable]] demo_stages by metis

definition demo_sourced :: ha_db where
  "demo_sourced = demo_staged\<lparr>
     sgens := [(''src-1'', demo_gen\<lparr>s_status := SOURCE_ACTIVE, s_published_at := Some 21\<rparr>), (''src-2'', demo_gen)],
     sheads := [(''kb'', \<lparr>sh_gen = ''src-1'', sh_revision = 1, sh_updated_at = 21\<rparr>)]\<rparr>"

lemma demo_publish_source: "publish_source SQLite demo_codec False ''src-1'' demo_lease 21 0 [] demo_staged =
    Inr (demo_gen\<lparr>s_status := SOURCE_ACTIVE, s_published_at := Some 21\<rparr>, demo_sourced)"
  by (simp add: publish_source_def source_authority_def advance_source_head_def supersede_source_def tset_def Let_def
      demo_staged_def demo_gen_def demo_leased_def demo_created_def demo_lease_def demo_row_def demo_sourced_def empty_ha_def)

text \<open>An index build of the created knowledge base: begun at 22, prepared at 23, published at 24.\<close>

definition demo_igen :: index_gen where
  "demo_igen = \<lparr>g_tenant = ''default'', g_kb = ''kb'', g_build = ''b1'', g_status = GEN_BUILDING, g_base = None, g_fence = 1,
     g_owner = ''w'', g_token = ''tok1'', g_expires_at = 322, g_manifest = None, g_manifest_sha = None, g_created_at = 22,
     g_prepared_at = None, g_published_at = None, g_aborted_at = None\<rparr>"

definition demo_building :: ha_db where
  "demo_building = demo_created\<lparr>igens := [(''gen-1'', demo_igen)],
     iheads := [((''default'', ''kb''), \<lparr>ih_current = None, ih_fence = 1, ih_revision = 1, ih_updated_at = 22\<rparr>)]\<rparr>"

lemma demo_clean: "clean ''default'' f 255 = Inr ''default''" "clean ''kb'' f 255 = Inr ''kb''" "clean ''b1'' f 255 = Inr ''b1''"
  "clean ''b2'' f 255 = Inr ''b2''" "clean ''v'' f 255 = Inr ''v''" "clean ''w'' f 255 = Inr ''w''" "clean ''gen-1'' f 255 = Inr ''gen-1''"
  "clean ''gen-2'' f 255 = Inr ''gen-2''" "clean ''tok1'' f 512 = Inr ''tok1''" "clean ''tok2'' f 512 = Inr ''tok2''"
  "clean ''tok3'' f 512 = Inr ''tok3''" "clean ''kb'' f 512 = Inr ''kb''" "clean ''r1'' f 255 = Inr ''r1''"
  by code_simp+

lemma demo_active: "map_of (kbs d) ''kb'' = Some b \<Longrightarrow> b_lifecycle b = LIFECYCLE_ACTIVE \<Longrightarrow> b_tenant b = ''default'' \<Longrightarrow>
    assert_index_active ''default'' ''kb'' d = Inr ()"
  by (simp add: assert_index_active_def demo_ids)

lemma demo_begin: "begin_build assert_index_active ''default'' ''kb'' ''b1'' ''w'' None (Fin 300) 22 ''gen-1'' ''tok1'' demo_created =
    Inr (Some (''gen-1'', demo_igen), demo_building)"
  by (simp add: begin_build_def demo_clean clean_opt_def index_lease_def assert_index_active_def demo_ids tinsert_ignore_def new_build_def
      tinsert_def tset_def get_igen_def demo_created_def demo_building_def demo_row_def demo_igen_def empty_ha_def Let_def)

definition demo_manifest :: json where
  "demo_manifest = JObj [(''schema_version'', JStr ''index-manifest-v1''),
     (''contract'', JObj [(''chunk_version'', JStr ''c1''), (''embedding_model'', JStr ''m''), (''dimensions'', JInt 3)]),
     (''files'', JArr [])]"

definition demo_doc :: json where
  "demo_doc = json_canon (manifest_doc ''c1'' ''m'' 3 [] 0)"

definition demo_sha :: string where
  "demo_sha = json_body demo_codec demo_doc"

definition demo_text :: string where
  "demo_text = (case json_dumps (float_repr demo_codec) (manifest_doc ''c1'' ''m'' 3 [] 0) of None \<Rightarrow> [] | Some s \<Rightarrow> s)"

lemma demo_dumps: "json_dumps (float_repr demo_codec) (manifest_doc ''c1'' ''m'' 3 [] 0) = Some demo_text"
  by (simp add: demo_text_def) code_simp

lemma demo_text_short: "utf8_len demo_text < 200"
  by code_simp

lemma demo_contract: "str_or_empty r (JStr ''c1'') = ''c1''" "str_or_empty r (JStr ''m'') = ''m''"
  "is_clean ''c1'' 255" "is_clean ''m'' 512"
  by (simp_all add: str_or_empty_def) code_simp+

lemma demo_manifest_ok: "normalize_manifest r demo_codec demo_manifest = Inr (demo_doc, demo_sha)"
  using demo_text_short
  by (simp add: normalize_manifest_def demo_manifest_def jfield_def demo_contract canonical_manifest_def demo_dumps
      demo_doc_def demo_sha_def demo_codec_simps Let_def)

text \<open>The outbox accepts an event whose identifier and key are new.\<close>

lemma fresh_append:
  assumes "is_clean tenant 255" "is_clean topic 200" "is_clean atype 128" "is_clean aid 512" "is_clean key 512"
    and "0 \<le> revn" "0 \<le> now" "encode_json c ''outbox payload'' payload = Inr pj" "encode_json c ''outbox headers'' (JObj []) = Inr hj"
    and "i \<notin> set (map e_id (events ob))" "(tenant, topic, Some key) \<notin> set (map event_kid (events ob))"
    and "(tenant, topic, Some key) \<notin> set (map okey_kid (event_keys ob))"
  shows "\<exists>x e k. outbox_append SQLite c tenant topic atype aid revn payload None (Some key) 10 None now i ob =
      Inr (x, \<lparr>events = events ob @ [e], event_keys = event_keys ob @ [k]\<rparr>) \<and>
    e_id e = i \<and> event_kid e = (tenant, topic, Some key) \<and> okey_kid k = (tenant, topic, Some key)"
proof -
  have "sql_find (\<lambda>k. okey_kid k = (tenant, topic, Some key)) (event_keys ob) = None"
    using assms(12) unfolding set_map image_iff by (auto simp: sql_find_def find_None_iff)
  with assms show ?thesis
    by (auto simp: outbox_append_def clean_def clean_opt_def Let_def append_existing_def append_insert_def
      insert_event_def new_event_def event_kid_def okey_kid_def)
qed

lemma demo_headers: "encode_json demo_codec ''outbox headers'' (JObj []) = Inr (JObj [])"
  by (simp add: encode_json_def json_dumps_def utf8_len_def)

lemma demo_topics: "is_clean ''default'' 255" "is_clean ''index.published'' 200" "is_clean ''kb.deleted'' 200"
  "is_clean ''knowledge_base'' 128" "is_clean ''kb'' 512" "is_clean ''index:gen-1'' 512" "is_clean ''kb-deleted:kb:2'' 512"
  by code_simp+

definition demo_pgen :: index_gen where
  "demo_pgen = demo_igen\<lparr>g_status := GEN_PREPARED, g_manifest := Some demo_doc, g_manifest_sha := Some demo_sha,
     g_prepared_at := Some 23\<rparr>"

definition demo_prepared :: ha_db where
  "demo_prepared = demo_building\<lparr>igens := [(''gen-1'', demo_pgen)]\<rparr>"

lemma demo_prepare: "prepare_index (he_repr demo_env) demo_codec ''gen-1'' ''tok1'' demo_manifest 23 demo_building =
    Inr (Some (''gen-1'', demo_pgen), demo_prepared)"
  by (simp add: prepare_index_def demo_clean demo_manifest_ok require_live_def require_current_fence_def head_fence_def
      demo_building_def demo_prepared_def demo_igen_def demo_pgen_def set_prepared_def get_igen_def tset_def Let_def)

definition demo_publication :: ha_op where
  "demo_publication = Publish_Index None (24, ''e1'') (''gen-1'', demo_pgen) 24 demo_prepared 24"

definition demo_published :: ha_db where
  "demo_published = exec demo_env demo_publication demo_prepared"

lemma demo_published_reachable: "ha_reachable demo_env demo_published"
proof -
  have "ha_reachable demo_env demo_building"
    using ha_reachable.step [OF demo_created_reachable,
        of "Begin_Build ''default'' ''kb'' ''b1'' ''w'' None (Fin 300) 22 ''gen-1'' ''tok1''"]
    by (simp add: demo_begin kept_def)
  from ha_reachable.step [OF this, of "Prepare_Index ''gen-1'' ''tok1'' demo_manifest 23"]
  have "ha_reachable demo_env demo_prepared" by (simp add: demo_prepare kept_def)
  then show ?thesis unfolding demo_published_def by (rule ha_reachable.step)
qed

definition demo_payload :: json where
  "demo_payload = JObj [(''kb_id'', JStr ''kb''), (''generation_id'', JStr ''gen-1''), (''manifest_sha256'', JStr demo_sha)]"

lemma demo_payload_dumps: "case json_dumps (float_repr demo_codec) demo_payload of None \<Rightarrow> False | Some s \<Rightarrow> utf8_len s < 600"
  by code_simp

lemma demo_payload_encodes: "encode_json demo_codec ''outbox payload'' demo_payload = Inr (json_canon demo_payload)"
  using demo_payload_dumps by (auto simp: encode_json_def split: option.splits)

lemma demo_event:
  assumes "''e1'' \<notin> set (map e_id (events ob))" "(''default'', ''index.published'', Some ''index:gen-1'') \<notin> set (map event_kid (events ob))"
    "(''default'', ''index.published'', Some ''index:gen-1'') \<notin> set (map okey_kid (event_keys ob))" and "0 \<le> t"
  shows "\<exists>x ob'. outbox_append SQLite demo_codec ''default'' ''index.published'' ''knowledge_base'' ''kb'' 1 demo_payload
    None (Some ''index:gen-1'') 10 None t ''e1'' ob = Inr (x, ob')"
  using fresh_append [OF demo_topics(1,2,4,5,6) _ assms(4) demo_payload_encodes demo_headers assms(1-3), of 1]
  by auto

lemma demo_published_rows: "igens demo_published = [(''gen-1'', demo_pgen\<lparr>g_status := GEN_PUBLISHED, g_published_at := Some 24,
    g_expires_at := 24\<rparr>)]"
  "iheads demo_published = [((''default'', ''kb''), \<lparr>ih_current = Some ''gen-1'', ih_fence = 1, ih_revision = 2,
     ih_updated_at = 24\<rparr>)]" "readers demo_published = []"
proof -
  have "''e1'' \<notin> set (map e_id (events (outbox demo_prepared)))"
    "(''default'', ''index.published'', Some ''index:gen-1'') \<notin> set (map event_kid (events (outbox demo_prepared)))"
    "(''default'', ''index.published'', Some ''index:gen-1'') \<notin> set (map okey_kid (event_keys (outbox demo_prepared)))"
    by (simp_all add: demo_prepared_def demo_building_def demo_created_def empty_ha_def)
  from demo_event [OF this, of 24] obtain x ob where
    "outbox_append SQLite demo_codec ''default'' ''index.published'' ''knowledge_base'' ''kb'' 1
    demo_payload None (Some ''index:gen-1'') 10 None 24 ''e1'' (outbox demo_prepared) = Inr (x, ob)" by auto
  note e = this [unfolded demo_payload_def]
  have eq: "demo_published = demo_prepared\<lparr>igens := [(''gen-1'', demo_pgen\<lparr>g_status := GEN_PUBLISHED, g_published_at := Some 24,
      g_expires_at := 24\<rparr>)], iheads := [((''default'', ''kb''), \<lparr>ih_current = Some ''gen-1'', ih_fence = 1, ih_revision = 2,
     ih_updated_at = 24\<rparr>)], outbox := ob\<rparr>"
    using e
    by (simp add: demo_published_def demo_publication_def publish_generation_def publish_index_def publish_commit_def demo_clean
        require_live_def require_current_fence_def head_fence_def assert_index_active_def demo_ids publish_hook_def
        index_event_def get_igen_def tset_def thit_def Let_def demo_prepared_def demo_building_def demo_created_def demo_row_def
        demo_pgen_def demo_igen_def empty_ha_def kept_def)
  show "igens demo_published = [(''gen-1'', demo_pgen\<lparr>g_status := GEN_PUBLISHED, g_published_at := Some 24,
    g_expires_at := 24\<rparr>)]"
  "iheads demo_published = [((''default'', ''kb''), \<lparr>ih_current = Some ''gen-1'', ih_fence = 1, ih_revision = 2,
     ih_updated_at = 24\<rparr>)]" "readers demo_published = []"
    unfolding eq by (simp_all add: demo_prepared_def demo_building_def demo_created_def empty_ha_def)
qed

section \<open>The promises on the run\<close>

lemma index_head_sound_witness:
  "acquire_reader ''default'' ''kb'' ''w'' (Fin 60) 30 ''r1'' ''tok2'' demo_published \<noteq> Inl IndexIntegrityError \<and>
   index_current ''default'' ''kb'' demo_published = Inr (Some (''gen-1'', demo_pgen\<lparr>g_status := GEN_PUBLISHED,
     g_published_at := Some 24, g_expires_at := 24\<rparr>))"
proof -
  have "is_clean ''default'' 255" "is_clean ''kb'' 255" by code_simp+
  with index_head_sound [OF demo_published_reachable, of "''default''" "''kb''" "''w''" "Fin 60" 30 "''r1''" "''tok2''"]
  show ?thesis by (simp add: demo_published_rows head_gen_def get_igen_def)
qed

lemma superseded_never_current_witness:
  "\<exists>h'. map_of (iheads (ha_run demo_env [Prepare_Index ''gen-1'' ''tok1'' demo_manifest 23, demo_publication] demo_building))
      (''default'', ''kb'') = Some h' \<and> 1 \<le> ih_fence h'"
proof -
  have r: "ha_reachable demo_env demo_building"
    using ha_reachable.step [OF demo_created_reachable,
        of "Begin_Build ''default'' ''kb'' ''b1'' ''w'' None (Fin 300) 22 ''gen-1'' ''tok1''"]
    by (simp add: demo_begin kept_def)
  have h: "map_of (iheads demo_building) (''default'', ''kb'') = Some \<lparr>ih_current = None, ih_fence = 1, ih_revision = 1, ih_updated_at = 22\<rparr>"
    by (simp add: demo_building_def)
  have "\<forall>op \<in> set [Prepare_Index ''gen-1'' ''tok1'' demo_manifest 23, demo_publication]. \<not> drops_head (''default'', ''kb'') op"
    by (simp add: drops_head_def demo_publication_def)
  from superseded_never_current [OF r h this] show ?thesis by auto
qed

lemma reader_snapshot_stable_witness:
  "\<exists>d'. frozen ''gen-1'' (demo_pgen\<lparr>g_status := GEN_PUBLISHED, g_published_at := Some 24, g_expires_at := 24\<rparr>)
      (index_view (ha_run demo_env [Forget_Index ''gen-1'' (Fin 80) 60] d')) \<and>
     reads ''r1'' ''gen-1'' 90 (ha_run demo_env [Forget_Index ''gen-1'' (Fin 80) 60] d')"
proof -
  have "acquire_reader ''default'' ''kb'' ''w'' (Fin 60) 30 ''r1'' ''tok2'' demo_published =
      Inr (Some ((''gen-1'', demo_pgen\<lparr>g_status := GEN_PUBLISHED, g_published_at := Some 24, g_expires_at := 24\<rparr>),
        ''r1'', ''tok2'', 90), demo_published\<lparr>readers := [(''r1'', \<lparr>rl_gen = ''gen-1'', rl_owner = ''w'', rl_token = ''tok2'',
        rl_expires_at = 90, rl_created_at = 30, rl_updated_at = 30\<rparr>)]\<rparr>)"
    by (simp add: acquire_reader_def demo_clean index_lease_def demo_published_rows tinsert_def demo_pgen_def demo_igen_def)
  from reader_snapshot_stable [OF demo_published_reachable this, of "[Forget_Index ''gen-1'' (Fin 80) 60]"]
  show ?thesis by auto
qed

lemma lease_exclusion_witness:
  "\<exists>L2 d2. acquire_mutation ''v'' 60 ''kb'' 90 ''mut-2'' demo_leased = Inr (L2, d2) \<and> ml_fence demo_lease < ml_fence L2 \<and>
     \<not> is_ok (assert_live_mutation demo_lease 95 d2)"
proof -
  have "acquire_mutation ''v'' 60 ''kb'' 90 ''mut-2'' (ha_run demo_env [] demo_leased) =
      Inr (\<lparr>ml_storage = ''kb'', ml_owner = ''v'', ml_token = ''mut-2'', ml_fence = 2, ml_epoch = 1, ml_expires_at = 150\<rparr>,
        demo_leased\<lparr>mleases := [(''kb'', \<lparr>l_owner = ''v'', l_token = ''mut-2'', l_expires_at = 150, l_fence = 2,
          l_epoch = 1, l_updated_at = 90\<rparr>)]\<rparr>)"
    by (simp add: acquire_mutation_def demo_leased_def demo_created_def demo_row_def empty_ha_def)
  from lease_exclusion [OF demo_acquire this, where now = 95 and ops' = "[]"] this show ?thesis by auto
qed

lemma source_heads_active_witness:
  "(\<exists>g. map_of (sgens demo_sourced) ''src-1'' = Some g \<and> s_storage g = ''kb'' \<and> s_status g = SOURCE_ACTIVE) \<and>
   source_current ''kb'' demo_sourced \<noteq> None"
proof -
  have "exec demo_env (Publish_Source ''src-1'' demo_lease 21 (0, [])) demo_staged = demo_sourced"
    by (simp add: demo_publish_source kept_def)
  with ha_reachable.step [OF demo_staged_reachable] have "ha_reachable demo_env demo_sourced" by metis
  from source_heads_active [OF this, of "''kb''" "''src-1''"] show ?thesis by (simp add: demo_sourced_def)
qed

lemma source_no_lost_update_witness:
  "\<exists>g2' d2. publish_source SQLite demo_codec False ''src-1'' demo_lease 25 0 [] demo_sourced = Inr (g2', d2) \<and> d2 = demo_sourced"
proof -
  have p: "publish_source SQLite demo_codec False ''src-1'' demo_lease 25 0 [] (ha_run demo_env [] demo_sourced) =
      Inr (demo_gen\<lparr>s_status := SOURCE_ACTIVE, s_published_at := Some 21\<rparr>, demo_sourced)"
    by (simp add: publish_source_def demo_sourced_def)
  have g: "map_of (sgens demo_staged) ''src-1'' = Some demo_gen" "s_status demo_gen = SOURCE_PREPARED"
    by (simp_all add: demo_staged_def demo_gen_def)
  have g2: "map_of (sgens (ha_run demo_env [] demo_sourced)) ''src-1'' =
      Some (demo_gen\<lparr>s_status := SOURCE_ACTIVE, s_published_at := Some 21\<rparr>)"
    by (simp add: demo_sourced_def)
  from source_no_lost_update [OF demo_staged_reachable g demo_publish_source _ g2 _ _ p] p show ?thesis by simp
qed

text \<open>The deletion, begun at 40 on the leased knowledge base.\<close>

definition demo_deletion :: deletion where
  "demo_deletion = \<lparr>x_tenant = ''default'', x_epoch = 2, x_phase = DELETE_FENCED, x_index_gen = None, x_source_gen = None,
     x_artifacts = 0, x_documents = 0, x_started_at = 40, x_updated_at = 40\<rparr>"

definition demo_deleting_row :: kb_rec where
  "demo_deleting_row = demo_row\<lparr>b_lifecycle := LIFECYCLE_DELETING, b_epoch := 2, b_revision := 2, b_updated_at := 40\<rparr>"

lemma demo_fence: "map_of (kbs d) ''kb'' = Some demo_row \<Longrightarrow> kbs d = [(''kb'', demo_row)] \<Longrightarrow> dels d = [] \<Longrightarrow>
    index_head_of ''default'' ''kb'' d = None \<Longrightarrow> source_head_of ''kb'' d = None \<Longrightarrow>
    scopes d = [((''default'', ''kb''), \<lparr>a_state = ''active'', a_epoch = 1, a_updated_at = 10\<rparr>)] \<Longrightarrow>
  begin_delete (\<lambda>_. Inr ()) ''default'' ''kb'' 40 d = Inr (demo_deletion, d\<lparr>kbs := [(''kb'', demo_deleting_row)],
    dels := [(''kb'', demo_deletion)],
    mleases := tset ''kb'' (\<lambda>_. True) (\<lambda>l. l\<lparr>l_expires_at := 0, l_updated_at := 40\<rparr>) (mleases d),
    scopes := [((''default'', ''kb''), \<lparr>a_state = ''deleting'', a_epoch = 2, a_updated_at = 40\<rparr>)]\<rparr>)"
  by (cases "map_of (mleases d) ''kb''")
    (simp_all add: begin_delete_def demo_ids fence_kb_def record_deletion_def demo_row_def demo_deleting_row_def demo_deletion_def
      index_head_of_def source_head_of_def thit_def tset_def tinsert_def Let_def)

lemma demo_begun: "\<exists>d1. begin_delete (\<lambda>_. Inr ()) ''default'' ''kb'' 40 demo_staged = Inr (demo_deletion, d1) \<and>
    kbs d1 = [(''kb'', demo_deleting_row)] \<and> dels d1 = [(''kb'', demo_deletion)] \<and> outbox d1 = outbox demo_staged \<and>
    sgens d1 = sgens demo_staged"
  by (subst demo_fence) (simp_all add: demo_staged_def demo_leased_def demo_created_def empty_ha_def index_head_of_def source_head_of_def)

lemma deletion_fences_all_witness:
  "\<exists>d1. begin_delete (\<lambda>_. Inr ()) ''default'' ''kb'' 40 demo_staged = Inr (demo_deletion, d1) \<and>
     \<not> is_ok (acquire_mutation ''v'' 60 ''kb'' 90 ''mut-2'' d1) \<and>
     \<not> is_ok (begin_build assert_index_active ''default'' ''kb'' ''b1'' ''w'' None (Fin 300) 90 ''gen-1'' ''tok1'' d1)"
proof -
  from demo_begun obtain d1 where b: "begin_delete (\<lambda>_. Inr ()) ''default'' ''kb'' 40 demo_staged = Inr (demo_deletion, d1)"
    by blast
  have "map_of (dels demo_staged) ''kb'' = None" by (simp add: demo_staged_def demo_leased_def demo_created_def empty_ha_def)
  from deletion_fences_all [OF b this, of "[]" demo_env d1] b show ?thesis by auto
qed

lemma old_incarnation_powerless_witness:
  "\<exists>d1. begin_delete (\<lambda>_. Inr ()) ''default'' ''kb'' 40 demo_staged = Inr (demo_deletion, d1) \<and>
     \<not> is_ok (assert_live_mutation demo_lease 41 d1)"
proof -
  from demo_begun obtain d1 where b: "begin_delete (\<lambda>_. Inr ()) ''default'' ''kb'' 40 demo_staged = Inr (demo_deletion, d1)"
    and s: "sgens d1 = sgens demo_staged" by blast
  have "map_of (kbs demo_staged) ''kb'' = Some demo_row" "b_lifecycle demo_row = LIFECYCLE_ACTIVE"
    "map_of (dels demo_staged) ''kb'' = None"
    by (simp_all add: demo_staged_def demo_leased_def demo_created_def demo_row_def empty_ha_def)
  from old_incarnation_powerless [OF this b, of demo_lease demo_env "[]" "''src-1''" demo_gen] b s show ?thesis
    by (auto simp: demo_lease_def demo_row_def demo_staged_def demo_gen_def)
qed

lemma demo_tombstone_encodes: "encode_json demo_codec ''outbox payload'' (JObj [(''storage_id'', JStr ''kb''), (''kb_epoch'', JInt 2)]) =
    Inr (json_canon (JObj [(''storage_id'', JStr ''kb''), (''kb_epoch'', JInt 2)]))"
proof -
  have "case json_dumps (float_repr demo_codec) (JObj [(''storage_id'', JStr ''kb''), (''kb_epoch'', JInt 2)]) of
      None \<Rightarrow> False | Some s \<Rightarrow> utf8_len s < 200" by code_simp
  then show ?thesis by (auto simp: encode_json_def split: option.splits)
qed

lemma demo_tombstone:
  assumes "outbox d = \<lparr>events = [], event_keys = []\<rparr>" and "0 \<le> t"
  shows "\<exists>e k. deletion_event SQLite demo_codec t ''e0'' ''default'' ''kb'' 2 3 d =
      Inr (d\<lparr>outbox := \<lparr>events = [e], event_keys = [k]\<rparr>\<rparr>) \<and> e_id e = ''e0'' \<and>
      event_kid e = (''default'', ''kb.deleted'', Some ''kb-deleted:kb:2'') \<and>
      okey_kid k = (''default'', ''kb.deleted'', Some ''kb-deleted:kb:2'')"
proof -
  have key: "''kb-deleted:'' @ ''kb'' @ '':'' @ show_int 2 = ''kb-deleted:kb:2''" by code_simp
  from fresh_append [OF demo_topics(1,3,4,5,7) _ assms(2) demo_tombstone_encodes demo_headers, where i = "''e0''" and ob = "outbox d" and revn = 3] assms(1)
  obtain x e k where "outbox_append SQLite demo_codec ''default'' ''kb.deleted'' ''knowledge_base'' ''kb'' 3
      (JObj [(''storage_id'', JStr ''kb''), (''kb_epoch'', JInt 2)]) None (Some ''kb-deleted:kb:2'') 10 None t ''e0'' (outbox d) =
      Inr (x, \<lparr>events = [e], event_keys = [k]\<rparr>)" "e_id e = ''e0''"
      "event_kid e = (''default'', ''kb.deleted'', Some ''kb-deleted:kb:2'')"
      "okey_kid k = (''default'', ''kb.deleted'', Some ''kb-deleted:kb:2'')" by auto
  then show ?thesis unfolding deletion_event_def key by auto
qed

definition demo_draw :: delete_draw where
  "demo_draw = \<lparr>dr_begin = 40, dr_clean = 41, dr_finalize = 42, dr_external = Inr (0, 0), dr_etime = 42, dr_eid = ''e0''\<rparr>"


lemma recovery_ends_witness:
  "\<exists>d1. begin_delete (\<lambda>_. Inr ()) ''default'' ''kb'' 40 demo_staged = Inr (demo_deletion, d1) \<and>
     (\<exists>ok bad d'. recover_deletions 2 SQLite demo_codec (\<lambda>_ _. demo_draw) 100 d1 = Inr (Some (ok, bad, d')))"
proof -
  from demo_begun obtain d1 where b: "begin_delete (\<lambda>_. Inr ()) ''default'' ''kb'' 40 demo_staged = Inr (demo_deletion, d1)"
    and x: "dels d1 = [(''kb'', demo_deletion)]" by blast
  have "length (pending_ids d1) < 2" by (simp add: pending_ids_def x)
  from recovery_ends [OF _ _ _ this, of 100 SQLite demo_codec "\<lambda>_ _. demo_draw"] b show ?thesis by (auto simp: x)
qed

section \<open>A build of a deleted knowledge base\<close>

text \<open>The prepared build of the run is still open when its knowledge base is deleted and created again, and another
  worker begins the first build of the new incarnation.\<close>

definition demo_rebirth :: "ha_op list" where
  "demo_rebirth = [Begin_Delete (\<lambda>_. Inr ()) ''default'' ''kb'' 40, Clean_Delete (Inr (0, 0)) ''kb'' demo_deletion 41,
     Finalize_Delete ''kb'' (demo_deletion\<lparr>x_phase := DELETE_CLEANED, x_updated_at := 41\<rparr>) 42 (42, ''e0''),
     Reg_Create ''kb'' ''default'' ''o'' ''c'' 50 50,
     Begin_Build ''default'' ''kb'' ''b2'' ''v'' None (Fin 300) 55 ''gen-2'' ''tok2'']"

definition demo_reborn :: ha_db where
  "demo_reborn = ha_run demo_env demo_rebirth demo_prepared"

abbreviation demo_key :: "string \<times> string" where
  "demo_key \<equiv> (''default'', ''kb'')"

definition demo_tomb :: "outbox_db \<Rightarrow> ha_db" where
  "demo_tomb ob = demo_prepared\<lparr>kbs := [(''kb'', demo_row\<lparr>b_lifecycle := LIFECYCLE_DELETED, b_epoch := 2, b_revision := 3,
       b_updated_at := 42\<rparr>)], iheads := [],
     dels := [(''kb'', demo_deletion\<lparr>x_phase := DELETE_COMPLETE, x_updated_at := 42\<rparr>)],
     scopes := [(demo_key, \<lparr>a_state = ''deleting'', a_epoch = 2, a_updated_at = 40\<rparr>)], outbox := ob\<rparr>"

definition demo_again :: "outbox_db \<Rightarrow> ha_db" where
  "demo_again ob = (demo_tomb ob)\<lparr>kbs := [(''kb'', demo_row\<lparr>b_epoch := 3, b_revision := 4, b_updated_at := 50\<rparr>)],
     dels := [], scopes := [(demo_key, \<lparr>a_state = ''active'', a_epoch = 3, a_updated_at = 50\<rparr>)]\<rparr>"

lemma demo_deleted: "\<exists>e k. ha_run demo_env (take 3 demo_rebirth) demo_prepared = demo_tomb \<lparr>events = [e], event_keys = [k]\<rparr> \<and>
    e_id e = ''e0'' \<and> event_kid e = (''default'', ''kb.deleted'', Some ''kb-deleted:kb:2'') \<and>
    okey_kid k = (''default'', ''kb.deleted'', Some ''kb-deleted:kb:2'')"
proof -
  define d1 where "d1 = demo_prepared\<lparr>kbs := [(''kb'', demo_deleting_row)], dels := [(''kb'', demo_deletion)], mleases := [],
      scopes := [(demo_key, \<lparr>a_state = ''deleting'', a_epoch = 2, a_updated_at = 40\<rparr>)]\<rparr>"
  define d2 where "d2 = d1\<lparr>dels := [(''kb'', demo_deletion\<lparr>x_phase := DELETE_CLEANED, x_updated_at := 41\<rparr>)]\<rparr>"
  have 1: "begin_delete (\<lambda>_. Inr ()) ''default'' ''kb'' 40 demo_prepared = Inr (demo_deletion, d1)"
    by (subst demo_fence) (simp_all add: d1_def demo_prepared_def demo_building_def demo_created_def empty_ha_def
        index_head_of_def source_head_of_def tset_def)
  have 2: "clean_delete (Inr (0, 0)) ''kb'' demo_deletion 41 d1 = Inr (demo_deletion\<lparr>x_phase := DELETE_CLEANED, x_updated_at := 41\<rparr>, d2)"
    by (simp add: clean_delete_def demo_deletion_def d1_def d2_def tset_def Let_def)
  obtain e k where t: "deletion_event SQLite demo_codec 42 ''e0'' ''default'' ''kb'' 2 3 (demo_tomb (outbox demo_prepared)) =
      Inr (demo_tomb \<lparr>events = [e], event_keys = [k]\<rparr>)" "e_id e = ''e0''"
      "event_kid e = (''default'', ''kb.deleted'', Some ''kb-deleted:kb:2'')"
      "okey_kid k = (''default'', ''kb.deleted'', Some ''kb-deleted:kb:2'')"
    using demo_tombstone [of "demo_tomb (outbox demo_prepared)" 42]
    by (auto simp: demo_tomb_def demo_prepared_def demo_building_def demo_created_def empty_ha_def)
  have 3: "finalize_delete SQLite demo_codec ''kb'' (demo_deletion\<lparr>x_phase := DELETE_CLEANED, x_updated_at := 41\<rparr>) 42 42 ''e0'' d2 =
      Inr (demo_deletion\<lparr>x_phase := DELETE_COMPLETE, x_updated_at := 42\<rparr>, demo_tomb \<lparr>events = [e], event_keys = [k]\<rparr>)"
    using t(1)
    by (simp add: finalize_delete_def d2_def d1_def demo_deletion_def demo_deleting_row_def demo_row_def demo_tomb_def drop_heads_def
        index_head_of_def source_head_of_def demo_prepared_def demo_building_def demo_created_def empty_ha_def tset_def thit_def
        tdel_def Let_def)
  have "ha_run demo_env (take 3 demo_rebirth) demo_prepared = demo_tomb \<lparr>events = [e], event_keys = [k]\<rparr>"
    by (simp add: demo_rebirth_def 1 2 3 kept_def)
  with t show ?thesis by blast
qed

lemma demo_create_again: "exec demo_env (Reg_Create ''kb'' ''default'' ''o'' ''c'' 50 50) (demo_tomb ob) = demo_again ob"
  by (simp add: registry_create_def demo_ids revive_def tset_def activate_created_kb_def activate_locked_def
      activate_scope_def tdelete_def tdel_def thit_def demo_tomb_def demo_again_def demo_row_def demo_deletion_def kept_def Let_def)

lemma demo_reborn_rows:
  "\<exists>e k. igens demo_reborn = [(''gen-1'', demo_pgen), (''gen-2'', demo_igen\<lparr>g_build := ''b2'', g_owner := ''v'', g_token := ''tok2'',
       g_expires_at := 355, g_created_at := 55\<rparr>)] \<and>
     iheads demo_reborn = [(demo_key, \<lparr>ih_current = None, ih_fence = 1, ih_revision = 1, ih_updated_at = 55\<rparr>)] \<and>
     kbs demo_reborn = [(''kb'', demo_row\<lparr>b_epoch := 3, b_revision := 4, b_updated_at := 50\<rparr>)] \<and>
     outbox demo_reborn = \<lparr>events = [e], event_keys = [k]\<rparr> \<and> e_id e = ''e0'' \<and>
     event_kid e = (''default'', ''kb.deleted'', Some ''kb-deleted:kb:2'') \<and>
     okey_kid k = (''default'', ''kb.deleted'', Some ''kb-deleted:kb:2'')"
proof -
  obtain e k where d: "ha_run demo_env (take 3 demo_rebirth) demo_prepared = demo_tomb \<lparr>events = [e], event_keys = [k]\<rparr>" (is "_ = demo_tomb ?ob")
    and ek: "e_id e = ''e0''" "event_kid e = (''default'', ''kb.deleted'', Some ''kb-deleted:kb:2'')"
      "okey_kid k = (''default'', ''kb.deleted'', Some ''kb-deleted:kb:2'')" using demo_deleted by blast
  have "ha_run demo_env (take 3 demo_rebirth @ drop 3 demo_rebirth) demo_prepared =
      ha_run demo_env (drop 3 demo_rebirth) (demo_tomb ?ob)"
    by (simp only: ha_run_simps d)
  then have "demo_reborn = exec demo_env (Begin_Build ''default'' ''kb'' ''b2'' ''v'' None (Fin 300) 55 ''gen-2'' ''tok2'') (demo_again ?ob)"
    by (simp only: append_take_drop_id demo_reborn_def) (simp add: demo_rebirth_def demo_create_again del: exec.simps)
  also have "\<dots> = (demo_again ?ob)\<lparr>igens := [(''gen-1'', demo_pgen), (''gen-2'', demo_igen\<lparr>g_build := ''b2'', g_owner := ''v'',
       g_token := ''tok2'', g_expires_at := 355, g_created_at := 55\<rparr>)],
     iheads := [(demo_key, \<lparr>ih_current = None, ih_fence = 1, ih_revision = 1, ih_updated_at = 55\<rparr>)]\<rparr>"
    by (simp add: begin_build_def demo_clean clean_opt_def index_lease_def assert_index_active_def demo_ids tinsert_ignore_def
        new_build_def same_build_def tinsert_def tset_def get_igen_def demo_again_def demo_tomb_def demo_prepared_def
        demo_building_def demo_created_def demo_row_def demo_igen_def demo_pgen_def empty_ha_def kept_def Let_def)
  finally have eq: "demo_reborn = \<dots>" .
  show ?thesis unfolding eq using ek by (simp add: demo_again_def demo_tomb_def)
qed

text \<open>C37. A build survives the deletion of its knowledge base.  The last phase of a deletion removes the row with the
  fencing counter, so the counter starts again with the next incarnation: a build that was prepared before the deletion
  carries the token of the first build after it, and its worker publishes it, under its old lease, as the index of the new
  knowledge base (registry epoch 3, the build's was 1), while the lawful build is still running.  The fence of
  \<open>superseded_never_current\<close> does not reach across \<open>_finalize\<close>.\<close>

theorem deleted_build_published:
  "head_gen ''default'' ''kb'' (exec demo_env (Publish_Index None (60, ''e1'') (''gen-1'', demo_pgen) 60 demo_reborn 60) demo_reborn) =
     Some ''gen-1'' \<and>
   map_option b_epoch (map_of (kbs demo_prepared) ''kb'') = Some 1 \<and>
   map_option b_epoch (map_of (kbs demo_reborn) ''kb'') = Some 3"
proof -
  obtain e k where r: "igens demo_reborn = [(''gen-1'', demo_pgen), (''gen-2'', demo_igen\<lparr>g_build := ''b2'', g_owner := ''v'',
       g_token := ''tok2'', g_expires_at := 355, g_created_at := 55\<rparr>)]"
    "iheads demo_reborn = [(demo_key, \<lparr>ih_current = None, ih_fence = 1, ih_revision = 1, ih_updated_at = 55\<rparr>)]"
    "kbs demo_reborn = [(''kb'', demo_row\<lparr>b_epoch := 3, b_revision := 4, b_updated_at := 50\<rparr>)]"
    "outbox demo_reborn = \<lparr>events = [e], event_keys = [k]\<rparr>" "e_id e = ''e0''"
    "event_kid e = (''default'', ''kb.deleted'', Some ''kb-deleted:kb:2'')"
    "okey_kid k = (''default'', ''kb.deleted'', Some ''kb-deleted:kb:2'')"
    using demo_reborn_rows by blast
  from demo_event [of "outbox demo_reborn" 60] r(4-7) obtain x ob where
    o: "outbox_append SQLite demo_codec ''default'' ''index.published'' ''knowledge_base'' ''kb'' 1
      demo_payload None (Some ''index:gen-1'') 10 None 60 ''e1'' \<lparr>events = [e], event_keys = [k]\<rparr> = Inr (x, ob)" by auto
  have "head_gen ''default'' ''kb'' (exec demo_env (Publish_Index None (60, ''e1'') (''gen-1'', demo_pgen) 60 demo_reborn 60) demo_reborn) =
     Some ''gen-1''"
    using o [unfolded demo_payload_def]
    by (simp add: r publish_generation_def publish_index_def publish_commit_def demo_clean
        require_live_def require_current_fence_def head_fence_def assert_index_active_def demo_ids publish_hook_def
        index_event_def get_igen_def tset_def thit_def Let_def demo_row_def demo_pgen_def demo_igen_def kept_def head_gen_def)
  then show ?thesis by (simp add: r demo_row_def demo_prepared_def demo_building_def demo_created_def)
qed

end
