(* ===== verification/Retrieval_Scope.thy ===== *)
theory Retrieval_Scope
  imports Index_Manifest
begin

text \<open>
  Retrieval boundaries (\<open>tools/retriever/scope.py\<close>): which source documents a retrieval request may see.  A scope is
  made by its constructor, which normalises the sources and refuses contradictory arguments, and two scopes (the task's
  and the caller's authorisation) are combined by \<open>intersect\<close>.  Arguments of any type are JSON values; \<open>rep\<close> is \<open>repr\<close>
  of the values whose text the code does not define.
\<close>

section \<open>Scopes\<close>

datatype access_mode = MODE_ALL | MODE_SUBSET | MODE_DENY

record scope =
  sc_sources :: "string list"
  sc_derived :: bool
  sc_mode :: access_mode

text \<open>\<open>"" if source is None else str(source)\<close>\<close>

definition source_name :: "(json \<Rightarrow> string) \<Rightarrow> json \<Rightarrow> string" where
  "source_name rep j = (if j = JNull then [] else py_str rep j)"

text \<open>The loop over \<open>allowed_sources\<close>: a string is refused, a mapping is iterated by its keys.\<close>

fun raw_sources :: "json \<Rightarrow> json list res" where
  "raw_sources (JStr _) = Inl (TypeError ''allowed_sources must be a sequence of source names'')"
| "raw_sources (JArr xs) = Inr xs"
| "raw_sources (JObj d) = Inr (map (JStr \<circ> fst) d)"
| "raw_sources _ = Inl (TypeError ''object is not iterable'')"

fun normalized_sources :: "(json \<Rightarrow> string) \<Rightarrow> string list \<Rightarrow> json list \<Rightarrow> string list" where
  "normalized_sources rep acc [] = acc"
| "normalized_sources rep acc (x # xs) =
     (let s = source_name rep x in
      normalized_sources rep (if s \<noteq> [] \<and> s \<notin> set acc then acc @ [s] else acc) xs)"

text \<open>\<open>RetrievalAccessMode(value)\<close>; a member of the enumeration is its own value.\<close>

definition access_mode_of :: "json \<Rightarrow> access_mode res" where
  "access_mode_of j =
     (if j = JStr ''all'' then Inr MODE_ALL
      else if j = JStr ''subset'' then Inr MODE_SUBSET
      else if j = JStr ''deny'' then Inr MODE_DENY
      else Inl (ValueError ''unsupported retrieval access mode''))"

fun derived_flag :: "json \<Rightarrow> bool res" where
  "derived_flag (JBool b) = Inr b"
| "derived_flag _ = Inl (TypeError ''include_derived_knowledge must be a boolean'')"

definition make_scope :: "(json \<Rightarrow> string) \<Rightarrow> json \<Rightarrow> json \<Rightarrow> json \<Rightarrow> scope res" where
  "make_scope rep sources derived mode =
     bindR (raw_sources sources) (\<lambda>raw.
     let ns = normalized_sources rep [] raw in
     bindR (derived_flag derived) (\<lambda>dk.
     bindR (access_mode_of mode) (\<lambda>m0.
     let m = (if ns \<noteq> [] \<and> m0 = MODE_ALL then MODE_SUBSET else m0) in
     if m = MODE_SUBSET \<and> ns = [] then Inl (ValueError ''subset retrieval access requires at least one source'')
     else if m = MODE_DENY \<and> ns \<noteq> [] then Inl (ValueError ''deny retrieval access cannot include allowed sources'')
     else Inr \<lparr>sc_sources = ns, sc_derived = dk, sc_mode = m\<rparr>)))"

definition scope_deny :: "(json \<Rightarrow> string) \<Rightarrow> scope res" where
  "scope_deny rep = make_scope rep (JArr []) (JBool False) (JStr ''deny'')"

section \<open>Access\<close>

definition allows_source :: "(json \<Rightarrow> string) \<Rightarrow> scope \<Rightarrow> json \<Rightarrow> bool" where
  "allows_source rep s src =
     (if sc_mode s = MODE_DENY then False
      else if sc_mode s = MODE_ALL then True
      else source_name rep src \<in> set (sc_sources s))"

definition allows_document :: "(json \<Rightarrow> string) \<Rightarrow> scope \<Rightarrow> json \<Rightarrow> bool" where
  "allows_document rep s doc =
     (let meta = jfield doc ''meta'' in
      if jfield meta ''source_type'' = JStr ''derived_knowledge''
      then sc_derived s \<and> allows_source rep s (jfield meta ''related_source'')
      else allows_source rep s (jfield meta ''source''))"

definition common_sources :: "scope \<Rightarrow> scope \<Rightarrow> string list" where
  "common_sources a b =
     (if sc_mode a = MODE_ALL then sc_sources b
      else if sc_mode b = MODE_ALL then sc_sources a
      else filter (\<lambda>s. s \<in> set (sc_sources b)) (sc_sources a))"

definition intersect :: "(json \<Rightarrow> string) \<Rightarrow> scope \<Rightarrow> scope \<Rightarrow> scope res" where
  "intersect rep a b =
     (let dk = (sc_derived a \<and> sc_derived b) in
      if sc_mode a = MODE_DENY \<or> sc_mode b = MODE_DENY then scope_deny rep
      else if sc_mode a = MODE_ALL \<and> sc_mode b = MODE_ALL then make_scope rep (JArr []) (JBool dk) (JStr ''all'')
      else
        let sources = common_sources a b in
        if sources = [] then scope_deny rep
        else make_scope rep (JArr (map JStr sources)) (JBool dk) (JStr ''subset''))"

section \<open>What the constructor guarantees\<close>

definition scope_ok :: "scope \<Rightarrow> bool" where
  "scope_ok s \<longleftrightarrow> distinct (sc_sources s) \<and> [] \<notin> set (sc_sources s) \<and> (sc_mode s = MODE_SUBSET \<longleftrightarrow> sc_sources s \<noteq> [])"

lemma normalized_set: "set (normalized_sources rep acc xs) = set acc \<union> (source_name rep ` set xs - {[]})"
  by (induction rep acc xs rule: normalized_sources.induct) (auto simp: Let_def)

lemma normalized_distinct: "distinct acc \<Longrightarrow> distinct (normalized_sources rep acc xs)"
  by (induction rep acc xs rule: normalized_sources.induct) (auto simp: Let_def)

lemma mode_cases: "m \<noteq> MODE_ALL \<Longrightarrow> m \<noteq> MODE_DENY \<Longrightarrow> m = MODE_SUBSET"
  by (cases m) auto

lemma make_scope_ok: "make_scope rep sources derived mode = Inr s \<Longrightarrow> scope_ok s"
  by (auto simp: make_scope_def scope_ok_def normalized_set normalized_distinct Let_def intro: mode_cases split: if_splits)

lemma scope_deny_eq: "scope_deny rep = Inr \<lparr>sc_sources = [], sc_derived = False, sc_mode = MODE_DENY\<rparr>"
  by (simp add: scope_deny_def make_scope_def access_mode_of_def)

lemma make_all: "make_scope rep (JArr []) (JBool dk) (JStr ''all'') = Inr \<lparr>sc_sources = [], sc_derived = dk, sc_mode = MODE_ALL\<rparr>"
  by (simp add: make_scope_def access_mode_of_def)

text \<open>On names that are already normal the loop changes nothing.\<close>

lemma normalized_names: "distinct (acc @ ns) \<Longrightarrow> [] \<notin> set ns \<Longrightarrow> normalized_sources rep acc (map JStr ns) = acc @ ns"
  by (induction ns arbitrary: acc) (auto simp: source_name_def Let_def)

lemma make_subset: "distinct ns \<Longrightarrow> [] \<notin> set ns \<Longrightarrow> ns \<noteq> [] \<Longrightarrow>
    make_scope rep (JArr (map JStr ns)) (JBool dk) (JStr ''subset'') = Inr \<lparr>sc_sources = ns, sc_derived = dk, sc_mode = MODE_SUBSET\<rparr>"
  by (simp add: make_scope_def access_mode_of_def normalized_names [of "[]", simplified])

lemma common_ok: "scope_ok a \<Longrightarrow> scope_ok b \<Longrightarrow> distinct (common_sources a b) \<and> [] \<notin> set (common_sources a b)"
  by (auto simp: common_sources_def scope_ok_def)

text \<open>C31. The intersection of scopes is exact and fails closed.  For any two scopes the constructor accepts, \<open>intersect\<close>
  returns a well-formed scope and never raises; it allows a document (a source document or a derived one) exactly if
  both scopes allow it.  In particular scopes with no common source give one that denies everything, not an
  unrestricted one.\<close>

theorem scope_intersect_exact:
  assumes "make_scope rep s1 d1 m1 = Inr a" and "make_scope rep s2 d2 m2 = Inr b"
  shows "\<exists>c. intersect rep a b = Inr c \<and> scope_ok c \<and>
    allows_document rep c doc = (allows_document rep a doc \<and> allows_document rep b doc)"
proof -
  have ok: "scope_ok a" "scope_ok b" using assms by (auto dest: make_scope_ok)
  define sources where "sources = common_sources a b"
  consider "sc_mode a = MODE_DENY \<or> sc_mode b = MODE_DENY" | "sc_mode a = MODE_ALL" "sc_mode b = MODE_ALL"
    | "sc_mode a \<noteq> MODE_DENY" "sc_mode b \<noteq> MODE_DENY" "\<not> (sc_mode a = MODE_ALL \<and> sc_mode b = MODE_ALL)" by blast
  then show ?thesis
  proof cases
    case 1
    then show ?thesis by (auto simp: intersect_def scope_deny_eq scope_ok_def allows_document_def allows_source_def Let_def)
  next
    case 2
    then show ?thesis by (simp add: intersect_def make_all scope_ok_def allows_document_def allows_source_def Let_def)
  next
    case 3
    have names: "distinct sources" "[] \<notin> set sources" using common_ok [OF ok] by (auto simp: sources_def)
    have src: "allows_source rep a x \<and> allows_source rep b x \<longleftrightarrow> source_name rep x \<in> set sources" for x
      using 3 ok by (auto simp: allows_source_def sources_def common_sources_def scope_ok_def dest: mode_cases)
    show ?thesis
    proof (cases "sources = []")
      case True
      then show ?thesis using 3 src
        by (auto simp: intersect_def sources_def [symmetric] scope_deny_eq scope_ok_def allows_document_def Let_def)
          (simp_all add: allows_source_def)
    next
      case False
      with 3 names have "intersect rep a b = Inr \<lparr>sc_sources = sources, sc_derived = sc_derived a \<and> sc_derived b, sc_mode = MODE_SUBSET\<rparr>"
        by (auto simp: intersect_def sources_def [symmetric] make_subset Let_def)
      moreover have "allows_source rep \<lparr>sc_sources = sources, sc_derived = d, sc_mode = MODE_SUBSET\<rparr> x \<longleftrightarrow> source_name rep x \<in> set sources" for d x
        by (simp add: allows_source_def)
      ultimately show ?thesis using False names src by (auto simp: scope_ok_def allows_document_def Let_def)
    qed
  qed
qed

lemma scope_intersect_exact_witness:
  "\<exists>c. intersect (\<lambda>_. []) \<lparr>sc_sources = [''a.md'', ''b.md''], sc_derived = True, sc_mode = MODE_SUBSET\<rparr>
      \<lparr>sc_sources = [''b.md''], sc_derived = False, sc_mode = MODE_SUBSET\<rparr> = Inr c \<and>
    allows_document (\<lambda>_. []) c (JObj [(''meta'', JObj [(''source'', JStr ''b.md'')])]) \<and>
    \<not> allows_document (\<lambda>_. []) c (JObj [(''meta'', JObj [(''source'', JStr ''a.md'')])])"
proof -
  have a: "make_scope (\<lambda>_. []) (JArr [JStr ''a.md'', JNull, JStr ''b.md'', JStr ''a.md'']) (JBool True) (JStr ''all'') =
      Inr \<lparr>sc_sources = [''a.md'', ''b.md''], sc_derived = True, sc_mode = MODE_SUBSET\<rparr>" by code_simp
  have b: "make_scope (\<lambda>_. []) (JArr [JStr ''b.md'']) (JBool False) (JStr ''subset'') =
      Inr \<lparr>sc_sources = [''b.md''], sc_derived = False, sc_mode = MODE_SUBSET\<rparr>" by code_simp
  from scope_intersect_exact [OF a b, of "JObj [(''meta'', JObj [(''source'', JStr ''b.md'')])]"]
    scope_intersect_exact [OF a b, of "JObj [(''meta'', JObj [(''source'', JStr ''a.md'')])]"]
  obtain c where "intersect (\<lambda>_. []) \<lparr>sc_sources = [''a.md'', ''b.md''], sc_derived = True, sc_mode = MODE_SUBSET\<rparr>
      \<lparr>sc_sources = [''b.md''], sc_derived = False, sc_mode = MODE_SUBSET\<rparr> = Inr c"
    "allows_document (\<lambda>_. []) c (JObj [(''meta'', JObj [(''source'', JStr ''b.md'')])])"
    "\<not> allows_document (\<lambda>_. []) c (JObj [(''meta'', JObj [(''source'', JStr ''a.md'')])])"
    by (auto simp: allows_document_def [of _ "\<lparr>sc_sources = x, sc_derived = y, sc_mode = z\<rparr>" for x y z]
        allows_source_def jfield_def source_name_def)
  then show ?thesis by blast
qed

end
