(* ===== verification/Retrieval_Fusion.thy ===== *)
theory Retrieval_Fusion
  imports Index_Manifest HA_Cron
begin

text \<open>
  Fusion of retrieval rankings (\<open>tools/retriever/fusion.py\<close>): weighted reciprocal-rank fusion of the rankings that the
  queries and channels returned, and the bounded pool of candidates for reranking in which every evidence requirement
  and every channel has its share.  A document is the JSON object the code passes around; \<open>rep\<close> is \<open>repr\<close> of the values
  whose text the code does not define.  Sums of scores are exact (\<open>math.fsum\<close> rounds once).
\<close>

declare map_of_append [simp del]

section \<open>Rankings and candidates\<close>

record ranking =
  rk_query :: string
  rk_channel :: string
  rk_docs :: "json list"
  rk_requirements :: "string list"
  rk_original :: bool
  rk_round :: int
  rk_weight :: pyfloat

record candidate =
  cd_id :: string
  cd_contributions :: "real list"
  cd_queries :: "string list"
  cd_channels :: "string list"
  cd_channel_scores :: "(string \<times> real) list"
  cd_requirements :: "string list"
  cd_best :: "json option"
  cd_best_query :: string
  cd_best_channel :: string
  cd_best_rank :: nat
  cd_best_original :: bool
  cd_best_index :: nat
  cd_original_hit :: bool
  cd_round :: int
  cd_distances :: "real list"
  cd_bm25 :: "real list"

definition new_candidate :: "string \<Rightarrow> candidate" where
  "new_candidate i = \<lparr>cd_id = i, cd_contributions = [], cd_queries = [], cd_channels = [], cd_channel_scores = [],
     cd_requirements = [], cd_best = None, cd_best_query = [], cd_best_channel = [], cd_best_rank = 0,
     cd_best_original = False, cd_best_index = 0, cd_original_hit = False, cd_round = 0, cd_distances = [], cd_bm25 = []\<rparr>"

fun append_unique :: "string list \<Rightarrow> string list \<Rightarrow> string list" where
  "append_unique vs [] = vs"
| "append_unique vs (x # xs) =
     (let s = py_strip x in append_unique (if s \<noteq> [] \<and> s \<notin> set vs then vs @ [s] else vs) xs)"

definition candidate_chunk_id :: "(json \<Rightarrow> string) \<Rightarrow> json \<Rightarrow> string res" where
  "candidate_chunk_id rep doc =
     (let i = py_strip (str_or_empty rep (jfield (jfield doc ''meta'') ''chunk_id''))
      in if i = [] then Inl (ValueError ''ranked candidate is missing a stable chunk_id'') else Inr i)"

text \<open>\<open>float(v)\<close>: \<open>None\<close> for the errors the code catches; an integer beyond the range of a float raises \<open>OverflowError\<close>,
  which it does not.\<close>

fun float_of :: "json \<Rightarrow> pyfloat option res" where
  "float_of (JBool b) = Inr (Some (Fin (if b then 1 else 0)))"
| "float_of (JInt i) = (if 2 ^ 1024 - 2 ^ 970 \<le> \<bar>i\<bar> then Inl OverflowError else Inr (Some (Fin (of_int i))))"
| "float_of (JFloat x) = Inr (Some x)"
| "float_of (JStr s) = Inr (py_float s)"
| "float_of _ = Inr None"

definition finite_retrieval_float :: "json \<Rightarrow> string \<Rightarrow> real option res" where
  "finite_retrieval_float doc name =
     bindR (float_of (jfield (jfield doc ''retrieval'') name)) (\<lambda>x.
       Inr (case x of Some (Fin r) \<Rightarrow> Some r | _ \<Rightarrow> None))"

definition is_better_occurrence :: "candidate \<Rightarrow> nat \<Rightarrow> bool \<Rightarrow> nat \<Rightarrow> bool" where
  "is_better_occurrence c rank original idx \<longleftrightarrow>
     cd_best c = None \<or> (rank, \<not> original, idx) < (cd_best_rank c, \<not> cd_best_original c, cd_best_index c)"

text \<open>One occurrence of a chunk: at rank \<open>rank\<close> of ranking number \<open>idx\<close>.\<close>

definition add_occurrence :: "real \<Rightarrow> nat \<Rightarrow> ranking \<Rightarrow> nat \<Rightarrow> json \<Rightarrow> candidate \<Rightarrow> candidate res" where
  "add_occurrence k idx r rank doc c =
     (let share = fin_val (rk_weight r) / (k + real rank);
          chan = (case map_of (cd_channel_scores c) (rk_channel r) of None \<Rightarrow> 0 | Some s \<Rightarrow> s);
          c1 = c\<lparr>cd_contributions := cd_contributions c @ [share],
                 cd_channel_scores := jset (rk_channel r) (chan + share) (cd_channel_scores c),
                 cd_queries := append_unique (cd_queries c) [rk_query r],
                 cd_channels := append_unique (cd_channels c) [rk_channel r],
                 cd_requirements := append_unique (cd_requirements c) (rk_requirements r),
                 cd_original_hit := (cd_original_hit c \<or> rk_original r),
                 cd_round := max (cd_round c) (rk_round r)\<rparr>
      in bindR (finite_retrieval_float doc ''distance'') (\<lambda>d.
         bindR (finite_retrieval_float doc ''bm25_score'') (\<lambda>b.
         let c2 = c1\<lparr>cd_distances := cd_distances c @ (case d of None \<Rightarrow> [] | Some x \<Rightarrow> [x]),
                     cd_bm25 := cd_bm25 c @ (case b of None \<Rightarrow> [] | Some x \<Rightarrow> [x])\<rparr>
         in Inr (if is_better_occurrence c rank (rk_original r) idx
                 then c2\<lparr>cd_best := Some doc, cd_best_query := rk_query r, cd_best_channel := rk_channel r,
                         cd_best_rank := rank, cd_best_original := rk_original r, cd_best_index := idx\<rparr>
                 else c2))))"

section \<open>The loop over the rankings\<close>

type_synonym candidates = "(string \<times> candidate) list"

definition candidate_at :: "string \<Rightarrow> candidates \<Rightarrow> candidate" where
  "candidate_at i cs = (case map_of cs i of None \<Rightarrow> new_candidate i | Some c \<Rightarrow> c)"

fun rank_docs :: "(json \<Rightarrow> string) \<Rightarrow> real \<Rightarrow> nat \<Rightarrow> ranking \<Rightarrow> json list \<Rightarrow> string list \<Rightarrow> nat \<Rightarrow> candidates \<Rightarrow>
    candidates res" where
  "rank_docs rep k idx r [] seen rank cs = Inr cs"
| "rank_docs rep k idx r (doc # docs) seen rank cs =
     bindR (candidate_chunk_id rep doc) (\<lambda>i.
       if i \<in> set seen then rank_docs rep k idx r docs seen rank cs
       else bindR (add_occurrence k idx r (Suc rank) doc (candidate_at i cs)) (\<lambda>c.
            rank_docs rep k idx r docs (i # seen) (Suc rank) (jset i c cs)))"

fun rank_all :: "(json \<Rightarrow> string) \<Rightarrow> real \<Rightarrow> nat \<Rightarrow> ranking list \<Rightarrow> candidates \<Rightarrow> candidates res" where
  "rank_all rep k idx [] cs = Inr cs"
| "rank_all rep k idx (r # rs) cs =
     (if \<not> isfinite (rk_weight r) \<or> fin_val (rk_weight r) < 0
      then Inl (ValueError ''ranking weight must be a finite non-negative number'')
      else if fin_val (rk_weight r) = 0 then rank_all rep k (Suc idx) rs cs
      else bindR (rank_docs rep k idx r (rk_docs r) [] 0 cs) (rank_all rep k (Suc idx) rs))"

definition fusion_score :: "candidate \<Rightarrow> real" where
  "fusion_score c = sum_list (cd_contributions c)"

definition ordered_candidates :: "candidates \<Rightarrow> candidate list" where
  "ordered_candidates cs = sort_key (\<lambda>c. (- fusion_score c, cd_id c)) (map snd cs)"

section \<open>Shares of a bounded pool\<close>

text \<open>Indexes are taken in order until \<open>per\<close> of the group \<open>m\<close> are in the pool or the pool holds \<open>cap\<close>.\<close>

fun cover :: "(nat \<Rightarrow> bool) \<Rightarrow> nat \<Rightarrow> nat \<Rightarrow> nat list \<Rightarrow> nat \<Rightarrow> nat list \<Rightarrow> nat list" where
  "cover m per cap [] covered sel = sel"
| "cover m per cap (i # is) covered sel =
     (if per \<le> covered \<or> cap \<le> length sel then sel
      else if i \<in> set sel \<or> \<not> m i then cover m per cap is covered sel
      else cover m per cap is (Suc covered) (sel @ [i]))"

fun cover_groups :: "(nat \<Rightarrow> bool) list \<Rightarrow> nat \<Rightarrow> nat \<Rightarrow> nat \<Rightarrow> nat list \<Rightarrow> nat list" where
  "cover_groups [] per cap n sel = sel"
| "cover_groups (m # ms) per cap n sel =
     cover_groups ms per cap n (cover m per cap [0..<n] (length (filter m sel)) sel)"

fun fill_pool :: "nat \<Rightarrow> nat list \<Rightarrow> nat list \<Rightarrow> nat list" where
  "fill_pool cap [] sel = sel"
| "fill_pool cap (i # is) sel =
     (if cap \<le> length sel then sel else fill_pool cap is (if i \<in> set sel then sel else sel @ [i]))"

definition pick :: "nat list \<Rightarrow> 'a list \<Rightarrow> 'a list" where
  "pick sel xs = map snd (filter (\<lambda>(i, _). i \<in> set sel) (enumerate 0 xs))"

section \<open>Fusion\<close>

definition set_default :: "string \<Rightarrow> json \<Rightarrow> jdict \<Rightarrow> jdict" where
  "set_default k v d = (if map_of d k = None then d @ [(k, v)] else d)"

fun update_dict :: "jdict \<Rightarrow> jdict \<Rightarrow> jdict" where
  "update_dict [] d = d"
| "update_dict ((k, v) # kvs) d = update_dict kvs (jset k v d)"

definition real_json :: "real \<Rightarrow> json" where
  "real_json r = JFloat (Fin r)"

definition fusion_fields :: "candidate \<Rightarrow> jdict" where
  "fusion_fields c =
     [(''query_fusion_score'', real_json (fusion_score c)),
      (''query_hit_count'', JInt (int (length (cd_queries c)))),
      (''matched_queries'', JArr (map JStr (cd_queries c))),
      (''matched_channels'', JArr (map JStr (cd_channels c))),
      (''channel_contributions'', JObj (map (\<lambda>(ch, s). (ch, real_json s)) (cd_channel_scores c))),
      (''matched_requirement_ids'', JArr (map JStr (cd_requirements c))),
      (''best_query_rank'', JInt (int (cd_best_rank c))),
      (''original_query_hit'', JBool (cd_original_hit c)),
      (''retrieval_round'', JInt (cd_round c))]
     @ (if cd_distances c = [] then [] else [(''distance'', real_json (Min (set (cd_distances c))))])
     @ (if cd_bm25 c = [] then [] else [(''bm25_score'', real_json (Max (set (cd_bm25 c))))])"

definition materialize_candidate :: "candidate \<Rightarrow> json res" where
  "materialize_candidate c =
     (case cd_best c of
        None \<Rightarrow> Inl (RuntimeError ''fused candidate has no source occurrence'')
      | Some doc \<Rightarrow>
          let d0 = (case jfield doc ''retrieval'' of JObj d \<Rightarrow> d | _ \<Rightarrow> []);
              d1 = set_default ''search_channel'' (JStr (cd_best_channel c)) d0;
              d2 = (if cd_best_original c then jpop ''rewrite_query'' d1
                    else if cd_best_query c \<noteq> [] then jset ''rewrite_query'' (JStr (cd_best_query c)) d1 else d1)
          in Inr (jput ''retrieval'' (JObj (update_dict (fusion_fields c) d2)) doc))"

fun materialize_all :: "candidate list \<Rightarrow> json list res" where
  "materialize_all [] = Inr []"
| "materialize_all (c # cs) =
     bindR (materialize_candidate c) (\<lambda>d. bindR (materialize_all cs) (\<lambda>ds. Inr (d # ds)))"

text \<open>The cut to \<open>top_n\<close> with the minimum per channel.\<close>

definition cut_candidates :: "ranking list \<Rightarrow> nat \<Rightarrow> nat \<Rightarrow> candidate list \<Rightarrow> candidate list" where
  "cut_candidates rs topn per cs =
     (if length cs \<le> topn then cs
      else
        let channels = append_unique [] (map rk_channel rs);
            groups = map (\<lambda>ch i. ch \<in> set (cd_channels (cs ! i))) channels;
            sel = (if per = 0 then [] else cover_groups groups per topn (length cs) [])
        in pick (fill_pool topn [0..<length cs] sel) cs)"

definition fuse_ranked_candidates :: "(json \<Rightarrow> string) \<Rightarrow> ranking list \<Rightarrow> pyfloat \<Rightarrow> int option \<Rightarrow> int \<Rightarrow> json list res" where
  "fuse_ranked_candidates rep rs k topn per =
     (if \<not> isfinite k \<or> fin_val k < 0 then Inl (ValueError ''rrf_k must be a finite non-negative number'')
      else if (case topn of None \<Rightarrow> False | Some n \<Rightarrow> n < 0) then Inl (ValueError ''top_n must be non-negative or None'')
      else if per < 0 then Inl (ValueError ''per_channel_min must be non-negative'')
      else if topn = Some 0 then Inr []
      else bindR (rank_all rep (fin_val k) 0 rs []) (\<lambda>cs.
        let ordered = ordered_candidates cs
        in materialize_all (case topn of None \<Rightarrow> ordered | Some n \<Rightarrow> cut_candidates rs (nat n) (nat per) ordered)))"

section \<open>The pool for reranking\<close>

definition string_set :: "(json \<Rightarrow> string) \<Rightarrow> json \<Rightarrow> string list" where
  "string_set rep v =
     (case v of JArr xs \<Rightarrow> filter (\<lambda>s. s \<noteq> []) (map (\<lambda>x. py_strip (py_str rep x)) xs) | _ \<Rightarrow> [])"

definition matched_requirement_ids :: "(json \<Rightarrow> string) \<Rightarrow> json \<Rightarrow> string list" where
  "matched_requirement_ids rep doc = string_set rep (jfield (jfield doc ''retrieval'') ''matched_requirement_ids'')"

definition matched_channels :: "(json \<Rightarrow> string) \<Rightarrow> json \<Rightarrow> string list" where
  "matched_channels rep doc = string_set rep (jfield (jfield doc ''retrieval'') ''matched_channels'')"

definition pool_channels :: "(json \<Rightarrow> string) \<Rightarrow> json list \<Rightarrow> string list" where
  "pool_channels rep docs = append_unique [] (concat (map (\<lambda>d. sort (remdups (matched_channels rep d))) docs))"

definition select_rerank_candidates :: "(json \<Rightarrow> string) \<Rightarrow> json list \<Rightarrow> int \<Rightarrow> string list \<Rightarrow> int \<Rightarrow> int \<Rightarrow> json list res" where
  "select_rerank_candidates rep docs limit reqs per_req per_chan =
     (if limit < 0 then Inl (ValueError ''max_candidates must be non-negative'')
      else if per_req < 0 then Inl (ValueError ''per_requirement must be non-negative'')
      else if per_chan < 0 then Inl (ValueError ''per_channel must be non-negative'')
      else if limit = 0 then Inr []
      else
        let n = length docs;
            rgroups = map (\<lambda>q i. q \<in> set (matched_requirement_ids rep (docs ! i))) (append_unique [] reqs);
            cgroups = map (\<lambda>ch i. ch \<in> set (matched_channels rep (docs ! i))) (pool_channels rep docs);
            s1 = cover_groups rgroups (nat per_req) (nat limit) n [];
            s2 = cover_groups cgroups (nat per_chan) (nat limit) n s1
        in Inr (pick (fill_pool (nat limit) [0..<n] s2) docs))"

end
