(* ===== verification/Retrieval_Props.thy ===== *)
theory Retrieval_Props
  imports Retrieval_Fusion "HOL-Library.Sublist" "HOL-Library.Multiset"
begin

text \<open>
  What fusion and the rerank pool promise: the fused list is exactly the reference ranking by reciprocal-rank scores,
  and the pool is bounded, keeps the order, and starves neither a requirement nor a channel while it has room for all
  of their shares.
\<close>

declare map_of_append [simp del]

section \<open>Shares\<close>

text \<open>The group \<open>m\<close> has its share in the pool: \<open>per\<close> members, or all it has below \<open>n\<close>.\<close>

definition has_share :: "(nat \<Rightarrow> bool) \<Rightarrow> nat \<Rightarrow> nat \<Rightarrow> nat list \<Rightarrow> bool" where
  "has_share m per n sel \<longleftrightarrow> per \<le> length (filter m sel) \<or> {i. i < n \<and> m i} \<subseteq> set sel"

lemma cover_extends:
  "\<exists>ys. cover m per cap is cov sel = sel @ ys \<and> set ys \<subseteq> set is \<and> (\<forall>i \<in> set ys. m i) \<and>
     (distinct sel \<longrightarrow> distinct (sel @ ys)) \<and> length ys \<le> per - cov \<and> (length sel \<le> cap \<longrightarrow> length (sel @ ys) \<le> cap) \<and>
     (per \<le> cov + length ys \<or> cap \<le> length (sel @ ys) \<or> {i \<in> set is. m i} \<subseteq> set (sel @ ys))"
proof (induction m per cap "is" cov sel rule: cover.induct)
  case (2 m per cap i "is" cov sel)
  show ?case
  proof (cases "per \<le> cov \<or> cap \<le> length sel")
    case False
    show ?thesis
    proof (cases "i \<in> set sel \<or> \<not> m i")
      case True
      from 2(1) [OF False True] obtain ys where "cover m per cap is cov sel = sel @ ys" "set ys \<subseteq> set is"
        "\<forall>i \<in> set ys. m i" "distinct sel \<longrightarrow> distinct (sel @ ys)" "length ys \<le> per - cov"
        "length sel \<le> cap \<longrightarrow> length (sel @ ys) \<le> cap"
        "per \<le> cov + length ys \<or> cap \<le> length (sel @ ys) \<or> {i \<in> set is. m i} \<subseteq> set (sel @ ys)" by blast
      with False True show ?thesis by (intro exI [of _ ys]) auto
    next
      case add: False
      from 2(2) [OF False add] obtain ys where ys: "cover m per cap is (Suc cov) (sel @ [i]) = (sel @ [i]) @ ys"
        "set ys \<subseteq> set is" "\<forall>i \<in> set ys. m i" "distinct (sel @ [i]) \<longrightarrow> distinct ((sel @ [i]) @ ys)" "length ys \<le> per - Suc cov"
        "length (sel @ [i]) \<le> cap \<longrightarrow> length ((sel @ [i]) @ ys) \<le> cap"
        "per \<le> Suc cov + length ys \<or> cap \<le> length ((sel @ [i]) @ ys) \<or> {i \<in> set is. m i} \<subseteq> set ((sel @ [i]) @ ys)" by blast
      from False add have "cover m per cap (i # is) cov sel = sel @ (i # ys)" by (simp add: ys(1))
      then show ?thesis using ys(2-) False add by (intro exI [of _ "i # ys"]) auto
    qed
  qed auto
qed simp

lemma cover_group:
  assumes "distinct sel" and "set sel \<subseteq> {..<n}" and "length sel + per \<le> cap"
  shows "\<exists>ys. cover m per cap [0..<n] (length (filter m sel)) sel = sel @ ys \<and> distinct (sel @ ys) \<and> set (sel @ ys) \<subseteq> {..<n} \<and>
    length ys \<le> per \<and> has_share m per n (sel @ ys)"
proof -
  from cover_extends [of m per cap "[0..<n]" "length (filter m sel)" sel] obtain ys where
    ys: "cover m per cap [0..<n] (length (filter m sel)) sel = sel @ ys" "set ys \<subseteq> {..<n}" "\<forall>i \<in> set ys. m i"
      "distinct (sel @ ys)" "length ys \<le> per - length (filter m sel)"
      "per \<le> length (filter m sel) + length ys \<or> cap \<le> length (sel @ ys) \<or> {i \<in> set [0..<n]. m i} \<subseteq> set (sel @ ys)"
    using assms(1) unfolding set_upt atLeast0LessThan by blast
  have "filter m ys = ys" using ys(3) by simp
  with ys(5,6) assms(3) have "has_share m per n (sel @ ys)" by (auto simp: has_share_def)
  with ys assms(2) show ?thesis by (intro exI [of _ ys]) auto
qed

lemma has_share_mono: "has_share m per n sel \<Longrightarrow> has_share m per n (sel @ ys)"
  by (auto simp: has_share_def)

lemma cover_any:
  assumes "distinct sel" and "set sel \<subseteq> {..<n}" and "length sel \<le> cap"
  shows "\<exists>ys. cover_groups ms per cap n sel = sel @ ys \<and> distinct (sel @ ys) \<and> set (sel @ ys) \<subseteq> {..<n} \<and>
    length (sel @ ys) \<le> cap"
  using assms
proof (induction ms arbitrary: sel)
  case (Cons m ms)
  from cover_extends [of m per cap "[0..<n]" "length (filter m sel)" sel] Cons.prems obtain ys where
    ys: "cover m per cap [0..<n] (length (filter m sel)) sel = sel @ ys" "set (sel @ ys) \<subseteq> {..<n}"
      "distinct (sel @ ys)" "length (sel @ ys) \<le> cap" unfolding set_upt atLeast0LessThan set_append by blast
  from Cons.IH [OF ys(3,2,4)] show ?case by (auto simp: ys(1))
qed simp

lemma cover_all:
  assumes "distinct sel" and "set sel \<subseteq> {..<n}" and "length sel + length ms * per \<le> cap"
  shows "\<exists>ys. cover_groups ms per cap n sel = sel @ ys \<and> distinct (sel @ ys) \<and> set (sel @ ys) \<subseteq> {..<n} \<and>
    length ys \<le> length ms * per \<and> (\<forall>m \<in> set ms. has_share m per n (sel @ ys))"
  using assms
proof (induction ms arbitrary: sel)
  case (Cons m ms)
  from cover_group [of sel n per cap m] Cons.prems obtain ys where
    ys: "cover m per cap [0..<n] (length (filter m sel)) sel = sel @ ys" "distinct (sel @ ys)" "set (sel @ ys) \<subseteq> {..<n}"
      "length ys \<le> per" "has_share m per n (sel @ ys)" by auto
  from Cons.IH [OF ys(2,3)] Cons.prems ys(4) obtain zs where
    zs: "cover_groups ms per cap n (sel @ ys) = (sel @ ys) @ zs" "distinct ((sel @ ys) @ zs)" "set ((sel @ ys) @ zs) \<subseteq> {..<n}"
      "length zs \<le> length ms * per" "\<forall>m \<in> set ms. has_share m per n ((sel @ ys) @ zs)" by auto
  have "has_share m per n ((sel @ ys) @ zs)" using ys(5) by (rule has_share_mono)
  with ys zs show ?case by (intro exI [of _ "ys @ zs"]) auto
qed simp

lemma fill_extends: "\<exists>ys. fill_pool cap is sel = sel @ ys \<and> set ys \<subseteq> set is \<and> (distinct sel \<longrightarrow> distinct (sel @ ys))"
proof (induction cap "is" sel rule: fill_pool.induct)
  case (2 cap i "is" sel)
  show ?case
  proof (cases "cap \<le> length sel")
    case False
    from 2(1) [OF False] obtain ys where ys:
      "fill_pool cap is (if i \<in> set sel then sel else sel @ [i]) = (if i \<in> set sel then sel else sel @ [i]) @ ys" "set ys \<subseteq> set is"
      "distinct (if i \<in> set sel then sel else sel @ [i]) \<longrightarrow> distinct ((if i \<in> set sel then sel else sel @ [i]) @ ys)" by blast
    with False show ?thesis
      by (cases "i \<in> set sel") (auto intro!: exI [of _ ys] exI [of _ "i # ys"])
  qed auto
qed simp

lemma fill_length: "distinct sel \<Longrightarrow> length sel \<le> cap \<Longrightarrow> length (fill_pool cap is sel) = min cap (card (set sel \<union> set is))"
proof (induction cap "is" sel rule: fill_pool.induct)
  case (1 cap sel)
  then show ?case by (simp add: distinct_card min_def)
next
  case (2 cap i "is" sel)
  show ?case
  proof (cases "cap \<le> length sel")
    case True
    moreover have "card (set sel) \<le> card (set sel \<union> set (i # is))" by (rule card_mono) auto
    ultimately show ?thesis using 2(2,3) by (simp add: distinct_card)
  next
    case False
    then show ?thesis using 2(1) [OF False] 2(2,3) by (cases "i \<in> set sel") (simp_all add: insert_absorb)
  qed
qed

section \<open>Picking\<close>

lemma pick_nths: "pick sel xs = nths xs (set sel)"
proof -
  have "map snd (filter (\<lambda>(i, _). i \<in> A) (enumerate n xs)) = nths xs {i. n + i \<in> A}" for n A
    by (induction xs arbitrary: n) (simp_all add: nths_Cons)
  from this [of "set sel" 0] show ?thesis by (simp add: pick_def)
qed

lemma count_nths: "length (filter P (nths xs A)) = card {i. i < length xs \<and> i \<in> A \<and> P (xs ! i)}"
proof (induction xs rule: rev_induct)
  case (snoc x xs)
  let ?B = "{i. i < length xs \<and> i \<in> A \<and> P (xs ! i)}"
  have "{i. i < length (xs @ [x]) \<and> i \<in> A \<and> P ((xs @ [x]) ! i)} =
      ?B \<union> (if length xs \<in> A \<and> P x then {length xs} else {})"
    by (auto simp: nth_append less_Suc_eq)
  moreover have "finite ?B" by simp
  ultimately show ?case using snoc by (simp add: nths_append card_Un_disjoint)
qed simp

text \<open>A share of the pool is a share of what is picked.\<close>

lemma share_picked:
  assumes "has_share (\<lambda>i. P (xs ! i)) per (length xs) sel" and "distinct sel" and "set sel \<subseteq> {..<length xs}"
  shows "min per (length (filter P xs)) \<le> length (filter P (pick sel xs))"
proof -
  let ?S = "{i. i < length xs \<and> i \<in> set sel \<and> P (xs ! i)}"
  have S: "length (filter P (pick sel xs)) = card ?S" by (simp add: pick_nths count_nths)
  from assms(1) show ?thesis unfolding has_share_def
  proof (elim disjE)
    assume "per \<le> length (filter (\<lambda>i. P (xs ! i)) sel)"
    also have "\<dots> = card (set (filter (\<lambda>i. P (xs ! i)) sel))" using assms(2) by (simp only: distinct_card distinct_filter)
    also have "set (filter (\<lambda>i. P (xs ! i)) sel) = ?S" using assms(3) by auto
    finally show ?thesis by (simp add: S)
  next
    assume "{i. i < length xs \<and> P (xs ! i)} \<subseteq> set sel"
    then have "?S = {i. i < length xs \<and> P (xs ! i)}" by auto
    then have "length (filter P xs) = card ?S" by (simp add: length_filter_conv_card)
    then show ?thesis unfolding S by simp
  qed
qed

section \<open>The rerank pool\<close>

definition wants :: "(json \<Rightarrow> string) \<Rightarrow> string \<Rightarrow> json \<Rightarrow> bool" where
  "wants rep q d \<longleftrightarrow> q \<in> set (matched_requirement_ids rep d)"

definition from_channel :: "(json \<Rightarrow> string) \<Rightarrow> string \<Rightarrow> json \<Rightarrow> bool" where
  "from_channel rep ch d \<longleftrightarrow> ch \<in> set (matched_channels rep d)"

definition count_of :: "('a \<Rightarrow> bool) \<Rightarrow> 'a list \<Rightarrow> nat" where
  "count_of P xs = length (filter P xs)"

text \<open>The pool that \<open>select_rerank_candidates\<close> builds from the groups of the requirements and of the channels.\<close>

lemma pool_shares:
  fixes rs cs :: "(nat \<Rightarrow> bool) list" and pr pc n cap :: nat
  defines "sel \<equiv> fill_pool cap [0..<n] (cover_groups cs pc cap n (cover_groups rs pr cap n []))"
  shows "distinct sel \<and> set sel \<subseteq> {..<n} \<and> length sel = min cap n
    \<and> (length rs * pr \<le> cap \<longrightarrow> (\<forall>m \<in> set rs. has_share m pr n sel))
    \<and> (length rs * pr + length cs * pc \<le> cap \<longrightarrow> (\<forall>m \<in> set cs. has_share m pc n sel))"
proof -
  let ?s1 = "cover_groups rs pr cap n []" and ?s2 = "cover_groups cs pc cap n (cover_groups rs pr cap n [])"
  have s1: "distinct ?s1" "set ?s1 \<subseteq> {..<n}" "length ?s1 \<le> cap"
    using cover_any [of "[]" n cap rs pr] by auto
  obtain ys where ys: "?s2 = ?s1 @ ys" "distinct ?s2" "set ?s2 \<subseteq> {..<n}" "length ?s2 \<le> cap"
    using cover_any [OF s1, of cs pc] by auto
  obtain zs where zs: "sel = ?s2 @ zs" "distinct sel" "set zs \<subseteq> {..<n}"
    using fill_extends [of cap "[0..<n]" ?s2] ys(2) unfolding sel_def set_upt atLeast0LessThan by metis
  have sub: "set sel \<subseteq> {..<n}" using zs ys(3) by auto
  have "set ?s2 \<union> {..<n} = {..<n}" using ys(3) by blast
  then have "length sel = min cap n"
    using fill_length [OF ys(2,4), of "[0..<n]"] by (simp add: sel_def atLeast0LessThan)
  moreover have "has_share m pr n sel" if "length rs * pr \<le> cap" "m \<in> set rs" for m
  proof -
    have "has_share m pr n ?s1" using cover_all [of "[]" n rs pr cap] that by auto
    then show ?thesis unfolding zs(1) ys(1) by (intro has_share_mono)
  qed
  moreover have "has_share m pc n sel" if "length rs * pr + length cs * pc \<le> cap" "m \<in> set cs" for m
  proof -
    have "length ?s1 + length cs * pc \<le> cap" using cover_all [of "[]" n rs pr cap] that(1) by auto
    from cover_all [OF s1(1,2) this] that(2) have "has_share m pc n ?s2" by auto
    then show ?thesis unfolding zs(1) by (rule has_share_mono)
  qed
  ultimately show ?thesis using zs(2) sub by blast
qed

text \<open>C32. The rerank pool starves nobody.  A pool that is returned keeps the order of the candidates and holds as many
  as the limit allows.  When the limit has room for \<open>per_requirement\<close> candidates of every requirement, each requirement
  has that many in the pool, or all there are; when there is also room for \<open>per_channel\<close> of every channel, each channel
  has its share too.\<close>

theorem rerank_pool_fair:
  assumes "select_rerank_candidates rep docs limit reqs per_req per_chan = Inr pool"
  shows "subseq pool docs \<and> length pool = min (nat limit) (length docs)
    \<and> (int (length (append_unique [] reqs)) * per_req \<le> limit \<longrightarrow>
        (\<forall>q \<in> set (append_unique [] reqs). min (nat per_req) (count_of (wants rep q) docs) \<le> count_of (wants rep q) pool))
    \<and> (int (length (append_unique [] reqs)) * per_req + int (length (pool_channels rep docs)) * per_chan \<le> limit \<longrightarrow>
        (\<forall>ch \<in> set (pool_channels rep docs).
           min (nat per_chan) (count_of (from_channel rep ch) docs) \<le> count_of (from_channel rep ch) pool))"
proof -
  from assms have nonneg: "0 \<le> limit" "0 \<le> per_req" "0 \<le> per_chan"
    by (auto simp: select_rerank_candidates_def split: if_splits)
  define rs where "rs = append_unique [] reqs"
  define cs where "cs = pool_channels rep docs"
  define rg where "rg = map (\<lambda>q i. wants rep q (docs ! i)) rs"
  define cg where "cg = map (\<lambda>ch i. from_channel rep ch (docs ! i)) cs"
  define sel where "sel = fill_pool (nat limit) [0..<length docs]
    (cover_groups cg (nat per_chan) (nat limit) (length docs) (cover_groups rg (nat per_req) (nat limit) (length docs) []))"
  note pool = pool_shares [of "nat limit" "length docs" cg "nat per_chan" rg "nat per_req", folded sel_def]
  then have sel: "distinct sel" "set sel \<subseteq> {..<length docs}" "length sel = min (nat limit) (length docs)" by blast+
  have out: "pool = pick sel docs"
  proof (cases "limit = 0")
    case True
    with assms sel(3) show ?thesis by (simp add: select_rerank_candidates_def pick_nths split: if_splits)
  next
    case False
    with assms nonneg show ?thesis
      by (simp add: select_rerank_candidates_def Let_def sel_def rg_def cg_def rs_def cs_def wants_def from_channel_def)
  qed
  have room: "(int (length xs) * p \<le> l) = (length xs * nat p \<le> nat l)" if "0 \<le> p" "0 \<le> l" for xs :: "string list" and p l
    using that by (simp add: nat_le_iff nat_mult_distrib le_nat_iff)
  have room2: "(int (length xs) * p + int (length ys) * q \<le> l) = (length xs * nat p + length ys * nat q \<le> nat l)"
    if "0 \<le> p" "0 \<le> q" "0 \<le> l" for xs ys :: "string list" and p q l
    using that by (simp add: le_nat_iff)
  have "subseq pool docs" unfolding out pick_nths by (simp add: subseq_conv_nths) blast
  moreover have "length pool = min (nat limit) (length docs)"
  proof -
    have "{i. i < length docs \<and> i \<in> set sel} = set sel" using sel(2) by auto
    then show ?thesis using sel(1,3) by (simp add: out pick_nths length_nths distinct_card)
  qed
  moreover have "min (nat per_req) (count_of (wants rep q) docs) \<le> count_of (wants rep q) pool"
    if "int (length rs) * per_req \<le> limit" "q \<in> set rs" for q
    unfolding count_of_def out
  proof (rule share_picked [OF _ sel(1,2)])
    show "has_share (\<lambda>i. wants rep q (docs ! i)) (nat per_req) (length docs) sel"
      using pool that nonneg by (auto simp: room rg_def)
  qed
  moreover have "min (nat per_chan) (count_of (from_channel rep ch) docs) \<le> count_of (from_channel rep ch) pool"
    if "int (length rs) * per_req + int (length cs) * per_chan \<le> limit" "ch \<in> set cs" for ch
    unfolding count_of_def out
  proof (rule share_picked [OF _ sel(1,2)])
    show "has_share (\<lambda>i. from_channel rep ch (docs ! i)) (nat per_chan) (length docs) sel"
      using pool that nonneg by (auto simp: room2 rg_def cg_def)
  qed
  ultimately show ?thesis unfolding rs_def cs_def by blast
qed

section \<open>Reciprocal-rank scores\<close>

text \<open>The reference: the rank of a chunk in a ranking is one more than the number of distinct chunks before its first
  occurrence, and its score is the sum of \<open>weight / (k + rank)\<close> over the rankings it occurs in.\<close>

definition doc_id :: "(json \<Rightarrow> string) \<Rightarrow> json \<Rightarrow> string" where
  "doc_id rep doc = py_strip (str_or_empty rep (jfield (jfield doc ''meta'') ''chunk_id''))"

definition rank_of :: "string \<Rightarrow> string list \<Rightarrow> nat" where
  "rank_of i xs = Suc (card (set (takeWhile (\<lambda>x. x \<noteq> i) xs)))"

definition weight :: "ranking \<Rightarrow> real" where
  "weight r = fin_val (rk_weight r)"

definition ranked_ids :: "(json \<Rightarrow> string) \<Rightarrow> ranking \<Rightarrow> string list" where
  "ranked_ids rep r = (if weight r = 0 then [] else map (doc_id rep) (rk_docs r))"

definition rrf_share :: "(json \<Rightarrow> string) \<Rightarrow> real \<Rightarrow> string \<Rightarrow> ranking \<Rightarrow> real" where
  "rrf_share rep k i r = (if i \<in> set (ranked_ids rep r) then weight r / (k + real (rank_of i (ranked_ids rep r))) else 0)"

definition rrf_score :: "(json \<Rightarrow> string) \<Rightarrow> real \<Rightarrow> ranking list \<Rightarrow> string \<Rightarrow> real" where
  "rrf_score rep k rs i = sum_list (map (rrf_share rep k i) rs)"

lemma chunk_id_Inr: "candidate_chunk_id rep doc = Inr i \<longleftrightarrow> doc_id rep doc = i \<and> i \<noteq> []"
  by (auto simp: candidate_chunk_id_def doc_id_def Let_def)

text \<open>What the loop knows of its candidates: the keys are distinct, each candidate carries its own identifier and a
  document with that identifier, and its contributions add up to the score \<open>f\<close>.\<close>

definition ranked :: "(json \<Rightarrow> string) \<Rightarrow> (string \<Rightarrow> real) \<Rightarrow> string set \<Rightarrow> candidates \<Rightarrow> bool" where
  "ranked rep f ids cs \<longleftrightarrow> distinct (map fst cs) \<and> set (map fst cs) = ids \<and> [] \<notin> ids \<and>
     (\<forall>i c. map_of cs i = Some c \<longrightarrow> cd_id c = i \<and> (\<exists>d. cd_best c = Some d \<and> doc_id rep d = i) \<and> fusion_score c = f i) \<and>
     (\<forall>i. i \<notin> ids \<longrightarrow> f i = 0)"

lemma ranked_cong: "ranked rep f ids cs \<Longrightarrow> (\<And>i. f i = g i) \<Longrightarrow> ids = jds \<Longrightarrow> ranked rep g jds cs"
  by (simp add: ranked_def)

lemma add_occurrence_facts:
  assumes "add_occurrence k idx r rank doc c = Inr c'"
  shows "cd_id c' = cd_id c \<and> fusion_score c' = fusion_score c + weight r / (k + real rank) \<and>
     (cd_best c' = Some doc \<or> cd_best c' = cd_best c \<and> cd_best c \<noteq> None)"
proof (cases "is_better_occurrence c rank (rk_original r) idx")
  case True
  with assms show ?thesis by (auto simp: add_occurrence_def Let_def fusion_score_def weight_def is_better_occurrence_def)
next
  case False
  moreover from this have "cd_best c \<noteq> None" by (simp add: is_better_occurrence_def)
  ultimately show ?thesis using assms by (auto simp: add_occurrence_def Let_def fusion_score_def weight_def is_better_occurrence_def)
qed

lemma ranked_add:
  assumes "ranked rep f ids cs" and "add_occurrence k idx r rank doc (candidate_at i cs) = Inr c" and "doc_id rep doc = i" "i \<noteq> []"
  shows "ranked rep (f(i := f i + weight r / (k + real rank))) (insert i ids) (jset i c cs)"
proof -
  have at: "cd_id (candidate_at i cs) = i \<and> fusion_score (candidate_at i cs) = f i \<and>
    (cd_best (candidate_at i cs) = None \<or> (\<exists>d. cd_best (candidate_at i cs) = Some d \<and> doc_id rep d = i))"
  proof (cases "map_of cs i")
    case None
    with assms(1) have "f i = 0" by (auto simp: ranked_def map_of_eq_None_iff)
    with None show ?thesis by (simp add: candidate_at_def new_candidate_def fusion_score_def)
  next
    case (Some x)
    with assms(1) show ?thesis by (simp add: candidate_at_def ranked_def)
  qed
  with add_occurrence_facts [OF assms(2)] assms(3)
  have c: "cd_id c = i" "fusion_score c = f i + weight r / (k + real rank)" "\<exists>d. cd_best c = Some d \<and> doc_id rep d = i" by auto
  show ?thesis
    using assms(1,4) c unfolding ranked_def map_of_jset keys_jset
    by (auto simp only: distinct_jset fun_upd_apply option.inject split: if_splits)
qed

text \<open>What the rest \<open>xs\<close> of a ranking adds to the score of \<open>i\<close> when the chunks \<open>seen\<close> have been passed.\<close>

definition gain :: "real \<Rightarrow> ranking \<Rightarrow> string list \<Rightarrow> string list \<Rightarrow> string \<Rightarrow> real" where
  "gain k r xs seen i =
     (if i \<in> set xs \<and> i \<notin> set seen then weight r / (k + real (Suc (card (set seen \<union> set (takeWhile (\<lambda>x. x \<noteq> i) xs))))) else 0)"

lemma gain_seen:
  assumes "i \<in> set seen"
  shows "gain k r (i # xs) seen j = gain k r xs seen j"
proof (cases "j \<in> set seen")
  case False
  with assms have "set seen \<union> set (takeWhile (\<lambda>x. x \<noteq> j) (i # xs)) = set seen \<union> set (takeWhile (\<lambda>x. x \<noteq> j) xs)" by auto
  moreover have "j \<in> set (i # xs) \<longleftrightarrow> j \<in> set xs" using assms False by auto
  ultimately show ?thesis unfolding gain_def by presburger
qed (simp add: gain_def)

lemma gain_new:
  assumes "i \<notin> set seen" and "distinct seen"
  shows "gain k r (i # xs) seen j = (if j = i then weight r / (k + real (Suc (length seen))) else gain k r xs (i # seen) j)"
  using assms by (auto simp: gain_def distinct_card)

lemma rank_docs_scores:
  assumes "rank_docs rep k idx r docs seen rank cs = Inr cs'" and "ranked rep f ids cs"
    and "distinct seen" and "rank = length seen"
  shows "ranked rep (\<lambda>i. f i + gain k r (map (doc_id rep) docs) seen i) (ids \<union> (set (map (doc_id rep) docs) - set seen)) cs'"
  using assms
proof (induction docs arbitrary: seen rank cs f ids)
  case Nil
  then show ?case by (simp add: gain_def)
next
  case (Cons doc docs)
  from Cons.prems(1) obtain i where i: "doc_id rep doc = i" "i \<noteq> []" by (auto simp: chunk_id_Inr)
  then have cid: "candidate_chunk_id rep doc = Inr i" by (simp add: chunk_id_Inr)
  show ?case
  proof (cases "i \<in> set seen")
    case True
    with Cons.prems(1) cid have "rank_docs rep k idx r docs seen rank cs = Inr cs'" by simp
    from Cons.IH [OF this Cons.prems(2-4)] show ?thesis
      by (rule ranked_cong) (use True i(1) in \<open>auto simp: gain_seen\<close>)
  next
    case False
    from Cons.prems(1) cid False obtain c where c: "add_occurrence k idx r (Suc rank) doc (candidate_at i cs) = Inr c"
      "rank_docs rep k idx r docs (i # seen) (Suc rank) (jset i c cs) = Inr cs'" by auto
    have "distinct (i # seen)" "Suc rank = length (i # seen)" using False Cons.prems by simp_all
    from Cons.IH [OF c(2) ranked_add [OF Cons.prems(2) c(1) i] this] show ?thesis
    proof (rule ranked_cong)
      fix j
      have "gain k r (map (doc_id rep) docs) (i # seen) i = 0" by (simp add: gain_def)
      then show "(f(i := f i + weight r / (k + real (Suc rank)))) j + gain k r (map (doc_id rep) docs) (i # seen) j =
          f j + gain k r (map (doc_id rep) (doc # docs)) seen j"
        using gain_new [OF False Cons.prems(3), of k r "map (doc_id rep) docs" j] Cons.prems(4) i(1) by simp
    qed (use False i(1) in auto)
  qed
qed

lemma rank_all_scores:
  assumes "rank_all rep k idx rs cs = Inr cs'" and "ranked rep f ids cs"
  shows "ranked rep (\<lambda>i. f i + rrf_score rep k rs i) (ids \<union> (\<Union>r \<in> set rs. set (ranked_ids rep r))) cs'"
  using assms
proof (induction rs arbitrary: idx cs f ids)
  case (Cons r rs)
  show ?case
  proof (cases "weight r = 0")
    case True
    with Cons.prems(1) have "rank_all rep k (Suc idx) rs cs = Inr cs'" by (auto simp: weight_def split: if_splits)
    from Cons.IH [OF this Cons.prems(2)] show ?thesis
      by (rule ranked_cong) (use True in \<open>auto simp: rrf_score_def rrf_share_def ranked_ids_def\<close>)
  next
    case False
    with Cons.prems(1) obtain c where c: "rank_docs rep k idx r (rk_docs r) [] 0 cs = Inr c"
      "rank_all rep k (Suc idx) rs c = Inr cs'" by (auto simp: weight_def split: if_splits)
    have "ranked rep (\<lambda>i. f i + rrf_share rep k i r) (ids \<union> set (ranked_ids rep r)) c"
      by (rule ranked_cong [OF rank_docs_scores [OF c(1) Cons.prems(2)]])
        (use False in \<open>auto simp: gain_def rrf_share_def ranked_ids_def rank_of_def\<close>)
    from Cons.IH [OF c(2) this] show ?thesis
      by (rule ranked_cong) (auto simp: rrf_score_def)
  qed
qed (simp add: rrf_score_def)

section \<open>Fusion\<close>

lemma map_of_update_dict:
  "map_of (update_dict kvs d) x = (case map_of (rev kvs) x of None \<Rightarrow> map_of d x | Some v \<Rightarrow> Some v)"
  by (induction kvs d rule: update_dict.induct) (auto simp: map_of_jset map_of_append map_add_def split: option.split)

lemma doc_id_obj: "doc_id rep doc \<noteq> [] \<Longrightarrow> is_obj doc"
  by (cases doc) (auto simp: doc_id_def jfield_def str_or_empty_def py_strip_def)

lemma materialized:
  assumes "materialize_candidate c = Inr d" and "cd_best c = Some doc" and "doc_id rep doc \<noteq> []"
  shows "doc_id rep d = doc_id rep doc \<and> jfield (jfield d ''retrieval'') ''query_fusion_score'' = real_json (fusion_score c)"
proof -
  from doc_id_obj [OF assms(3)] obtain m where m: "doc = JObj m" by (cases doc) auto
  from assms(1,2) obtain base where d: "d = jput ''retrieval'' (JObj (update_dict (fusion_fields c) base)) (JObj m)"
    by (auto simp: materialize_candidate_def m Let_def)
  have "map_of (update_dict (fusion_fields c) base) ''query_fusion_score'' = Some (real_json (fusion_score c))"
    by (simp add: map_of_update_dict fusion_fields_def map_of_append map_add_def map_of_jset)
  then show ?thesis by (simp add: d m doc_id_def jfield_jput) (simp add: jfield_def)
qed

lemma materialize_all_Inr: "materialize_all cs = Inr ds \<longleftrightarrow> list_all2 (\<lambda>c d. materialize_candidate c = Inr d) cs ds"
  by (induction cs arbitrary: ds) (auto simp: list_all2_Cons1)

lemma ordered_facts:
  assumes "ranked rep f ids cs"
  shows "distinct (map cd_id (ordered_candidates cs))" "set (map cd_id (ordered_candidates cs)) = ids"
    "sorted (map (\<lambda>c. (- fusion_score c, cd_id c)) (ordered_candidates cs))"
    "\<And>c. c \<in> set (ordered_candidates cs) \<Longrightarrow> cd_id c \<noteq> [] \<and> fusion_score c = f (cd_id c) \<and> (\<exists>d. cd_best c = Some d \<and> doc_id rep d = cd_id c)"
proof -
  have row: "cd_id c = i \<and> (\<exists>d. cd_best c = Some d \<and> doc_id rep d = i) \<and> fusion_score c = f i \<and> i \<noteq> []" if "(i, c) \<in> set cs" for i c
  proof -
    have "distinct (map fst cs)" "set (map fst cs) = ids" "[] \<notin> ids" using assms by (simp_all only: ranked_def simp_thms)
    moreover have "i \<in> set (map fst cs)" using that by force
    ultimately have "map_of cs i = Some c" "i \<noteq> []" using that by (metis map_of_is_SomeI, metis)
    with assms show ?thesis by (simp add: ranked_def)
  qed
  have ids: "map cd_id (map snd cs) = map fst cs" unfolding map_map by (rule map_cong) (use row in force)+
  have "mset (map cd_id (ordered_candidates cs)) = mset (map fst cs)"
    unfolding ids [symmetric] by (simp only: ordered_candidates_def mset_map mset_sort)
  then show "distinct (map cd_id (ordered_candidates cs))" "set (map cd_id (ordered_candidates cs)) = ids"
    using assms by (metis mset_eq_imp_distinct_iff ranked_def, metis mset_eq_setD ranked_def)
  show "sorted (map (\<lambda>c. (- fusion_score c, cd_id c)) (ordered_candidates cs))" by (simp add: ordered_candidates_def)
  show "cd_id c \<noteq> [] \<and> fusion_score c = f (cd_id c) \<and> (\<exists>d. cd_best c = Some d \<and> doc_id rep d = cd_id c)"
    if "c \<in> set (ordered_candidates cs)" for c
  proof -
    from that obtain i where "(i, c) \<in> set cs" by (auto simp: ordered_candidates_def)
    from row [OF this] show ?thesis by blast
  qed
qed

lemma fusion_facts:
  assumes "fuse_ranked_candidates rep rs k None per = Inr out"
  shows "set (map (doc_id rep) out) = (\<Union>r \<in> set rs. set (ranked_ids rep r))
    \<and> sorted_wrt (\<lambda>i j. (- rrf_score rep (fin_val k) rs i, i) < (- rrf_score rep (fin_val k) rs j, j)) (map (doc_id rep) out)
    \<and> (\<forall>d \<in> set out. jfield (jfield d ''retrieval'') ''query_fusion_score'' = real_json (rrf_score rep (fin_val k) rs (doc_id rep d)))"
proof -
  let ?s = "rrf_score rep (fin_val k) rs" and ?ids = "\<Union>r \<in> set rs. set (ranked_ids rep r)"
  from assms obtain cs where cs: "rank_all rep (fin_val k) 0 rs [] = Inr cs" and "materialize_all (ordered_candidates cs) = Inr out"
    by (auto simp: fuse_ranked_candidates_def Let_def split: if_splits)
  then have all: "list_all2 (\<lambda>c d. materialize_candidate c = Inr d) (ordered_candidates cs) out" by (simp add: materialize_all_Inr)
  have "ranked rep (\<lambda>_. 0) {} []" by (simp add: ranked_def)
  from rank_all_scores [OF cs this] have r: "ranked rep ?s ?ids cs" by (rule ranked_cong) simp_all
  note o = ordered_facts [OF r]
  have doc: "doc_id rep d = cd_id c \<and> jfield (jfield d ''retrieval'') ''query_fusion_score'' = real_json (?s (cd_id c))"
    if "c \<in> set (ordered_candidates cs)" "materialize_candidate c = Inr d" for c d
  proof -
    from o(4) [OF that(1)] obtain d0 where "cd_best c = Some d0" "doc_id rep d0 = cd_id c" "cd_id c \<noteq> []" "fusion_score c = ?s (cd_id c)"
      by blast
    with materialized [OF that(2), of d0 rep] show ?thesis by simp
  qed
  have all2: "list_all2 (\<lambda>c d. doc_id rep d = cd_id c \<and>
      jfield (jfield d ''retrieval'') ''query_fusion_score'' = real_json (?s (cd_id c))) (ordered_candidates cs) out"
    using all doc by (rule list.rel_mono_strong)
  then have map: "map (doc_id rep) out = map cd_id (ordered_candidates cs)"
    by (auto simp: list_all2_conv_all_nth intro: nth_equalityI)
  have "jfield (jfield d ''retrieval'') ''query_fusion_score'' = real_json (?s (doc_id rep d))" if "d \<in> set out" for d
    using all2 that by (auto simp: list_all2_conv_all_nth in_set_conv_nth)
  moreover have "sorted_wrt (\<lambda>i j. (- ?s i, i) < (- ?s j, j)) (map cd_id (ordered_candidates cs))"
  proof -
    have "map (\<lambda>c. (- fusion_score c, cd_id c)) (ordered_candidates cs) = map (\<lambda>i. (- ?s i, i)) (map cd_id (ordered_candidates cs))"
      using o(4) by simp
    with o(3) have "sorted (map (\<lambda>i. (- ?s i, i)) (map cd_id (ordered_candidates cs)))" by metis
    moreover have "distinct (map (\<lambda>i. (- ?s i, i)) (map cd_id (ordered_candidates cs)))"
      using o(1) by (simp add: distinct_map inj_on_def)
    ultimately have "sorted_wrt (<) (map (\<lambda>i. (- ?s i, i)) (map cd_id (ordered_candidates cs)))"
      by (simp only: strict_sorted_iff)
    then show ?thesis by (simp only: sorted_wrt_map)
  qed
  ultimately show ?thesis using o(2) unfolding map by blast
qed

text \<open>The order of the rankings does not matter to which chunks are returned and in which order.\<close>

lemma rrf_score_mset: "mset rs = mset rs' \<Longrightarrow> rrf_score rep k rs i = rrf_score rep k rs' i"
  unfolding rrf_score_def by (metis mset_map sum_mset_sum_list)

lemma fusion_order_irrelevant:
  assumes "mset rs = mset rs'" and "fuse_ranked_candidates rep rs k None per = Inr out"
    and "fuse_ranked_candidates rep rs' k None per = Inr out'"
  shows "map (doc_id rep) out = map (doc_id rep) out'"
proof -
  let ?s = "rrf_score rep (fin_val k) rs" and ?key = "\<lambda>i. (- rrf_score rep (fin_val k) rs i, i)"
  have strict: "sorted (map ?key xs) \<and> distinct (map ?key xs)" if "sorted_wrt (\<lambda>i j. ?key i < ?key j) xs" for xs
    using that unfolding strict_sorted_iff [symmetric] by (simp only: sorted_wrt_map)
  have "set (map (doc_id rep) out) = set (map (doc_id rep) out')"
    using fusion_facts [OF assms(2)] fusion_facts [OF assms(3)] mset_eq_setD [OF assms(1)] by simp
  then have "map ?key (map (doc_id rep) out) = map ?key (map (doc_id rep) out')"
    using strict [OF fusion_facts [OF assms(2), THEN conjunct2, THEN conjunct1]] strict [of "map (doc_id rep) out'"]
      fusion_facts [OF assms(3), THEN conjunct2, THEN conjunct1] rrf_score_mset [OF assms(1)]
    by (intro sorted_distinct_set_unique) (simp_all only: set_map)
  then have "map snd (map ?key (map (doc_id rep) out)) = map snd (map ?key (map (doc_id rep) out'))" by (simp only:)
  then show ?thesis by (simp add: comp_def)
qed

text \<open>C33. Fusion is reciprocal-rank fusion.  When the fused list is not cut, it has one document for every chunk that
  occurs in a ranking of positive weight and no other; they come strictly by descending score, ties by chunk identifier;
  and the score written into each document is the reference one, the sum of \<open>weight / (k + rank)\<close> over all rankings,
  where repetitions of a chunk within a ranking do not count and do not take up a rank.  The list of chunks does not
  depend on the order in which queries and channels returned.\<close>

theorem fusion_is_rrf:
  assumes "fuse_ranked_candidates rep rs k None per = Inr out"
  shows "set (map (doc_id rep) out) = (\<Union>r \<in> set rs. set (ranked_ids rep r))
    \<and> sorted_wrt (\<lambda>i j. (- rrf_score rep (fin_val k) rs i, i) < (- rrf_score rep (fin_val k) rs j, j)) (map (doc_id rep) out)
    \<and> (\<forall>d \<in> set out. jfield (jfield d ''retrieval'') ''query_fusion_score'' = real_json (rrf_score rep (fin_val k) rs (doc_id rep d)))
    \<and> (\<forall>rs' out'. mset rs' = mset rs \<and> fuse_ranked_candidates rep rs' k None per = Inr out' \<longrightarrow>
        map (doc_id rep) out' = map (doc_id rep) out)"
  using fusion_facts [OF assms] fusion_order_irrelevant [OF _ _ assms] by blast

section \<open>On concrete rankings\<close>

lemma materialize_all_total: "\<forall>c \<in> set cs. cd_best c \<noteq> None \<Longrightarrow> \<exists>ds. materialize_all cs = Inr ds"
  by (induction cs) (auto simp: materialize_candidate_def Let_def)

text \<open>Nothing but the arguments and the documents can make the fusion raise.\<close>

lemma fuse_total:
  assumes "rank_all rep (fin_val k) 0 rs [] = Inr cs" and "isfinite k" and "0 \<le> fin_val k" and "0 \<le> per"
  shows "\<exists>out. fuse_ranked_candidates rep rs k None per = Inr out"
proof -
  have "ranked rep (\<lambda>_. 0) {} []" by (simp add: ranked_def)
  from ordered_facts(4) [OF rank_all_scores [OF assms(1) this]]
  have "\<exists>ds. materialize_all (ordered_candidates cs) = Inr ds" by (intro materialize_all_total) fastforce
  with assms show ?thesis by (auto simp: fuse_ranked_candidates_def Let_def not_less)
qed

definition demo_doc_of :: "string \<Rightarrow> json" where
  "demo_doc_of i = JObj [(''meta'', JObj [(''chunk_id'', JStr i)])]"

definition demo_ranking :: "string \<Rightarrow> string list \<Rightarrow> ranking" where
  "demo_ranking q is = \<lparr>rk_query = q, rk_channel = ''bm25'', rk_docs = map demo_doc_of is, rk_requirements = [],
     rk_original = True, rk_round = 0, rk_weight = Fin 1\<rparr>"

lemma demo_chunk_ids: "candidate_chunk_id rep (demo_doc_of ''a'') = Inr ''a''" "candidate_chunk_id rep (demo_doc_of ''b'') = Inr ''b''"
  "doc_id rep (demo_doc_of ''a'') = ''a''" "doc_id rep (demo_doc_of ''b'') = ''b''"
proof -
  have "py_strip ''a'' = ''a''" "py_strip ''b'' = ''b''" by code_simp+
  then show "candidate_chunk_id rep (demo_doc_of ''a'') = Inr ''a''" "candidate_chunk_id rep (demo_doc_of ''b'') = Inr ''b''"
    "doc_id rep (demo_doc_of ''a'') = ''a''" "doc_id rep (demo_doc_of ''b'') = ''b''"
    by (simp_all add: candidate_chunk_id_def doc_id_def demo_doc_of_def jfield_def str_or_empty_def)
qed

lemma demo_add: "\<exists>c'. add_occurrence k idx r rank (demo_doc_of i) c = Inr c'"
  by (simp add: add_occurrence_def Let_def finite_retrieval_float_def demo_doc_of_def jfield_def)

lemma demo_docs_total: "set is \<subseteq> {''a'', ''b''} \<Longrightarrow> \<exists>cs'. rank_docs rep k idx r (map demo_doc_of is) seen rank cs = Inr cs'"
proof (induction "is" arbitrary: seen rank cs)
  case (Cons i "is")
  then have "candidate_chunk_id rep (demo_doc_of i) = Inr i" by (auto simp: demo_chunk_ids)
  moreover obtain c where "add_occurrence k idx r (Suc rank) (demo_doc_of i) (candidate_at i cs) = Inr c" using demo_add by blast
  ultimately show ?case using Cons by simp
qed simp

lemma demo_rank_all: "\<exists>cs. rank_all rep 60 0 [demo_ranking ''q'' [''a'', ''b''], demo_ranking ''r'' [''b'']] [] = Inr cs"
proof -
  obtain c1 where "rank_docs rep 60 0 (demo_ranking ''q'' [''a'', ''b'']) (map demo_doc_of [''a'', ''b'']) [] 0 [] = Inr c1"
    using demo_docs_total [of "[''a'', ''b'']"] by (metis insert_subset list.set(1,2) empty_subsetI insertCI)
  moreover obtain c2 where "rank_docs rep 60 1 (demo_ranking ''r'' [''b'']) (map demo_doc_of [''b'']) [] 0 c1 = Inr c2"
    using demo_docs_total [of "[''b'']"] by (metis insert_subset list.set(1,2) empty_subsetI insertCI)
  ultimately show ?thesis by (simp add: demo_ranking_def del: rank_docs.simps)
qed

lemma fusion_is_rrf_witness:
  "\<exists>out. fuse_ranked_candidates (\<lambda>_. []) [demo_ranking ''q'' [''a'', ''b''], demo_ranking ''r'' [''b'']] (Fin 60) None 0 = Inr out \<and>
     set (map (doc_id (\<lambda>_. [])) out) = {''a'', ''b''}"
proof -
  obtain cs where "rank_all (\<lambda>_. []) (fin_val (Fin 60)) 0 [demo_ranking ''q'' [''a'', ''b''], demo_ranking ''r'' [''b'']] [] = Inr cs"
    using demo_rank_all by auto
  from fuse_total [OF this] obtain out where
    out: "fuse_ranked_candidates (\<lambda>_. []) [demo_ranking ''q'' [''a'', ''b''], demo_ranking ''r'' [''b'']] (Fin 60) None 0 = Inr out" by auto
  from fusion_is_rrf [OF this] have "set (map (doc_id (\<lambda>_. [])) out) = {''a'', ''b''}"
    by (auto simp: ranked_ids_def weight_def demo_ranking_def demo_chunk_ids)
  with out show ?thesis by blast
qed

definition demo_match :: "string \<Rightarrow> json" where
  "demo_match q = JObj [(''retrieval'', JObj [(''matched_requirement_ids'', JArr [JStr q])])]"

lemma rerank_pool_fair_witness:
  "\<exists>pool. select_rerank_candidates (\<lambda>_. []) [demo_match ''u1'', demo_match ''u1'', demo_match ''u2''] 2 [''u1'', ''u2''] 1 0 = Inr pool \<and>
     1 \<le> count_of (wants (\<lambda>_. []) ''u2'') pool"
proof -
  define docs where "docs = [demo_match ''u1'', demo_match ''u1'', demo_match ''u2'']"
  obtain pool where p: "select_rerank_candidates (\<lambda>_. []) docs 2 [''u1'', ''u2''] 1 0 = Inr pool"
    by (auto simp: select_rerank_candidates_def Let_def)
  have "append_unique [] [''u1'', ''u2''] = [''u1'', ''u2'']" by code_simp
  moreover have "count_of (wants (\<lambda>_. []) ''u2'') docs = 1" unfolding docs_def by code_simp
  ultimately have "1 \<le> count_of (wants (\<lambda>_. []) ''u2'') pool" using rerank_pool_fair [OF p] by auto
  with p show ?thesis unfolding docs_def by blast
qed

end
