(* ===== verification/Parent_Context.thy ===== *)
theory Parent_Context
  imports Retrieval_Fusion "HOL-Library.Multiset"
begin

text \<open>
  Parent context (\<open>tools/retriever/parent_context.py\<close>): around a retrieved chunk, the window of sibling chunks of the
  same section that is handed to the generator.  The section is used only if its chunks are complete and in order; the
  window contains the chunk and is bounded in chunks and characters.  A length is a number of code points.
\<close>

declare map_of_append [simp del]

section \<open>Documents\<close>

definition meta_text :: "(json \<Rightarrow> string) \<Rightarrow> string \<Rightarrow> json \<Rightarrow> string" where
  "meta_text rep key doc = py_strip (str_or_empty rep (jfield (jfield doc ''meta'') key))"

abbreviation chunk_id :: "(json \<Rightarrow> string) \<Rightarrow> json \<Rightarrow> string" where
  "chunk_id rep \<equiv> meta_text rep ''chunk_id''"

abbreviation parent_chunk_id :: "(json \<Rightarrow> string) \<Rightarrow> json \<Rightarrow> string" where
  "parent_chunk_id rep \<equiv> meta_text rep ''parent_chunk_id''"

text \<open>\<open>int(v)\<close>: \<open>None\<close> for the errors the code catches; an infinity raises \<open>OverflowError\<close>, which it does not.\<close>

fun int_of :: "json \<Rightarrow> int option res" where
  "int_of (JInt i) = Inr (Some i)"
| "int_of (JFloat (Fin r)) = Inr (Some (if 0 \<le> r then \<lfloor>r\<rfloor> else \<lceil>r\<rceil>))"
| "int_of (JFloat NaN) = Inr None"
| "int_of (JFloat _) = Inl OverflowError"
| "int_of (JStr s) = Inr (py_int s)"
| "int_of _ = Inr None"

definition order_value :: "string \<Rightarrow> json \<Rightarrow> int option res" where
  "order_value key doc =
     bindR (int_of (jfield (jfield doc ''meta'') key)) (\<lambda>v.
       Inr (case v of None \<Rightarrow> None | Some i \<Rightarrow> if 0 \<le> i then Some i else None))"

fun traverse :: "('a \<Rightarrow> 'b res) \<Rightarrow> 'a list \<Rightarrow> 'b list res" where
  "traverse f [] = Inr []"
| "traverse f (x # xs) = bindR (f x) (\<lambda>y. bindR (traverse f xs) (\<lambda>ys. Inr (y # ys)))"

section \<open>The siblings in order\<close>

definition order_or :: "int \<Rightarrow> string \<Rightarrow> json \<Rightarrow> int" where
  "order_or dflt key doc = (case order_value key doc of Inr (Some i) \<Rightarrow> i | _ \<Rightarrow> dflt)"

definition by_child_index :: "(json \<Rightarrow> string) \<Rightarrow> json list \<Rightarrow> json list option" where
  "by_child_index rep children =
     (let ordered = sort_key (\<lambda>d. (order_or 0 ''child_index_in_parent'' d, order_or (-1) ''chunk_index'' d, chunk_id rep d)) children
      in if map (order_or 0 ''child_index_in_parent'') ordered = map int [0..<length ordered] then Some ordered else None)"

definition by_chunk_index :: "(json \<Rightarrow> string) \<Rightarrow> json list \<Rightarrow> json list option" where
  "by_chunk_index rep children =
     (let ordered = sort_key (\<lambda>d. (order_or 0 ''chunk_index'' d, chunk_id rep d)) children;
          orders = map (order_or 0 ''chunk_index'') ordered
      in if orders = map (\<lambda>k. hd orders + int k) [0..<length ordered] then Some ordered else None)"

text \<open>The declared number of children, when any child declares one.\<close>

definition counts_ok :: "int option list \<Rightarrow> nat \<Rightarrow> bool" where
  "counts_ok counts n \<longleftrightarrow> counts = [] \<or> length counts = n \<and> length (remdups counts) = 1 \<and> hd counts = Some (int n)"

definition ordered_parent_children :: "(json \<Rightarrow> string) \<Rightarrow> json list \<Rightarrow> string \<Rightarrow> json list option res" where
  "ordered_parent_children rep chunks parent =
     (let children = filter (\<lambda>d. parent_chunk_id rep d = parent) chunks; ids = map (chunk_id rep) children in
      if children = [] then Inr None
      else if [] \<in> set ids \<or> \<not> distinct ids then Inr None
      else
        bindR (traverse (order_value ''parent_child_count'')
                 (filter (\<lambda>d. jfield (jfield d ''meta'') ''parent_child_count'' \<noteq> JNull) children)) (\<lambda>counts.
        if \<not> counts_ok counts (length children) then Inr None
        else
          bindR (traverse (order_value ''child_index_in_parent'') children) (\<lambda>child_orders.
          bindR (traverse (order_value ''chunk_index'') children) (\<lambda>chunk_orders.
          if None \<notin> set child_orders then Inr (by_child_index rep children)
          else if None \<notin> set chunk_orders then Inr (by_chunk_index rep children)
          else Inr None))))"

section \<open>The window\<close>

text \<open>Twelve and seven are the lengths of the labels \<open>_text_chars\<close> counts for the context and the section path.\<close>

definition text_chars :: "(json \<Rightarrow> string) \<Rightarrow> json \<Rightarrow> int" where
  "text_chars rep doc =
     (let context = meta_text rep ''context'' doc; path = meta_text rep ''section_path'' doc in
      int (length (str_or_empty rep (jfield doc ''text''))) + (if context \<noteq> [] then int (length context) + 12 else 0)
      + (if path \<noteq> [] then int (length path) + 7 else 0))"

definition slice :: "nat \<Rightarrow> nat \<Rightarrow> 'a list \<Rightarrow> 'a list" where
  "slice start final xs = take (final - start) (drop start xs)"

definition total_chars :: "(json \<Rightarrow> string) \<Rightarrow> json list \<Rightarrow> nat \<Rightarrow> nat \<Rightarrow> int" where
  "total_chars rep docs start final = sum_list (map (text_chars rep) (slice start final docs))"

type_synonym score = "int \<times> int \<times> int \<times> int"

definition window_score :: "(json \<Rightarrow> string) \<Rightarrow> json list \<Rightarrow> nat \<Rightarrow> nat \<Rightarrow> nat \<Rightarrow> score" where
  "window_score rep docs anchor start final =
     (int (final - start), - \<bar>(int anchor - int start) - (int final - int anchor - 1)\<bar>, total_chars rep docs start final, - int start)"

type_synonym best = "(nat \<times> nat) \<times> score"

fun scan_end :: "(json \<Rightarrow> string) \<Rightarrow> json list \<Rightarrow> nat \<Rightarrow> int \<Rightarrow> int \<Rightarrow> nat \<Rightarrow> nat list \<Rightarrow> best \<Rightarrow> best" where
  "scan_end rep docs anchor max_chunks max_chars start [] b = b"
| "scan_end rep docs anchor max_chunks max_chars start (final # ends) b =
     (if max_chunks < int (final - start) then b
      else if 1 < final - start \<and> max_chars < total_chars rep docs start final then b
      else scan_end rep docs anchor max_chunks max_chars start ends
             (let s = window_score rep docs anchor start final in if snd b < s then ((start, final), s) else b))"

definition balanced_window :: "(json \<Rightarrow> string) \<Rightarrow> json list \<Rightarrow> nat \<Rightarrow> int \<Rightarrow> int \<Rightarrow> nat \<times> nat" where
  "balanced_window rep docs anchor max_chunks max_chars =
     fst (fold (\<lambda>start. scan_end rep docs anchor max_chunks max_chars start [Suc anchor..<Suc (length docs)])
            (rev [0..<Suc anchor])
            ((anchor, Suc anchor), (1, 0, text_chars rep (docs ! anchor), - int anchor)))"

section \<open>Selection\<close>

record selection =
  ps_docs :: "json list"
  ps_fallback :: bool
  ps_reason :: string

definition fallback :: "string \<Rightarrow> selection" where
  "fallback reason = \<lparr>ps_docs = [], ps_fallback = True, ps_reason = reason\<rparr>"

datatype anchor = Anchor_Id string | Anchor_Doc json

text \<open>\<open>source_by_id\<close> and \<open>duplicate_ids\<close>\<close>

fun index_chunks :: "(json \<Rightarrow> string) \<Rightarrow> json list \<Rightarrow> (string \<times> json) list \<Rightarrow> string list \<Rightarrow> (string \<times> json) list \<times> string list" where
  "index_chunks rep [] m dups = (m, dups)"
| "index_chunks rep (d # ds) m dups =
     (let i = chunk_id rep d in
      if i = [] then index_chunks rep ds m dups
      else if map_of m i \<noteq> None then index_chunks rep ds m (i # dups)
      else index_chunks rep ds (m @ [(i, d)]) dups)"

text \<open>The rest of \<open>select_parent_context\<close>, once the anchor's identifier and document are known.\<close>

definition select_around :: "(json \<Rightarrow> string) \<Rightarrow> json list \<Rightarrow> string \<Rightarrow> json \<Rightarrow> int \<Rightarrow> int \<Rightarrow> selection res" where
  "select_around rep chunks aid out max_chunks max_chars =
     (let parent = parent_chunk_id rep out in
      if parent = [] then Inr (fallback ''missing_parent_chunk_id'')
      else bindR (ordered_parent_children rep chunks parent) (\<lambda>r.
        case r of
          None \<Rightarrow> Inr (fallback ''incomplete_parent_structure'')
        | Some ordered \<Rightarrow>
            (case filter (\<lambda>i. chunk_id rep (ordered ! i) = aid) [0..<length ordered] of
               [a] \<Rightarrow>
                 let docs = ordered[a := out] in
                 (case balanced_window rep docs a max_chunks max_chars of (start, final) \<Rightarrow>
                    Inr \<lparr>ps_docs = slice start final docs, ps_fallback = False, ps_reason = ''selected''\<rparr>)
             | _ \<Rightarrow> Inr (fallback ''incomplete_parent_structure''))))"

definition select_parent_context :: "(json \<Rightarrow> string) \<Rightarrow> json list \<Rightarrow> anchor \<Rightarrow> int \<Rightarrow> int \<Rightarrow> selection res" where
  "select_parent_context rep chunks anc max_chunks max_chars =
     (if max_chunks < 1 then Inl (ValueError ''max_chunks must be at least 1'')
      else if max_chars < 0 then Inl (ValueError ''max_chars must be non-negative'')
      else
        let (m, dups) = index_chunks rep chunks [] [];
            aid = (case anc of Anchor_Id s \<Rightarrow> py_strip s | Anchor_Doc d \<Rightarrow> chunk_id rep d)
        in if aid = [] then Inr (fallback ''missing_anchor_chunk_id'')
           else (case map_of m aid of
                   None \<Rightarrow> Inr (fallback ''anchor_not_found'')
                 | Some d \<Rightarrow>
                     if aid \<in> set dups then Inr (fallback ''anchor_not_found'')
                     else select_around rep chunks aid (case anc of Anchor_Id _ \<Rightarrow> d | Anchor_Doc x \<Rightarrow> x) max_chunks max_chars))"

section \<open>The best window\<close>

definition admissible :: "(json \<Rightarrow> string) \<Rightarrow> json list \<Rightarrow> nat \<Rightarrow> int \<Rightarrow> int \<Rightarrow> nat \<Rightarrow> nat \<Rightarrow> bool" where
  "admissible rep docs a max_chunks max_chars start final \<longleftrightarrow>
     start \<le> a \<and> a < final \<and> final \<le> length docs \<and> int (final - start) \<le> max_chunks \<and>
     (1 < final - start \<longrightarrow> total_chars rep docs start final \<le> max_chars)"

lemma text_chars_nonneg [simp]: "0 \<le> text_chars rep d"
  by (simp add: text_chars_def Let_def)

lemma total_chars_mono:
  assumes "e \<le> e'"
  shows "total_chars rep docs s e \<le> total_chars rep docs s e'"
proof -
  have "take (e' - s) (drop s docs) = take (e - s) (drop s docs) @ take (e' - s - (e - s)) (drop (e - s) (drop s docs))"
    using assms by (metis diff_le_mono le_add_diff_inverse take_add)
  moreover have "0 \<le> sum_list (map (text_chars rep) ds)" for ds by (intro sum_list_nonneg) auto
  ultimately show ?thesis unfolding total_chars_def slice_def by (simp only: map_append sum_list_append le_add_same_cancel1)
qed

text \<open>What a search knows of its best window: it is one of the admissible windows \<open>W\<close> it has passed, and the best.\<close>

definition best_of :: "(json \<Rightarrow> string) \<Rightarrow> json list \<Rightarrow> nat \<Rightarrow> (nat \<times> nat) set \<Rightarrow> best \<Rightarrow> bool" where
  "best_of rep docs a W b \<longleftrightarrow> fst b \<in> W \<and> snd b = window_score rep docs a (fst (fst b)) (snd (fst b)) \<and>
     (\<forall>(s, e) \<in> W. window_score rep docs a s e \<le> snd b)"

lemma scan_end_best:
  assumes "best_of rep docs a W b" and "sorted ends" and "\<forall>e \<in> set ends. a < e \<and> e \<le> length docs" and "s \<le> a"
  shows "best_of rep docs a (W \<union> {(s, e) |e. e \<in> set ends \<and> admissible rep docs a mc mch s e})
    (scan_end rep docs a mc mch s ends b)"
  using assms
proof (induction rep docs a mc mch s ends b arbitrary: W rule: scan_end.induct)
  case (2 rep docs a mc mch s e ends b)
  have later: "e \<le> e'" if "e' \<in> set (e # ends)" for e' using 2(3) that by auto
  consider (count) "mc < int (e - s)" | (chars) "1 < e - s" "mch < total_chars rep docs s e" "\<not> mc < int (e - s)"
    | (ok) "\<not> mc < int (e - s)" "\<not> (1 < e - s \<and> mch < total_chars rep docs s e)" by blast
  then show ?case
  proof cases
    case count
    then have "\<not> admissible rep docs a mc mch s e'" if "e' \<in> set (e # ends)" for e'
      using later [OF that] by (auto simp: admissible_def)
    then have none: "{(s, e') |e'. e' \<in> set (e # ends) \<and> admissible rep docs a mc mch s e'} = {}" by blast
    show ?thesis unfolding none using count 2(2) by simp
  next
    case chars
    have "\<not> admissible rep docs a mc mch s e'" if "e' \<in> set (e # ends)" for e'
      using later [OF that] chars total_chars_mono [OF later [OF that], of rep docs s] by (auto simp: admissible_def)
    then have none: "{(s, e') |e'. e' \<in> set (e # ends) \<and> admissible rep docs a mc mch s e'} = {}" by blast
    show ?thesis unfolding none using chars 2(2) by simp
  next
    case ok
    let ?b = "let w = window_score rep docs a s e in if snd b < w then ((s, e), w) else b"
    have adm: "admissible rep docs a mc mch s e" using ok 2(4,5) by (auto simp: admissible_def)
    have "best_of rep docs a (W \<union> {(s, e)}) ?b"
      using 2(2) by (auto simp: best_of_def Let_def intro: order.strict_implies_order order.trans)
    from 2(1) [OF ok this] 2(3-5)
    have "best_of rep docs a ((W \<union> {(s, e)}) \<union> {(s, e') |e'. e' \<in> set ends \<and> admissible rep docs a mc mch s e'})
      (scan_end rep docs a mc mch s ends ?b)" by simp
    moreover have "(W \<union> {(s, e)}) \<union> {(s, e') |e'. e' \<in> set ends \<and> admissible rep docs a mc mch s e'} =
        W \<union> {(s, e') |e'. e' \<in> set (e # ends) \<and> admissible rep docs a mc mch s e'}" using adm by auto
    moreover have "scan_end rep docs a mc mch s (e # ends) b = scan_end rep docs a mc mch s ends ?b"
      using ok by (simp only: scan_end.simps if_False)
    ultimately show ?thesis by (simp only:)
  qed
qed simp

lemma scan_all_best:
  assumes "best_of rep docs a W b" and "\<forall>s \<in> set ss. s \<le> a"
  shows "best_of rep docs a (W \<union> {(s, e). s \<in> set ss \<and> admissible rep docs a mc mch s e})
    (fold (\<lambda>s. scan_end rep docs a mc mch s [Suc a..<Suc (length docs)]) ss b)"
  using assms
proof (induction ss arbitrary: W b)
  case (Cons s ss)
  have "best_of rep docs a (W \<union> {(s, e) |e. e \<in> set [Suc a..<Suc (length docs)] \<and> admissible rep docs a mc mch s e})
      (scan_end rep docs a mc mch s [Suc a..<Suc (length docs)] b)"
    using Cons.prems by (intro scan_end_best sorted_upt) auto
  from Cons.IH [OF this] Cons.prems(2)
  have "best_of rep docs a (W \<union> {(s, e) |e. e \<in> set [Suc a..<Suc (length docs)] \<and> admissible rep docs a mc mch s e} \<union>
      {(s, e). s \<in> set ss \<and> admissible rep docs a mc mch s e}) (fold (\<lambda>s. scan_end rep docs a mc mch s [Suc a..<Suc (length docs)]) (s # ss) b)"
    by simp
  moreover have "W \<union> {(s, e) |e. e \<in> set [Suc a..<Suc (length docs)] \<and> admissible rep docs a mc mch s e} \<union>
      {(s, e). s \<in> set ss \<and> admissible rep docs a mc mch s e} =
      W \<union> {(s', e). s' \<in> set (s # ss) \<and> admissible rep docs a mc mch s' e}"
    by (auto simp: admissible_def)
  ultimately show ?case by (simp only:)
qed simp

lemma balanced_window_best:
  assumes "a < length docs" and "1 \<le> mc" and "balanced_window rep docs a mc mch = (s, e)"
  shows "admissible rep docs a mc mch s e \<and>
    (\<forall>s' e'. admissible rep docs a mc mch s' e' \<longrightarrow> window_score rep docs a s' e' \<le> window_score rep docs a s e)"
proof -
  let ?init = "((a, Suc a), (1, 0, text_chars rep (docs ! a), - int a)) :: best"
  have "slice a (Suc a) docs = [docs ! a]" using assms(1) by (simp add: slice_def take_Suc_conv_app_nth [of 0] hd_drop_conv_nth take_Suc)
  then have "best_of rep docs a {(a, Suc a)} ?init" by (simp add: best_of_def window_score_def total_chars_def)
  from scan_all_best [OF this, of "rev [0..<Suc a]" mc mch]
  have "best_of rep docs a ({(a, Suc a)} \<union> {(s, e). s \<in> set (rev [0..<Suc a]) \<and> admissible rep docs a mc mch s e})
    (fold (\<lambda>s. scan_end rep docs a mc mch s [Suc a..<Suc (length docs)]) (rev [0..<Suc a]) ?init)"
    (is "best_of _ _ _ _ ?b") by simp
  moreover have "{(a, Suc a)} \<union> {(s, e). s \<in> set (rev [0..<Suc a]) \<and> admissible rep docs a mc mch s e} =
      {(s, e). admissible rep docs a mc mch s e}"
    using assms(1,2) by (auto simp: admissible_def)
  ultimately have "best_of rep docs a {(s, e). admissible rep docs a mc mch s e} ?b" by (simp only:)
  moreover have "fst ?b = (s, e)" using assms(3) by (simp only: balanced_window_def)
  ultimately show ?thesis by (auto simp: best_of_def)
qed

section \<open>What is selected\<close>

lemma index_chunks_found:
  "index_chunks rep ds m dups = (m', dups') \<Longrightarrow> map_of m' i = Some d \<Longrightarrow> map_of m i = Some d \<or> d \<in> set ds \<and> chunk_id rep d = i"
proof (induction rep ds m dups arbitrary: m' dups' rule: index_chunks.induct)
  case (2 rep x ds m dups)
  consider "chunk_id rep x = []" | "chunk_id rep x \<noteq> []" "map_of m (chunk_id rep x) \<noteq> None"
    | "chunk_id rep x \<noteq> []" "map_of m (chunk_id rep x) = None" by blast
  then show ?case
  proof cases
    case 1
    from 2(1) [OF refl 1] 2(4,5) 1 show ?thesis by (auto simp: Let_def)
  next
    case other: 2
    from 2(2) [OF refl other] 2(4,5) other show ?thesis by (auto simp: Let_def)
  next
    case 3
    then have "\<not> map_of m (chunk_id rep x) \<noteq> None" by simp
    from 2(3) [OF refl 3(1) this] 2(4,5) 3 show ?thesis
      by (auto simp: Let_def map_of_append map_add_def split: option.splits if_splits)
  qed
qed simp

text \<open>\<open>ordered\<close> are the chunks of the section \<open>p\<close>, each once, under consecutive numbers.\<close>

definition complete_section :: "(json \<Rightarrow> string) \<Rightarrow> json list \<Rightarrow> string \<Rightarrow> json list \<Rightarrow> bool" where
  "complete_section rep chunks p ordered \<longleftrightarrow>
     mset ordered = mset (filter (\<lambda>d. parent_chunk_id rep d = p) chunks) \<and> distinct (map (chunk_id rep) ordered) \<and>
     (\<exists>key \<in> {''child_index_in_parent'', ''chunk_index''}. \<exists>b.
        map (order_or 0 key) ordered = map (\<lambda>k. b + int k) [0..<length ordered])"

lemma ordered_complete:
  assumes "ordered_parent_children rep chunks p = Inr (Some ordered)"
  shows "complete_section rep chunks p ordered"
proof -
  define children where "children = filter (\<lambda>d. parent_chunk_id rep d = p) chunks"
  from assms have d: "distinct (map (chunk_id rep) children)"
    and ord: "by_child_index rep children = Some ordered \<or> by_chunk_index rep children = Some ordered"
    by (auto simp: ordered_parent_children_def children_def [symmetric] Let_def split: if_splits)
  from ord have "mset ordered = mset children" "\<exists>key \<in> {''child_index_in_parent'', ''chunk_index''}. \<exists>b.
      map (order_or 0 key) ordered = map (\<lambda>k. b + int k) [0..<length ordered]"
    by (auto simp: by_child_index_def by_chunk_index_def Let_def intro: exI [of _ 0] split: if_splits)
  moreover from this(1) d have "distinct (map (chunk_id rep) ordered)" by (metis mset_eq_imp_distinct_iff mset_map)
  ultimately show ?thesis by (simp add: complete_section_def children_def)
qed

text \<open>The anchor's identifier, and the document that stands for it.\<close>

definition anchor_id :: "(json \<Rightarrow> string) \<Rightarrow> anchor \<Rightarrow> string" where
  "anchor_id rep anc = (case anc of Anchor_Id s \<Rightarrow> py_strip s | Anchor_Doc d \<Rightarrow> chunk_id rep d)"

definition stands_for :: "(json \<Rightarrow> string) \<Rightarrow> json list \<Rightarrow> json \<Rightarrow> anchor \<Rightarrow> bool" where
  "stands_for rep chunks out anc \<longleftrightarrow> chunk_id rep out = anchor_id rep anc \<and>
     (case anc of Anchor_Id _ \<Rightarrow> out \<in> set chunks | Anchor_Doc d \<Rightarrow> out = d)"

lemma select_around_cases:
  assumes "select_around rep chunks aid out mc mch = Inr sel"
  shows "ps_fallback sel \<and> ps_docs sel = [] \<or>
    (\<exists>ordered a s e. ordered_parent_children rep chunks (parent_chunk_id rep out) = Inr (Some ordered) \<and>
       filter (\<lambda>i. chunk_id rep (ordered ! i) = aid) [0..<length ordered] = [a] \<and>
       balanced_window rep (ordered[a := out]) a mc mch = (s, e) \<and>
       sel = \<lparr>ps_docs = slice s e (ordered[a := out]), ps_fallback = False, ps_reason = ''selected''\<rparr>)"
proof (cases "parent_chunk_id rep out = []")
  case True
  with assms show ?thesis by (auto simp: select_around_def fallback_def)
next
  case False
  with assms obtain r where r: "ordered_parent_children rep chunks (parent_chunk_id rep out) = Inr r"
    by (auto simp: select_around_def Let_def)
  show ?thesis
  proof (cases r)
    case None
    with assms r False show ?thesis by (auto simp: select_around_def fallback_def Let_def)
  next
    case (Some ordered)
    define js where "js = filter (\<lambda>i. chunk_id rep (ordered ! i) = aid) [0..<length ordered]"
    consider a where "js = [a]" | "\<nexists>a. js = [a]" by blast
    then show ?thesis
    proof cases
      case 1
      obtain s e where w: "balanced_window rep (ordered[a := out]) a mc mch = (s, e)"
        by (cases "balanced_window rep (ordered[a := out]) a mc mch")
      with assms r Some False 1 show ?thesis
        by (simp add: select_around_def js_def [symmetric] Let_def)
    next
      case 2
      with assms r Some False show ?thesis
        by (auto simp: select_around_def js_def [symmetric] fallback_def Let_def split: list.splits)
    qed
  qed
qed

lemma select_aroundE:
  assumes "select_around rep chunks aid out mc mch = Inr sel" and "1 \<le> mc" and "\<not> ps_fallback sel"
  obtains ordered a s e where "complete_section rep chunks (parent_chunk_id rep out) ordered" "a < length ordered"
    "chunk_id rep (ordered ! a) = aid" "ps_docs sel = slice s e (ordered[a := out])" "admissible rep (ordered[a := out]) a mc mch s e"
    "\<And>s' e'. admissible rep (ordered[a := out]) a mc mch s' e' \<Longrightarrow>
       window_score rep (ordered[a := out]) a s' e' \<le> window_score rep (ordered[a := out]) a s e"
proof -
  from select_around_cases [OF assms(1)] assms(3) obtain ordered a s e where
    o: "ordered_parent_children rep chunks (parent_chunk_id rep out) = Inr (Some ordered)"
    and js: "filter (\<lambda>i. chunk_id rep (ordered ! i) = aid) [0..<length ordered] = [a]"
    and w: "balanced_window rep (ordered[a := out]) a mc mch = (s, e)" and sel: "ps_docs sel = slice s e (ordered[a := out])"
    by auto
  have "a \<in> set (filter (\<lambda>i. chunk_id rep (ordered ! i) = aid) [0..<length ordered])" unfolding js by simp
  then have a: "a < length ordered" "chunk_id rep (ordered ! a) = aid" by simp_all
  from a(1) have "a < length (ordered[a := out])" by simp
  from balanced_window_best [OF this assms(2) w] that [OF ordered_complete [OF o] a sel] show thesis by blast
qed

lemma select_cases:
  assumes "select_parent_context rep chunks anc mc mch = Inr sel"
  shows "1 \<le> mc" and "ps_fallback sel \<and> ps_docs sel = [] \<or>
    (\<exists>out. stands_for rep chunks out anc \<and> select_around rep chunks (anchor_id rep anc) out mc mch = Inr sel)"
proof -
  show "1 \<le> mc" using assms by (auto simp: select_parent_context_def split: if_splits)
  obtain m dups where m: "index_chunks rep chunks [] [] = (m, dups)" by fastforce
  show "ps_fallback sel \<and> ps_docs sel = [] \<or>
    (\<exists>out. stands_for rep chunks out anc \<and> select_around rep chunks (anchor_id rep anc) out mc mch = Inr sel)"
  proof (cases "map_of m (anchor_id rep anc)")
    case None
    with assms m show ?thesis
      by (auto simp: select_parent_context_def anchor_id_def [symmetric] fallback_def Let_def split: if_splits)
  next
    case (Some d)
    define out where "out = (case anc of Anchor_Id _ \<Rightarrow> d | Anchor_Doc x \<Rightarrow> x)"
    from index_chunks_found [OF m Some] have "stands_for rep chunks out anc"
      by (auto simp: stands_for_def out_def anchor_id_def split: anchor.splits)
    with assms m Some show ?thesis
      by (auto simp: select_parent_context_def anchor_id_def [symmetric] out_def [symmetric] fallback_def Let_def split: if_splits)
  qed
qed

text \<open>C34. The parent context is the best window.  A selection that does not ask for the fallback is a contiguous part of
  the anchor's section, which is complete (each of its chunks once, under consecutive numbers) and in order; the part
  contains the anchor's own document, has at most \<open>max_chunks\<close> chunks and, unless it is the anchor alone, at most
  \<open>max_chars\<close> characters; and no window with these properties has a better score (more chunks, then better balanced,
  then more text, then an earlier start), although the search breaks off its loops early.  A fallback returns no document.\<close>

theorem parent_window_best:
  assumes "select_parent_context rep chunks anc max_chunks max_chars = Inr sel"
  shows "if ps_fallback sel then ps_docs sel = []
    else \<exists>out ordered a s e. stands_for rep chunks out anc \<and> complete_section rep chunks (parent_chunk_id rep out) ordered \<and>
      a < length ordered \<and> chunk_id rep (ordered ! a) = anchor_id rep anc \<and>
      ps_docs sel = slice s e (ordered[a := out]) \<and> admissible rep (ordered[a := out]) a max_chunks max_chars s e \<and>
      (\<forall>s' e'. admissible rep (ordered[a := out]) a max_chunks max_chars s' e' \<longrightarrow>
         window_score rep (ordered[a := out]) a s' e' \<le> window_score rep (ordered[a := out]) a s e)"
proof (cases "ps_fallback sel")
  case True
  have "ps_docs sel = []" if "select_around rep chunks aid out max_chunks max_chars = Inr sel" for aid out
    using select_around_cases [OF that] True by auto
  with select_cases(2) [OF assms] True show ?thesis by auto
next
  case False
  with select_cases(2) [OF assms] obtain out where
    out: "stands_for rep chunks out anc" "select_around rep chunks (anchor_id rep anc) out max_chunks max_chars = Inr sel"
    by blast
  show ?thesis
  proof (rule select_aroundE [OF out(2) select_cases(1) [OF assms] False])
    fix ordered a s e
    assume "complete_section rep chunks (parent_chunk_id rep out) ordered" "a < length ordered"
      "chunk_id rep (ordered ! a) = anchor_id rep anc" "ps_docs sel = slice s e (ordered[a := out])"
      "admissible rep (ordered[a := out]) a max_chunks max_chars s e"
      and best: "\<And>s' e'. admissible rep (ordered[a := out]) a max_chunks max_chars s' e' \<Longrightarrow>
        window_score rep (ordered[a := out]) a s' e' \<le> window_score rep (ordered[a := out]) a s e"
    with out(1) have "stands_for rep chunks out anc \<and> complete_section rep chunks (parent_chunk_id rep out) ordered \<and>
      a < length ordered \<and> chunk_id rep (ordered ! a) = anchor_id rep anc \<and>
      ps_docs sel = slice s e (ordered[a := out]) \<and> admissible rep (ordered[a := out]) a max_chunks max_chars s e \<and>
      (\<forall>s' e'. admissible rep (ordered[a := out]) a max_chunks max_chars s' e' \<longrightarrow>
         window_score rep (ordered[a := out]) a s' e' \<le> window_score rep (ordered[a := out]) a s e)"
      by (intro conjI allI impI best)
    then show ?thesis unfolding if_not_P [OF False] by blast
  qed
qed

definition demo_child :: "string \<Rightarrow> int \<Rightarrow> json" where
  "demo_child i n = JObj [(''text'', JStr ''t''), (''meta'', JObj [(''chunk_id'', JStr i), (''parent_chunk_id'', JStr ''p''),
     (''chunk_index'', JInt n)])]"

lemma parent_window_best_witness:
  "\<exists>sel. select_parent_context (\<lambda>_. []) [demo_child ''b'' 5, demo_child ''a'' 4] (Anchor_Id ''b'') 2 100 = Inr sel \<and>
     ps_docs sel = [demo_child ''a'' 4, demo_child ''b'' 5] \<and>
     (\<exists>out. stands_for (\<lambda>_. []) [demo_child ''b'' 5, demo_child ''a'' 4] out (Anchor_Id ''b''))"
proof -
  have s: "select_parent_context (\<lambda>_. []) [demo_child ''b'' 5, demo_child ''a'' 4] (Anchor_Id ''b'') 2 100 =
      Inr \<lparr>ps_docs = [demo_child ''a'' 4, demo_child ''b'' 5], ps_fallback = False, ps_reason = ''selected''\<rparr>" by code_simp
  from parent_window_best [OF s] s show ?thesis by auto
qed

end
