(* ===== verification/Spec2Isabelle.thy ===== *)
theory Spec2Isabelle
  imports KB_Delete Mutation_Recovery Tenant_Quota_Props KB_Lock_Props Index_Plan
    HA_Job_Props HA_Outbox_Props HA_Scheduler_Props HA_Demo
    Retrieval_Scope Retrieval_Props Parent_Context
begin

text \<open>
  Verification of the state-keeping core of CogDoc, a knowledge-base server, and of the selection steps of its
  retrieval.  File names below are relative to
  \<open>src/src/cogdoc\<close>.

  \<^bold>\<open>The program.\<close>  A knowledge base is a set of source files and an index built from them.  CogDoc keeps one in
  two ways.  The \<^emph>\<open>single-node\<close> server keeps JSON files: an epoch and a lifecycle mark per knowledge base
  (\<open>service/kb_epoch.py\<close>, \<open>service/kb_lifecycle.py\<close>), the index generations with a pointer to the active one
  (\<open>service/kb_state.py\<close>), a journal of source-file mutations for crash recovery (\<open>service/mutation_journal.py\<close>), a
  queue of external resources to purge (\<open>service/purge_queue.py\<close>), locks and reader leases within the process
  (\<open>service/kb_locks.py\<close>, \<open>service/kb_readers.py\<close>) and quota admission (\<open>api/tenant_quota.py\<close>).
  \<open>service/ingest_service.py\<close> composes them.  The \<^emph>\<open>distributed control plane\<close> (\<open>ha/\<close>) keeps tables in SQLite or
  PostgreSQL: a registry with mutation leases (\<open>ha/api_state.py\<close>), source and index generations
  (\<open>ha/source_generation.py\<close>, \<open>ha/index_generation.py\<close>), a deletion saga (\<open>ha/kb_deletion.py\<close>), a job queue
  (\<open>ha/tasks.py\<close>), a transactional outbox (\<open>ha/outbox.py\<close>) and a scheduler (\<open>ha/scheduler.py\<close>); \<open>ha/runtime.py\<close> wires
  them.  A \<^emph>\<open>query\<close> goes to several search channels within the scope the caller may see (\<open>tools/retriever/scope.py\<close>);
  their rankings are fused and cut to a pool for reranking (\<open>fusion.py\<close>), and a chunk that is used is handed on with
  its siblings (\<open>parent_context.py\<close>).

  \<^bold>\<open>Conventions.\<close>  A method is a function from its arguments and the state to a result and the new state.
  What it draws from outside (the clock, new identifiers and tokens, faults of the file system, rows locked by other
  transactions) is an argument.  Exceptions are values of \<open>exn\<close> on the left of a sum, and every \<open>raise\<close> and early return
  of the source is a branch.  A transaction that raises leaves the database as it was (\<open>transaction\<close>); a file operation
  that raises returns the state its steps have left.  Python's integers are \<open>int\<close>; a finite float is a real number
  (rounding is not modelled, the infinities and NaN are); a string is a list of code points below 256; JSON text is the
  tree it parses to, written out where its length or hash matters (\<open>PyJson\<close>).  An SQL table with a primary key is the
  list of its (key, row) pairs, any other table a list of rows (\<open>HA_Tables\<close>, \<open>HA_Storage\<close>).

  \<^bold>\<open>Theories.\<close>
  \<^item> \<open>Prelude\<close>, \<open>PyJson\<close>: exceptions, result monad, floats, text and JSON, with the lemmas all theories share.
  \<^item> \<open>Durable\<close>: \<open>service/durable_io.py\<close>.  \<open>write_steps\<close> are the system calls of \<open>atomic_write_json\<close>, any of which may
    fail or be the last before a crash; the file is old or new, never partial.
  \<^item> \<open>Epoch\<close>, \<open>Lifecycle\<close>: the two file stores.  The locales \<open>epoch_authority\<close> and \<open>lifecycle_authority\<close> are what their
    clients rely on; both are interpreted on the files and again on the distributed registry (\<open>HA_Registry\<close>), which is
    why it can replace them.
  \<^item> \<open>KB_State\<close>, \<open>KB_Machine\<close>: \<open>KBState\<close>, one definition per method (\<open>..._data\<close> on the loaded data, wrapped by the load
    and save); the machine runs them on any knowledge bases, with write faults, and gives the invariant of every
    readable state and the fence an epoch bump puts before older generations.
  \<^item> \<open>Mutation_Journal\<close>, \<open>Mutation_Recovery\<close>: the journal, the durable steps of an upload or a deletion (from
    \<open>api/ingest.py\<close>) and the start-up recovery.  A run that dies after any step refines the atomic specification.
  \<^item> \<open>Purge_Queue\<close>, \<open>Purge_Props\<close>: the queue and the drain of \<open>ingest_service.py\<close>.  The queue refines a table from
    (knowledge base, generation) to the earliest purge time and the segments; \<open>purge_store\<close> is the interface of the
    drain.
  \<^item> \<open>KB_Locks\<close>, \<open>KB_Lock_Props\<close>: each definition is one critical section, so a run is any interleaving of threads.
  \<^item> \<open>Tenant_Quota\<close>, \<open>Tenant_Quota_Props\<close>: usage read from directories, reservations, and the invariant that limits hold
    in every interleaving, with the case in which they do not.
  \<^item> \<open>KB_Delete\<close>, \<open>Index_Plan\<close>: deletion across the stores, and the plan of an incremental build compared with the
    full one.
  \<^item> \<open>HA_Storage\<close>: transactions, \<open>retry_transaction\<close>, argument checks and the fragment of SQL; the locale \<open>lease_store\<close>
    (tokens on rows), interpreted on jobs and on the outbox, gives both their fencing.
  \<^item> \<open>HA_Jobs\<close>, \<open>HA_Job_Machine\<close>, \<open>HA_Job_Props\<close>: \<open>LeaseJobStore\<close>; \<open>row_step\<close> is what an operation may do to a row.
  \<^item> \<open>HA_Outbox\<close>, \<open>HA_Outbox_Machine\<close>, \<open>HA_Outbox_Props\<close>: \<open>OutboxStore\<close> and a cycle of \<open>OutboxDispatcher\<close>.
  \<^item> \<open>HA_Cron\<close>, \<open>HA_Scheduler\<close>, \<open>HA_Scheduler_Props\<close>: cron expressions, schedules and the handoff of fires to jobs by
    any number of schedulers that may crash anywhere; \<open>idem_queue\<close> is what the handoff needs of the job queue.
  \<^item> \<open>HA_Tables\<close>, \<open>HA_Registry\<close>, \<open>HA_Source\<close>, \<open>Index_Manifest\<close>, \<open>HA_Index\<close>, \<open>HA_Deletion\<close>: the shared database and the
    stores of the control plane on it.
  \<^item> \<open>HA_Control\<close>: the stores wired as in \<open>ha/runtime.py\<close>, as one machine.  \<open>ha_op\<close> has a constructor per writing
    method, \<open>exec\<close> runs it, \<open>ha_reachable\<close> are the states from the empty database.  Every transaction refines a few steps
    of two small protocols, \<open>index_step\<close> on the index tables and \<open>source_step\<close> on the source tables
    (\<open>exec_index\<close>, \<open>exec_source\<close>), and what it leaves alone is said by \<open>quiet\<close>.
  \<^item> \<open>HA_Index_Props\<close>, \<open>HA_Source_Props\<close>, \<open>HA_Authority_Props\<close>, \<open>HA_Deletion_Props\<close>, \<open>HA_Recover_Props\<close>: invariants of
    the protocols, and what follows for the stores: order of publications, stable readers, no lost update, exclusive
    leases, the fence of a deletion, its resumption and the end of the recovery loop.
  \<^item> \<open>HA_Demo\<close>: a concrete life of a knowledge base on which these results are applied; and a trace in which a build that
    outlives the deletion of its knowledge base is published into the next one, because the last phase of the deletion
    removes the fencing counter.
  \<^item> \<open>Retrieval_Scope\<close>: \<open>RetrievalScope\<close>; the intersection of two scopes allows exactly the documents both allow.
  \<^item> \<open>Retrieval_Fusion\<close>, \<open>Retrieval_Props\<close>: the two functions of \<open>fusion.py\<close>, loop by loop; their result compared with
    the closed formula of reciprocal-rank fusion, and the shares every requirement and channel has in the pool.
  \<^item> \<open>Parent_Context\<close>: \<open>select_parent_context\<close>; the window is the best of all admissible ones in a complete section.

  \<^bold>\<open>Bounds.\<close>  \<open>retry_loop\<close> counts the attempts the caller passes; \<open>next_loop\<close> of a cron expression runs over the
  2,635,200 minutes the code allows; \<open>recover_loop\<close> takes a number of passes, and \<open>recovery_ends\<close> shows that one more than
  the unfinished deletions is enough.  All other loops are structural recursion or have a termination proof.

  \<^bold>\<open>Parameters.\<close>  \<open>codec\<close> has \<open>float.__repr__\<close> and SHA-256; nothing is assumed of them except where a statement says so.
  The vector store, object stores, the files of an index generation (\<open>he_verify\<close>), the cleanups of other stores during a
  deletion (\<open>dr_external\<close>) and time-zone data are arguments that may return anything or fail.

  \<^bold>\<open>Not modelled.\<close>  Pure input and output and outside services: HTTP routes and schemas, authentication and OAuth,
  connectors, LLM agents and graphs, parsing, embedding and the searches themselves (native and third-party libraries), the clients,
  configuration and tracing.  The remaining stores of \<open>ha/\<close> and \<open>api/\<close> (sessions, feedback, research jobs, catalogs,
  backup, migration) follow the same patterns as the modelled ones and are left out for size.  Of modelled files:
  \<open>LocalIndexRepository\<close> and the object side of source generations (files), \<open>DistributedIndexJobStore\<close>, the HTTP side of
  \<open>api/ingest.py\<close>, the build itself in \<open>ingest_service.py\<close>, connection pools.  Concurrent transactions are serial (the
  isolation the code asks for); the rows a PostgreSQL claim skips because another transaction holds them are an argument.
\<close>

section \<open>Properties that span components\<close>








end
